(* ===== verification/Maat_Prelude.thy ===== *)
theory Maat_Prelude
  imports Main
begin

text \<open>
  The prelude of the development: the collections of rewrite rules the component theories
  share, the text type, JavaScript's \<^verbatim>\<open>Map\<close> (a map that remembers insertion order), the
  effect type of an \<^verbatim>\<open>async\<close> function with its weakest-precondition rules, and the string
  helpers the orchestrator applies to every intent identifier and address.
\<close>

named_theorems wp_simps \<open>weakest preconditions of the effect combinators\<close>
named_theorems jmap_simps \<open>insertion-ordered maps\<close>
named_theorems world_defs \<open>primitive world operations, unfolded together\<close>

section \<open>Text\<close>

text \<open>
  A message is a JavaScript string: a list of UTF-16 code units. Identifiers, addresses and
  hashes are ASCII and are kept as \<^typ>\<open>string\<close>; \<open>js\<close> turns one into a message. The em dash
  that several messages contain is the code unit U+2014.
\<close>

type_synonym jstext = "nat list"

definition js :: "string \<Rightarrow> jstext" where
  "js s = map (of_char :: char \<Rightarrow> nat) s"

definition emdash :: jstext where
  "emdash = [0x2014]"

lemma js_append [simp]: "js (a @ b) = js a @ js b"
  by (simp add: js_def)

lemma js_Nil [simp]: "js [] = []"
  by (simp add: js_def)

lemma js_inject [simp]: "js a = js b \<longleftrightarrow> a = b"
  unfolding js_def by (rule inj_map_eq_map) (simp add: inj_def)

text \<open>\<^verbatim>\<open>xs.join(sep)\<close>.\<close>

fun join_with :: "'a list \<Rightarrow> 'a list list \<Rightarrow> 'a list" where
  "join_with sep [] = []"
| "join_with sep [x] = x"
| "join_with sep (x # y # ys) = x @ sep @ join_with sep (y # ys)"

section \<open>Identifiers: case folding and the 0x prefix\<close>

text \<open>
  \<^verbatim>\<open>toLowerCase\<close> on the code units a \<^typ>\<open>string\<close> can hold (U+0000 to U+00FF): the ASCII
  capitals and the Latin-1 capitals U+00C0 to U+00DE without the multiplication sign U+00D7.
\<close>

definition lower_char :: "char \<Rightarrow> char" where
  "lower_char c =
     (let n = (of_char c :: nat) in
      if (65 \<le> n \<and> n \<le> 90) \<or> (192 \<le> n \<and> n \<le> 222 \<and> n \<noteq> 215) then char_of (n + 32) else c)"

definition toLowerCase :: "string \<Rightarrow> string" where
  "toLowerCase = map lower_char"

text \<open>\<^verbatim>\<open>id.replace(/^0x/i, "")\<close>.\<close>

fun strip0x :: "string \<Rightarrow> string" where
  "strip0x (a # b # s) = (if a = CHR ''0'' \<and> (b = CHR ''x'' \<or> b = CHR ''X'') then s else a # b # s)"
| "strip0x s = s"

text \<open>
  The key an intent is filed under: \<^verbatim>\<open>keyOf\<close> of \<^verbatim>\<open>intent_state.ts\<close>, repeated letter for
  letter in \<^verbatim>\<open>arbitrum_ledger.ts\<close> and \<^verbatim>\<open>solver_stats.ts\<close> and, as \<^verbatim>\<open>intentKey\<close>, in
  \<^verbatim>\<open>solver_routing.ts\<close>.
\<close>

definition keyOf :: "string \<Rightarrow> string" where
  "keyOf intentId = toLowerCase (strip0x intentId)"

lemma lower_char_idem [simp]: "lower_char (lower_char c) = lower_char c"
proof -
  define n where "n = (of_char c :: nat)"
  have "(of_char (char_of (n + 32) :: char) :: nat) = (n + 32) mod 256"
    by simp
  then show ?thesis
    by (auto simp: lower_char_def Let_def n_def [symmetric])
qed

lemma toLowerCase_idem [simp]: "toLowerCase (toLowerCase s) = toLowerCase s"
  by (simp add: toLowerCase_def comp_def)

lemma toLowerCase_append [simp]: "toLowerCase (a @ b) = toLowerCase a @ toLowerCase b"
  by (simp add: toLowerCase_def)

lemma toLowerCase_length [simp]: "length (toLowerCase s) = length s"
  by (simp add: toLowerCase_def)

section \<open>Insertion-ordered maps\<close>

text \<open>
  JavaScript's \<^verbatim>\<open>Map\<close> iterates in insertion order; \<^verbatim>\<open>set\<close> on a present key keeps its place,
  \<^verbatim>\<open>set\<close> on a new key appends, \<^verbatim>\<open>delete\<close> says whether the key was there.
\<close>

type_synonym ('k, 'v) jmap = "('k \<times> 'v) list"

fun jget :: "('k, 'v) jmap \<Rightarrow> 'k \<Rightarrow> 'v option" where
  "jget [] k = None"
| "jget ((k', v) # m) k = (if k' = k then Some v else jget m k)"

fun jput :: "'k \<Rightarrow> 'v \<Rightarrow> ('k, 'v) jmap \<Rightarrow> ('k, 'v) jmap" where
  "jput k v [] = [(k, v)]"
| "jput k v ((k', v') # m) = (if k' = k then (k, v) # m else (k', v') # jput k v m)"

fun jdel :: "'k \<Rightarrow> ('k, 'v) jmap \<Rightarrow> ('k, 'v) jmap" where
  "jdel k [] = []"
| "jdel k ((k', v) # m) = (if k' = k then m else (k', v) # jdel k m)"

abbreviation jkeys :: "('k, 'v) jmap \<Rightarrow> 'k list" where
  "jkeys m \<equiv> map fst m"

abbreviation jwf :: "('k, 'v) jmap \<Rightarrow> bool" where
  "jwf m \<equiv> distinct (jkeys m)"

lemma notin_jkeys [dest]: "k \<notin> fst ` set m \<Longrightarrow> (k, v) \<in> set m \<Longrightarrow> False"
  by (simp add: rev_image_eqI)

lemma jget_jput [simp, jmap_simps]: "jget (jput k v m) k' = (if k' = k then Some v else jget m k')"
  by (induction m) auto

lemma jput_new: "jget m k = None \<Longrightarrow> jput k v m = m @ [(k, v)]"
  by (induction m) (auto split: if_splits)

lemma jkeys_jput: "jkeys (jput k v m) = (if k \<in> set (jkeys m) then jkeys m else jkeys m @ [k])"
  by (induction m) (auto split: if_splits)

lemma set_jkeys_jput [simp]: "set (jkeys (jput k v m)) = insert k (set (jkeys m))"
  by (auto simp: jkeys_jput)

lemma jwf_jput [simp, intro]: "jwf m \<Longrightarrow> jwf (jput k v m)"
  by (auto simp: jkeys_jput)

lemma jget_None_iff: "jget m k = None \<longleftrightarrow> k \<notin> set (jkeys m)"
  by (induction m k rule: jget.induct) (auto split: if_splits)

lemma jget_Some_in: "jget m k = Some v \<Longrightarrow> (k, v) \<in> set m"
  by (induction m) (auto split: if_splits)

lemma jget_eq_iff: "jwf m \<Longrightarrow> jget m k = Some v \<longleftrightarrow> (k, v) \<in> set m"
  by (induction m k rule: jget.induct) (auto simp: rev_image_eqI split: if_splits)

lemma set_jdel: "jwf m \<Longrightarrow> set (jdel k m) = {x \<in> set m. fst x \<noteq> k}"
  by (induction m) (auto split: if_splits)

lemma jwf_jdel [simp, intro]: "jwf m \<Longrightarrow> jwf (jdel k m)"
  by (induction m) (auto simp: set_jdel)

lemma jget_jdel [jmap_simps]: "jwf m \<Longrightarrow> jget (jdel k m) k' = (if k' = k then None else jget m k')"
  by (induction m) (auto simp: jget_None_iff set_jdel split: if_splits)

lemma in_set_jput: "x \<in> set (jput k v m) \<Longrightarrow> x = (k, v) \<or> x \<in> set m"
  by (induction m) (auto split: if_splits)

lemma set_jput: "jwf m \<Longrightarrow> set (jput k v m) = insert (k, v) {x \<in> set m. fst x \<noteq> k}"
  by (induction m) (auto split: if_splits)

lemma jput_twice [simp]: "jput k v (jput k v' m) = jput k v m"
  by (induction m) auto

text \<open>Keys as \<^verbatim>\<open>keyOf\<close> and \<^verbatim>\<open>toLowerCase\<close> leave them: distinct and lower case.\<close>

definition lc_keys :: "(string, 'v) jmap \<Rightarrow> bool" where
  "lc_keys m \<longleftrightarrow> jwf m \<and> (\<forall>k \<in> set (jkeys m). toLowerCase k = k)"

lemma lc_keys_jwf: "lc_keys m \<Longrightarrow> jwf m"
  by (simp add: lc_keys_def)

lemma lc_keys_Nil [simp]: "lc_keys []"
  by (simp add: lc_keys_def)

lemma lc_keys_put [simp]: "lc_keys m \<Longrightarrow> lc_keys (jput (toLowerCase i) e m)"
  unfolding lc_keys_def set_jkeys_jput by simp

lemma lc_keys_keyOf [simp]: "lc_keys m \<Longrightarrow> lc_keys (jput (keyOf i) e m)"
  unfolding keyOf_def by simp

lemma lc_keys_folds:
  "lc_keys m \<Longrightarrow> lc_keys (fold (\<lambda>i. jput (toLowerCase i) (e i)) ids m)"
  "lc_keys m \<Longrightarrow> lc_keys (fold (\<lambda>(i, e). jput (toLowerCase i) e) xs m)"
  by (induction ids arbitrary: m, simp_all) (induction xs arbitrary: m, auto)

lemma lc_keys_get:
  assumes "lc_keys m" "(k, v) \<in> set m"
  shows "jget m k = Some v" and "toLowerCase k = k" and "keyOf (''0x'' @ k) = k"
proof -
  show "jget m k = Some v"
    using assms by (simp add: lc_keys_def jget_eq_iff)
  show lc: "toLowerCase k = k"
    using assms by (force simp: lc_keys_def)
  show "keyOf (''0x'' @ k) = k"
    by (simp add: keyOf_def lc)
qed

text \<open>\<^verbatim>\<open>[...new Set(xs)]\<close>: the first occurrence of each element, in order.\<close>

fun uniq_acc :: "'a list \<Rightarrow> 'a list \<Rightarrow> 'a list" where
  "uniq_acc seen [] = []"
| "uniq_acc seen (x # xs) = (if x \<in> set seen then uniq_acc seen xs else x # uniq_acc (x # seen) xs)"

definition uniq :: "'a list \<Rightarrow> 'a list" where
  "uniq = uniq_acc []"

lemma set_uniq_acc: "set (uniq_acc seen xs) = set xs - set seen"
  by (induction xs arbitrary: seen) auto

lemma distinct_uniq_acc: "distinct (uniq_acc seen xs)"
  by (induction xs arbitrary: seen) (auto simp: set_uniq_acc)

lemma set_uniq [simp]: "set (uniq xs) = set xs"
  by (simp add: uniq_def set_uniq_acc)

lemma distinct_uniq [simp]: "distinct (uniq xs)"
  by (simp add: uniq_def distinct_uniq_acc)

section \<open>Object spread\<close>

text \<open>
  In \<^verbatim>\<open>{...prev, ...patch}\<close> a property of \<^verbatim>\<open>patch\<close> wins over the previous one even when its
  value is \<^verbatim>\<open>undefined\<close>; only a property the patch does not have at all is kept from \<^verbatim>\<open>prev\<close>.
\<close>

datatype 'a fld = Absent | Undef | Val 'a

fun spread :: "'a option \<Rightarrow> 'a fld \<Rightarrow> 'a option" where
  "spread prev Absent = prev"
| "spread prev Undef = None"
| "spread prev (Val x) = Some x"

text \<open>A property written as \<^verbatim>\<open>{ name: value }\<close> where the value may be \<^verbatim>\<open>undefined\<close>.\<close>

definition fld_of :: "'a option \<Rightarrow> 'a fld" where
  "fld_of v = (case v of None \<Rightarrow> Undef | Some x \<Rightarrow> Val x)"

text \<open>Spreading one patch after another.\<close>

fun fld_then :: "'a fld \<Rightarrow> 'a fld \<Rightarrow> 'a fld" where
  "fld_then p Absent = p"
| "fld_then p q = q"

lemma spread_fld_of [simp]: "spread prev (fld_of v) = v"
  by (cases v) (simp_all add: fld_of_def)

lemma spread_then [simp]: "spread prev (fld_then p q) = spread (spread prev p) q"
  by (cases q) simp_all

section \<open>Effects: the outcome of an async function\<close>

text \<open>
  An \<^verbatim>\<open>async\<close> function takes the world and gives an outcome and the next world. It fulfils
  its promise (\<open>Ok\<close>), rejects it with an error message (\<open>Throw\<close>), or the process stops
  there (\<open>Stop\<close>): killed while it waits, or, in a loop that takes a fuel argument, still
  looping when the fuel ends. Nothing after a \<open>Stop\<close> runs, no \<^verbatim>\<open>catch\<close> and no
  \<^verbatim>\<open>finally\<close>, so a theorem about every outcome is a theorem about every point at which the
  process can be cut off.
\<close>

datatype 'a outcome = Ok 'a | Throw jstext | Stop

type_synonym ('w, 'a) js = "'w \<Rightarrow> 'a outcome \<times> 'w"

definition js_ret :: "'a \<Rightarrow> ('w, 'a) js" where
  "js_ret x = (\<lambda>w. (Ok x, w))"

definition js_throw :: "jstext \<Rightarrow> ('w, 'a) js" where
  "js_throw e = (\<lambda>w. (Throw e, w))"

definition js_stop :: "('w, 'a) js" where
  "js_stop = (\<lambda>w. (Stop, w))"

definition js_get :: "('w \<Rightarrow> 'a) \<Rightarrow> ('w, 'a) js" where
  "js_get f = (\<lambda>w. (Ok (f w), w))"

definition js_mod :: "('w \<Rightarrow> 'w) \<Rightarrow> ('w, unit) js" where
  "js_mod f = (\<lambda>w. (Ok (), f w))"

definition bnd :: "('w, 'a) js \<Rightarrow> ('a \<Rightarrow> ('w, 'b) js) \<Rightarrow> ('w, 'b) js" where
  "bnd m k = (\<lambda>w. case m w of
       (Ok x, w') \<Rightarrow> k x w' | (Throw e, w') \<Rightarrow> (Throw e, w') | (Stop, w') \<Rightarrow> (Stop, w'))"

definition sq :: "('w, unit) js \<Rightarrow> ('w, 'b) js \<Rightarrow> ('w, 'b) js" where
  "sq m k = bnd m (\<lambda>_. k)"

text \<open>\<^verbatim>\<open>try m catch (e) h\<close> and \<^verbatim>\<open>try m finally f\<close>.\<close>

definition js_catch :: "('w, 'a) js \<Rightarrow> (jstext \<Rightarrow> ('w, 'a) js) \<Rightarrow> ('w, 'a) js" where
  "js_catch m h = (\<lambda>w. case m w of
       (Ok x, w') \<Rightarrow> (Ok x, w') | (Throw e, w') \<Rightarrow> h e w' | (Stop, w') \<Rightarrow> (Stop, w'))"

definition js_finally :: "('w, 'a) js \<Rightarrow> ('w, unit) js \<Rightarrow> ('w, 'a) js" where
  "js_finally m f = (\<lambda>w. case m w of
       (Ok x, w') \<Rightarrow> bnd f (\<lambda>_. js_ret x) w'
     | (Throw e, w') \<Rightarrow> bnd f (\<lambda>_. js_throw e) w'
     | (Stop, w') \<Rightarrow> (Stop, w'))"

text \<open>A loop over a list whose body may leave the function only by throwing.\<close>

fun js_for :: "'x list \<Rightarrow> ('x \<Rightarrow> ('w, unit) js) \<Rightarrow> ('w, unit) js" where
  "js_for [] f = js_ret ()"
| "js_for (x # xs) f = sq (f x) (js_for xs f)"

text \<open>A loop that collects the elements its body says yes to.\<close>

fun js_filter :: "('x \<Rightarrow> ('w, bool) js) \<Rightarrow> 'x list \<Rightarrow> ('w, 'x list) js" where
  "js_filter f [] = js_ret []"
| "js_filter f (x # xs) = bnd (f x) (\<lambda>b. bnd (js_filter f xs) (\<lambda>ys. js_ret (if b then x # ys else ys)))"

text \<open>\<^verbatim>\<open>xs.map(f)\<close> with a body that has effects.\<close>

fun js_map :: "('x \<Rightarrow> ('w, 'y) js) \<Rightarrow> 'x list \<Rightarrow> ('w, 'y list) js" where
  "js_map f [] = js_ret []"
| "js_map f (x # xs) = bnd (f x) (\<lambda>y. bnd (js_map f xs) (\<lambda>ys. js_ret (y # ys)))"

text \<open>Running a fallible pure computation: a JavaScript exception becomes a rejection.\<close>

definition js_lift :: "jstext + 'a \<Rightarrow> ('w, 'a) js" where
  "js_lift r = (case r of Inl e \<Rightarrow> js_throw e | Inr x \<Rightarrow> js_ret x)"

text \<open>
  The evaluation rules take the world as an argument, so that a continuation is only evaluated once
  the action before it has produced its result.
\<close>

declare js_ret_def [code del] js_throw_def [code del] js_stop_def [code del] js_get_def [code del]
  js_mod_def [code del] bnd_def [code del] sq_def [code del] js_catch_def [code del] js_finally_def [code del]
  js_lift_def [code del]

lemma run_code [code]:
  "js_ret x w = (Ok x, w)" "js_throw e w1 = (Throw e, w1)" "js_stop w2 = (Stop, w2)"
  "js_get f w3 = (Ok (f w3), w3)" "js_mod g w4 = (Ok (), g w4)"
  "js_lift r w5 = (case r of Inl e \<Rightarrow> (Throw e, w5) | Inr x \<Rightarrow> (Ok x, w5))"
  by (simp_all add: js_ret_def js_throw_def js_stop_def js_get_def js_mod_def js_lift_def split: sum.split)

lemma run_seq_code [code]:
  "bnd m k w = (case m w of
       (Ok x, w') \<Rightarrow> k x w' | (Throw e, w') \<Rightarrow> (Throw e, w') | (Stop, w') \<Rightarrow> (Stop, w'))"
  "sq n l w = (case n w of
       (Ok x, w') \<Rightarrow> l w' | (Throw e, w') \<Rightarrow> (Throw e, w') | (Stop, w') \<Rightarrow> (Stop, w'))"
  "js_catch m h w = (case m w of
       (Ok x, w') \<Rightarrow> (Ok x, w') | (Throw e, w') \<Rightarrow> h e w' | (Stop, w') \<Rightarrow> (Stop, w'))"
  "js_finally m f w = (case m w of
       (Ok x, w') \<Rightarrow> (case f w' of (Ok _, w'') \<Rightarrow> (Ok x, w'') | (Throw e, w'') \<Rightarrow> (Throw e, w'') | (Stop, w'') \<Rightarrow> (Stop, w''))
     | (Throw e, w') \<Rightarrow> (case f w' of (Ok _, w'') \<Rightarrow> (Throw e, w'') | (Throw e', w'') \<Rightarrow> (Throw e', w'') | (Stop, w'') \<Rightarrow> (Stop, w''))
     | (Stop, w') \<Rightarrow> (Stop, w'))"
  by (simp_all add: bnd_def sq_def js_catch_def js_finally_def js_ret_def js_throw_def
      split: prod.split outcome.split)

section \<open>Weakest preconditions\<close>

text \<open>
  \<open>wp m Q w\<close>: run from \<open>w\<close>, \<open>m\<close> ends in an outcome and a world that satisfy \<open>Q\<close>. Every
  combinator has an equation, so \<open>simp add: wp_simps\<close> turns a program into its proof
  obligations; a call that is not unfolded is crossed with \<open>wp_mono\<close> and a fact about it.
\<close>

definition wp :: "('w, 'a) js \<Rightarrow> ('a outcome \<Rightarrow> 'w \<Rightarrow> bool) \<Rightarrow> 'w \<Rightarrow> bool" where
  "wp m Q w = (case m w of (r, w') \<Rightarrow> Q r w')"

lemma wp_mono: "wp m Q w \<Longrightarrow> (\<And>r w'. Q r w' \<Longrightarrow> Q' r w') \<Longrightarrow> wp m Q' w"
  by (auto simp: wp_def split: prod.splits)

lemma wp_conj: "wp m P w \<Longrightarrow> wp m Q w \<Longrightarrow> wp m (\<lambda>r w'. P r w' \<and> Q r w') w"
  by (auto simp: wp_def split: prod.splits)

lemma wpD: "wp m Q w \<Longrightarrow> m w = (r, w') \<Longrightarrow> Q r w'"
  by (simp add: wp_def)

lemma wpI: "(\<And>r w'. m w = (r, w') \<Longrightarrow> Q r w') \<Longrightarrow> wp m Q w"
  by (simp add: wp_def split: prod.splits)

definition on_ok :: "('a \<Rightarrow> 'w \<Rightarrow> bool) \<Rightarrow> ('b outcome \<Rightarrow> 'w \<Rightarrow> bool) \<Rightarrow> 'a outcome \<Rightarrow> 'w \<Rightarrow> bool" where
  "on_ok K Q r w = (case r of Ok x \<Rightarrow> K x w | Throw e \<Rightarrow> Q (Throw e) w | Stop \<Rightarrow> Q Stop w)"

definition on_throw :: "(jstext \<Rightarrow> 'w \<Rightarrow> bool) \<Rightarrow> ('a outcome \<Rightarrow> 'w \<Rightarrow> bool) \<Rightarrow> 'a outcome \<Rightarrow> 'w \<Rightarrow> bool" where
  "on_throw H Q r w = (case r of Ok x \<Rightarrow> Q (Ok x) w | Throw e \<Rightarrow> H e w | Stop \<Rightarrow> Q Stop w)"

lemma on_ok_simps [simp]:
  "on_ok K Q (Ok x) w = K x w" "on_ok K Q (Throw e) w = Q (Throw e) w" "on_ok K Q Stop w = Q Stop w"
  by (simp_all add: on_ok_def)

lemma on_throw_simps [simp]:
  "on_throw H Q (Ok x) w = Q (Ok x) w" "on_throw H Q (Throw e) w = H e w"
  "on_throw H Q Stop w = Q Stop w"
  by (simp_all add: on_throw_def)

lemma wp_ret [wp_simps]: "wp (js_ret x) Q w = Q (Ok x) w"
  and wp_throw [wp_simps]: "wp (js_throw e) Q1 w = Q1 (Throw e) w"
  and wp_stop [wp_simps]: "wp js_stop Q2 w = Q2 Stop w"
  and wp_get [wp_simps]: "wp (js_get f) Q3 w = Q3 (Ok (f w)) w"
  and wp_mod [wp_simps]: "wp (js_mod g) Q4 w = Q4 (Ok ()) (g w)"
  by (simp_all add: wp_def js_ret_def js_throw_def js_stop_def js_get_def js_mod_def)

lemma wp_bnd [wp_simps]: "wp (bnd m k) Q w = wp m (on_ok (\<lambda>x. wp (k x) Q) Q) w"
  by (auto simp: wp_def bnd_def on_ok_def split: prod.splits outcome.splits)

lemma wp_sq [wp_simps]: "wp (sq m k) Q w = wp m (on_ok (\<lambda>_. wp k Q) Q) w"
  by (simp add: sq_def wp_bnd)

lemma wp_catch [wp_simps]: "wp (js_catch m h) Q w = wp m (on_throw (\<lambda>e. wp (h e) Q) Q) w"
  by (auto simp: wp_def js_catch_def on_throw_def split: prod.splits outcome.splits)

lemma wp_finally [wp_simps]:
  "wp (js_finally m f) Q w =
   wp m (\<lambda>r w'. case r of
            Ok x \<Rightarrow> wp f (on_ok (\<lambda>_. Q (Ok x)) Q) w'
          | Throw e \<Rightarrow> wp f (on_ok (\<lambda>_. Q (Throw e)) Q) w'
          | Stop \<Rightarrow> Q Stop w') w"
  by (auto simp: wp_def js_finally_def bnd_def on_ok_def js_ret_def js_throw_def
      split: prod.splits outcome.splits)

lemma wp_lift [wp_simps]:
  "wp (js_lift r) Q w = (case r of Inl e \<Rightarrow> Q (Throw e) w | Inr x \<Rightarrow> Q (Ok x) w)"
  by (cases r) (simp_all add: js_lift_def js_throw_def js_ret_def wp_def)

lemma wp_if [wp_simps]: "wp (if b then m else n) Q w = (if b then wp m Q w else wp n Q w)"
  by simp

lemma wp_Let [wp_simps]: "wp (let x = t in m x) Q w = (let x = t in wp (m x) Q w)"
  by simp

text \<open>The same rules as cuts: the first action is crossed with a fact \<open>M\<close> about it.\<close>

lemma wp_bndI:
  assumes "wp m M w" "\<And>x w'. M (Ok x) w' \<Longrightarrow> wp (k x) Q w'"
    "\<And>e w'. M (Throw e) w' \<Longrightarrow> Q (Throw e) w'" "\<And>w'. M Stop w' \<Longrightarrow> Q Stop w'"
  shows "wp (bnd m k) Q w"
  unfolding wp_bnd
  by (rule wp_mono [OF assms(1)]) (use assms(2-) in \<open>auto simp: on_ok_def split: outcome.split\<close>)

lemma wp_sqI:
  assumes "wp m M w" "\<And>w'. M (Ok ()) w' \<Longrightarrow> wp k Q w'"
    "\<And>e w'. M (Throw e) w' \<Longrightarrow> Q (Throw e) w'" "\<And>w'. M Stop w' \<Longrightarrow> Q Stop w'"
  shows "wp (sq m k) Q w"
  unfolding sq_def by (rule wp_bndI [OF assms(1)]) (use assms(2-) in auto)

lemma wp_catchI:
  assumes "wp m M w" "\<And>x w'. M (Ok x) w' \<Longrightarrow> Q (Ok x) w'"
    "\<And>e w'. M (Throw e) w' \<Longrightarrow> wp (h e) Q w'" "\<And>w'. M Stop w' \<Longrightarrow> Q Stop w'"
  shows "wp (js_catch m h) Q w"
  unfolding wp_catch
  by (rule wp_mono [OF assms(1)]) (use assms(2-) in \<open>auto simp: on_throw_def split: outcome.split\<close>)

lemma wp_finallyI:
  assumes "wp m M w" "\<And>x w'. M (Ok x) w' \<Longrightarrow> wp f (on_ok (\<lambda>_. Q (Ok x)) Q) w'"
    "\<And>e w'. M (Throw e) w' \<Longrightarrow> wp f (on_ok (\<lambda>_. Q (Throw e)) Q) w'" "\<And>w'. M Stop w' \<Longrightarrow> Q Stop w'"
  shows "wp (js_finally m f) Q w"
  unfolding wp_finally
  by (rule wp_mono [OF assms(1)]) (use assms(2-) in \<open>auto split: outcome.split\<close>)

text \<open>A loop keeps what its body keeps.\<close>

definition preserves :: "('w \<Rightarrow> bool) \<Rightarrow> ('w, 'a) js \<Rightarrow> bool" where
  "preserves I m \<longleftrightarrow> (\<forall>w. I w \<longrightarrow> I (snd (m w)))"

lemma preserves_iff: "preserves I m \<longleftrightarrow> (\<forall>w. I w \<longrightarrow> wp m (\<lambda>_. I) w)"
  by (simp add: preserves_def wp_def case_prod_beta)

lemma preservesI: "(\<And>w. I w \<Longrightarrow> wp m (\<lambda>_. I) w) \<Longrightarrow> preserves I m"
  by (simp add: preserves_iff)

lemma preservesD: "preserves I m \<Longrightarrow> I w \<Longrightarrow> wp m (\<lambda>_. I) w"
  by (simp add: preserves_iff)

lemma preserves_wp: "preserves I m \<Longrightarrow> I w \<Longrightarrow> (\<And>r w'. I w' \<Longrightarrow> Q r w') \<Longrightarrow> wp m Q w"
  by (blast intro: wp_mono preservesD)

lemma preserves_ret [intro, simp]: "preserves I (js_ret x)"
  and preserves_throw [intro, simp]: "preserves I1 (js_throw e)"
  and preserves_stop [intro, simp]: "preserves I2 js_stop"
  and preserves_get [intro, simp]: "preserves I3 (js_get f)"
  by (simp_all add: preserves_def js_ret_def js_throw_def js_stop_def js_get_def)

lemma preserves_bnd [intro]:
  "preserves I m \<Longrightarrow> (\<And>x. preserves I (k x)) \<Longrightarrow> preserves I (bnd m k)"
  by (auto simp: preserves_def bnd_def split: prod.splits outcome.splits)

lemma preserves_sq [intro]: "preserves I m \<Longrightarrow> preserves I k \<Longrightarrow> preserves I (sq m k)"
  by (simp add: sq_def preserves_bnd)

lemma preserves_catch [intro]:
  "preserves I m \<Longrightarrow> (\<And>e. preserves I (h e)) \<Longrightarrow> preserves I (js_catch m h)"
  by (auto simp: preserves_def js_catch_def split: prod.splits outcome.splits)

lemma preserves_finally [intro]:
  "preserves I m \<Longrightarrow> preserves I f \<Longrightarrow> preserves I (js_finally m f)"
proof (rule preservesI)
  fix w assume "preserves I m" "preserves I f" "I w"
  have f: "I w' \<Longrightarrow> wp f (on_ok (\<lambda>_ . I) (\<lambda>_. I)) w'" for w'
    by (rule preserves_wp [OF \<open>preserves I f\<close>]) (simp_all add: on_ok_def split: outcome.split)
  show "wp (js_finally m f) (\<lambda>_. I) w"
    unfolding wp_finally
    by (rule preserves_wp [OF \<open>preserves I m\<close> \<open>I w\<close>]) (simp add: f split: outcome.split)
qed

lemma preserves_if [intro]:
  "(b \<Longrightarrow> preserves I m) \<Longrightarrow> (\<not> b \<Longrightarrow> preserves I n) \<Longrightarrow> preserves I (if b then m else n)"
  by simp

lemma preserves_Let [intro]: "preserves I (m t) \<Longrightarrow> preserves I (let x = t in m x)"
  by simp

lemma preserves_option [intro]:
  "(o' = None \<Longrightarrow> preserves I m) \<Longrightarrow> (\<And>x. o' = Some x \<Longrightarrow> preserves I (k x)) \<Longrightarrow>
   preserves I (case o' of None \<Rightarrow> m | Some x \<Rightarrow> k x)"
  by (cases o') auto

lemma preserves_lift [intro]: "preserves I (js_lift r)"
  by (simp add: js_lift_def split: sum.splits)

lemma preserves_for [intro]:
  "(\<And>x. x \<in> set xs \<Longrightarrow> preserves I (f x)) \<Longrightarrow> preserves I (js_for xs f)"
  by (induction xs) auto

lemma preserves_map [intro]:
  "(\<And>x. x \<in> set xs \<Longrightarrow> preserves I (f x)) \<Longrightarrow> preserves I (js_map f xs)"
  by (induction xs) auto

text \<open>
  The rule for \<^verbatim>\<open>map\<close>: an invariant over the inputs and results so far. If every step keeps it, it
  holds of the whole result.
\<close>

lemma wp_js_map:
  assumes step: "\<And>done' x rest w. map fst done' @ x # rest = xs \<Longrightarrow> J done' w \<Longrightarrow>
      wp (f x) (\<lambda>r w'. \<forall>y. r = Ok y \<longrightarrow> J (done' @ [(x, y)]) w') w"
    and "J [] w"
  shows "wp (js_map f xs) (\<lambda>r w'. \<forall>ys. r = Ok ys \<longrightarrow> length ys = length xs \<and> J (zip xs ys) w') w"
proof -
  have "wp (js_map f rest) (\<lambda>r w'. \<forall>ys. r = Ok ys \<longrightarrow> length ys = length rest \<and> J (pre @ zip rest ys) w') w"
    if "map fst pre @ rest = xs" "J pre w" for pre rest w
    using that
  proof (induction rest arbitrary: pre w)
    case Nil
    then show ?case by (simp add: wp_simps)
  next
    case (Cons x rest)
    show ?case
      unfolding js_map.simps
    proof (rule wp_bndI [OF step [OF Cons.prems]])
      fix y w' assume "\<forall>y'. Ok y = Ok y' \<longrightarrow> J (pre @ [(x, y')]) w'"
      then have "J (pre @ [(x, y)]) w'" by simp
      moreover have "map fst (pre @ [(x, y)]) @ rest = xs"
        using Cons.prems(1) by simp
      ultimately have rest: "wp (js_map f rest) (\<lambda>r w''. \<forall>ys. r = Ok ys \<longrightarrow>
          length ys = length rest \<and> J ((pre @ [(x, y)]) @ zip rest ys) w'') w'"
        by (rule Cons.IH [rotated])
      show "wp (bnd (js_map f rest) (\<lambda>ys. js_ret (y # ys))) (\<lambda>r w'. \<forall>ys. r = Ok ys \<longrightarrow>
          length ys = length (x # rest) \<and> J (pre @ zip (x # rest) ys) w') w'"
        by (rule wp_bndI [OF rest]) (auto simp: wp_simps)
    qed simp_all
  qed
  from this [of "[]" xs] assms(2) show ?thesis by simp
qed

end
