(* ===== verification/Redact.thy ===== *)
theory Redact
  imports Maat_Prelude
begin

text \<open>
  \<^verbatim>\<open>redact.ts\<close>: the two regular-expression passes every alert text, reject reason and log line
  goes through before it reaches a log or a state file. The patterns are written out as matchers:
  a match is tried at each position from the left, the text after a match is scanned further, and
  the greedy quantifiers backtrack as in the source.
\<close>

section \<open>Character classes\<close>

definition is_word :: "nat \<Rightarrow> bool" where
  "is_word c = ((48 \<le> c \<and> c \<le> 57) \<or> (65 \<le> c \<and> c \<le> 90) \<or> (97 \<le> c \<and> c \<le> 122) \<or> c = 95)"

text \<open>\<^verbatim>\<open>[A-Za-z0-9_-]\<close>.\<close>

definition is_tok :: "nat \<Rightarrow> bool" where
  "is_tok c = (is_word c \<or> c = 45)"

text \<open>\<^verbatim>\<open>\s\<close>: JavaScript's white space and line terminators.\<close>

definition is_ws :: "nat \<Rightarrow> bool" where
  "is_ws c = ((9 \<le> c \<and> c \<le> 13) \<or> c = 32 \<or> c = 160 \<or> c = 0x1680 \<or> (0x2000 \<le> c \<and> c \<le> 0x200a)
     \<or> c = 0x2028 \<or> c = 0x2029 \<or> c = 0x202f \<or> c = 0x205f \<or> c = 0x3000 \<or> c = 0xfeff)"

definition is_upper :: "nat \<Rightarrow> bool" where "is_upper c = (65 \<le> c \<and> c \<le> 90)"
definition is_lower :: "nat \<Rightarrow> bool" where "is_lower c = (97 \<le> c \<and> c \<le> 122)"
definition is_digit :: "nat \<Rightarrow> bool" where "is_digit c = (48 \<le> c \<and> c \<le> 57)"

lemmas class_defs = is_word_def is_tok_def is_ws_def is_upper_def is_lower_def is_digit_def

section \<open>The URL pass\<close>

text \<open>The rest of the text after a case-insensitive literal prefix (given in lower case).\<close>

fun ci_prefix :: "nat list \<Rightarrow> jstext \<Rightarrow> jstext option" where
  "ci_prefix [] t = Some t"
| "ci_prefix (p # ps) [] = None"
| "ci_prefix (p # ps) (c # t) =
     (if c = p \<or> (is_upper c \<and> c + 32 = p) then ci_prefix ps t else None)"

definition https_lit :: "nat list" where "https_lit = [104, 116, 116, 112, 115, 58, 47, 47]"
definition http_lit :: "nat list" where "http_lit = [104, 116, 116, 112, 58, 47, 47]"

text \<open>\<^verbatim>\<open>/https?:\/\/\S+/i\<close> at the head of the text: what follows the match.\<close>

definition url_tail :: "jstext \<Rightarrow> jstext option" where
  "url_tail r = (case r of [] \<Rightarrow> None | c # _ \<Rightarrow>
     (if is_ws c then None else Some (dropWhile (\<lambda>c. \<not> is_ws c) r)))"

definition url_match :: "jstext \<Rightarrow> jstext option" where
  "url_match t = (case ci_prefix https_lit t of
       Some r \<Rightarrow> url_tail r
     | None \<Rightarrow> (case ci_prefix http_lit t of Some r \<Rightarrow> url_tail r | None \<Rightarrow> None))"

lemma ci_prefix_length: "ci_prefix ps t = Some r \<Longrightarrow> length t = length ps + length r"
  by (induction ps t rule: ci_prefix.induct) (auto split: if_splits)

lemma url_tail_length: "url_tail r = Some s \<Longrightarrow> length s < length r"
  by (auto simp: url_tail_def less_Suc_eq_le length_dropWhile_le split: list.splits if_splits)

lemma url_match_length: "url_match t = Some s \<Longrightarrow> length s < length t"
  by (auto simp: url_match_def split: option.splits dest!: ci_prefix_length url_tail_length)

function redact_urls :: "jstext \<Rightarrow> jstext" where
  "redact_urls [] = []"
| "redact_urls (c # t) = (case url_match (c # t) of
       Some r \<Rightarrow> js ''[redacted-url]'' @ redact_urls r
     | None \<Rightarrow> c # redact_urls t)"
  by pat_completeness auto
termination
  by (relation "measure length") (auto dest: url_match_length)

section \<open>The token pass\<close>

text \<open>\<^verbatim>\<open>\b\<close> between the character before (if any) and the text that follows.\<close>

definition word_opt :: "nat option \<Rightarrow> bool" where
  "word_opt p = (case p of None \<Rightarrow> False | Some c \<Rightarrow> is_word c)"

definition word_hd :: "jstext \<Rightarrow> bool" where
  "word_hd t = (case t of [] \<Rightarrow> False | c # _ \<Rightarrow> is_word c)"

definition tok_hd :: "jstext \<Rightarrow> bool" where
  "tok_hd t = (case t of [] \<Rightarrow> False | c # _ \<Rightarrow> is_tok c)"

text \<open>The lookahead \<^verbatim>\<open>[A-Z][A-Z0-9_]*\b\<close>: it can only end where the run of its class ends.\<close>

definition is_screaming :: "jstext \<Rightarrow> bool" where
  "is_screaming t = (case t of [] \<Rightarrow> False | c # _ \<Rightarrow>
     is_upper c \<and> \<not> word_hd (dropWhile (\<lambda>c. is_upper c \<or> is_digit c \<or> c = 95) t))"

text \<open>\<^verbatim>\<open>[a-z]+(?:_[a-z]+)+\<close> as a whole-string test; the flag says a letter came just before.\<close>

fun snake_from :: "bool \<Rightarrow> bool \<Rightarrow> nat list \<Rightarrow> bool" where
  "snake_from letter und [] = (letter \<and> und)"
| "snake_from letter und (c # t) =
     (if is_lower c then snake_from True und t
      else if c = 95 \<and> letter then snake_from False True t else False)"

text \<open>The lookahead \<^verbatim>\<open>[a-z]+(?:_[a-z]+)+(?![A-Za-z0-9_-])\<close>.\<close>

definition is_snake :: "jstext \<Rightarrow> bool" where
  "is_snake t = (snake_from False False (takeWhile (\<lambda>c. is_lower c \<or> c = 95) t)
     \<and> \<not> tok_hd (dropWhile (\<lambda>c. is_lower c \<or> c = 95) t))"

definition bnd_at :: "jstext \<Rightarrow> nat \<Rightarrow> bool" where
  "bnd_at t n = (is_word (t ! (n - 1)) \<noteq> word_hd (drop n t))"

text \<open>\<^verbatim>\<open>[A-Za-z0-9_-]{24,}\b\<close>: the longest run of at least 24 that ends at a boundary.\<close>

definition longest_tok :: "jstext \<Rightarrow> nat option" where
  "longest_tok t =
     (let ns = filter (bnd_at t) [24..<Suc (length (takeWhile is_tok t))]
      in if ns = [] then None else Some (last ns))"

definition tok_match :: "nat option \<Rightarrow> jstext \<Rightarrow> nat option" where
  "tok_match p t =
     (if word_opt p = word_hd t then None
      else if take 2 t = [48, 120] then None
      else if is_screaming t then None
      else if is_snake t then None
      else longest_tok t)"

lemma longest_tok_bounds:
  assumes "longest_tok t = Some n"
  shows "24 \<le> n" "n \<le> length (takeWhile is_tok t)" "bnd_at t n"
proof -
  let ?ns = "filter (bnd_at t) [24..<Suc (length (takeWhile is_tok t))]"
  from assms have "?ns \<noteq> []" "n = last ?ns"
    by (auto simp: longest_tok_def Let_def split: if_splits)
  then have "n \<in> set ?ns" using last_in_set by blast
  then show "24 \<le> n" "n \<le> length (takeWhile is_tok t)" "bnd_at t n" by auto
qed

lemma tok_match_bounds:
  assumes "tok_match p t = Some n"
  shows "24 \<le> n" "n \<le> length (takeWhile is_tok t)" "n \<le> length t"
proof -
  from assms have "longest_tok t = Some n"
    by (auto simp: tok_match_def split: if_splits)
  from longest_tok_bounds [OF this] show "24 \<le> n" "n \<le> length (takeWhile is_tok t)"
    by simp_all
  then show "n \<le> length t" using length_takeWhile_le order_trans by blast
qed

function redact_tokens :: "nat option \<Rightarrow> jstext \<Rightarrow> jstext" where
  "redact_tokens p [] = []"
| "redact_tokens p (c # t) = (case tok_match p (c # t) of
       Some n \<Rightarrow> js ''[redacted]'' @ redact_tokens (Some ((c # t) ! (n - 1))) (drop n (c # t))
     | None \<Rightarrow> c # redact_tokens (Some c) t)"
  by pat_completeness auto
termination
  by (relation "measure (\<lambda>(p, t). length t)") (auto dest!: tok_match_bounds(1))

text \<open>\<^verbatim>\<open>redact\<close>.\<close>

definition redact :: "jstext \<Rightarrow> jstext" where
  "redact t = redact_tokens None (redact_urls t)"

section \<open>No URL survives\<close>

text \<open>Some position of the text starts a URL.\<close>

fun has_url :: "jstext \<Rightarrow> bool" where
  "has_url [] = False"
| "has_url (c # t) = (url_match (c # t) \<noteq> None \<or> has_url t)"

declare redact_urls.simps [simp del] redact_tokens.simps [simp del]

definition plain_pat :: "nat list \<Rightarrow> bool" where
  "plain_pat ps \<longleftrightarrow> (\<forall>p \<in> set ps. p \<noteq> 91)"

lemma plain_lits [simp]: "plain_pat https_lit" "plain_pat http_lit"
  by (simp_all add: plain_pat_def https_lit_def http_lit_def)

text \<open>A rewriting of the text that copies characters or replaces a stretch by text starting with
  a bracket matches a pattern only where the original does.\<close>

lemma ci_prefix_redact_urls:
  "plain_pat ps \<Longrightarrow> ci_prefix ps (redact_urls t) = Some r' \<Longrightarrow>
   \<exists>r. ci_prefix ps t = Some r \<and> r' = redact_urls r"
proof (induction ps arbitrary: t)
  case Nil
  then show ?case by simp
next
  case (Cons p ps)
  then show ?case
    by (cases t) (auto simp: redact_urls.simps js_def plain_pat_def is_upper_def
        split: option.splits if_splits)
qed

lemma ci_prefix_redact_tokens:
  "plain_pat ps \<Longrightarrow> ci_prefix ps (redact_tokens q t) = Some r' \<Longrightarrow>
   \<exists>r q'. ci_prefix ps t = Some r \<and> r' = redact_tokens q' r"
proof (induction ps arbitrary: q t)
  case Nil
  then show ?case by auto
next
  case (Cons p ps)
  show ?case
  proof (cases t)
    case Nil
    with Cons.prems show ?thesis by (simp add: redact_tokens.simps)
  next
    case (Cons c u)
    with \<open>plain_pat (p # ps)\<close> \<open>ci_prefix (p # ps) (redact_tokens q t) = Some r'\<close>
    have "tok_match q (c # u) = None" and m: "c = p \<or> (is_upper c \<and> c + 32 = p)"
      and "ci_prefix ps (redact_tokens (Some c) u) = Some r'"
      by (auto simp: redact_tokens.simps js_def plain_pat_def is_upper_def
          split: option.splits if_splits)
    moreover from \<open>plain_pat (p # ps)\<close> have "plain_pat ps" by (simp add: plain_pat_def)
    ultimately show ?thesis using Cons.IH [of "Some c" u] Cons m by auto
  qed
qed

lemma tok_not_ws: "is_tok c \<Longrightarrow> \<not> is_ws c"
  by (auto simp: class_defs)

lemma tok_match_hd: "tok_match q (c # t) = Some n \<Longrightarrow> is_tok c"
  using tok_match_bounds [of q "c # t" n] by (auto split: if_splits)

lemma url_match_hd: "url_match (c # t) = Some r \<Longrightarrow> c = 104 \<or> c = 72"
  by (auto simp: url_match_def https_lit_def http_lit_def is_upper_def split: option.splits if_splits)

lemma url_tail_redact_urls: "url_tail (redact_urls r) \<noteq> None \<Longrightarrow> url_tail r \<noteq> None"
  by (cases r) (auto simp: url_tail_def redact_urls.simps is_ws_def split: option.splits if_splits
      dest!: url_match_hd)

lemma url_tail_redact_tokens: "url_tail (redact_tokens q r) \<noteq> None \<Longrightarrow> url_tail r \<noteq> None"
  by (cases r) (auto simp: url_tail_def redact_tokens.simps split: option.splits if_splits
      dest!: tok_match_hd tok_not_ws)

text \<open>A URL match is a literal followed by a character that is not white space.\<close>

lemma ci_prefix_append:
  "ci_prefix (ps @ qs) t = (case ci_prefix ps t of None \<Rightarrow> None | Some r \<Rightarrow> ci_prefix qs r)"
  by (induction ps t rule: ci_prefix.induct) (auto split: option.splits)

lemma ci_prefix_http_https: "ci_prefix https_lit t = Some r \<Longrightarrow> ci_prefix http_lit t = None"
proof -
  have lits: "https_lit = [104, 116, 116, 112] @ [115, 58, 47, 47]"
    "http_lit = [104, 116, 116, 112] @ [58, 47, 47]"
    by (simp_all add: https_lit_def http_lit_def)
  assume "ci_prefix https_lit t = Some r"
  then obtain u where u: "ci_prefix [104, 116, 116, 112] t = Some u"
    and "ci_prefix [115, 58, 47, 47] u = Some r"
    unfolding lits ci_prefix_append by (auto split: option.splits)
  then have "ci_prefix [58, 47, 47] u = None"
    by (cases u) (auto simp: is_upper_def split: if_splits)
  then show ?thesis
    unfolding lits ci_prefix_append using u by simp
qed

lemma url_match_iff:
  "url_match t \<noteq> None \<longleftrightarrow>
   (\<exists>ps r. (ps = https_lit \<or> ps = http_lit) \<and> ci_prefix ps t = Some r \<and> url_tail r \<noteq> None)"
  by (auto simp: url_match_def ci_prefix_http_https split: option.splits)

lemma url_match_redact_tokens: "url_match (redact_tokens q t) \<noteq> None \<Longrightarrow> url_match t \<noteq> None"
  unfolding url_match_iff
  by (metis ci_prefix_redact_tokens plain_lits url_tail_redact_tokens)

lemma url_match_redact_urls: "url_match (redact_urls t) \<noteq> None \<Longrightarrow> url_match t \<noteq> None"
  unfolding url_match_iff
  by (metis ci_prefix_redact_urls plain_lits url_tail_redact_urls)

lemma has_url_chunk:
  "104 \<notin> set cs \<Longrightarrow> 72 \<notin> set cs \<Longrightarrow> has_url (cs @ t) = has_url t"
  by (induction cs) (auto dest: url_match_hd)

lemma has_url_marks:
  "has_url (js ''[redacted-url]'' @ t) = has_url t" "has_url (js ''[redacted]'' @ t) = has_url t"
  by (rule has_url_chunk; simp add: js_def)+

lemma has_url_drop: "has_url (drop n t) \<Longrightarrow> has_url t"
  by (induction t arbitrary: n) (auto simp: drop_Cons split: nat.splits)

lemma redact_urls_none: "\<not> has_url (redact_urls t)"
proof (induction t rule: redact_urls.induct)
  case 1
  show ?case by (simp add: redact_urls.simps)
next
  case (2 c t)
  show ?case
  proof (cases "url_match (c # t)")
    case None
    have "url_match (redact_urls (c # t)) = None"
      using url_match_redact_urls [of "c # t"] None by blast
    with None 2 show ?thesis by (simp add: redact_urls.simps)
  next
    case (Some r)
    then show ?thesis using 2
      by (simp add: redact_urls.simps has_url_marks)
  qed
qed

lemma has_url_redact_tokens: "has_url (redact_tokens q t) \<Longrightarrow> has_url t"
proof (induction q t rule: redact_tokens.induct)
  case (1 p)
  then show ?case by (simp add: redact_tokens.simps)
next
  case (2 p c t)
  show ?case
  proof (cases "tok_match p (c # t)")
    case None
    with 2 show ?thesis
      using url_match_redact_tokens [of p "c # t"] by (auto simp: redact_tokens.simps)
  next
    case (Some n)
    with "2.prems" have "has_url (redact_tokens (Some ((c # t) ! (n - 1))) (drop n (c # t)))"
      by (simp add: redact_tokens.simps has_url_marks)
    from "2.IH"(2) [OF Some this] show ?thesis by (rule has_url_drop)
  qed
qed

section \<open>Which tokens survive\<close>

lemma takeWhile_tok_app:
  "(\<forall>c \<in> set k. is_tok c) \<Longrightarrow> \<not> tok_hd post \<Longrightarrow> takeWhile is_tok (k @ post) = k"
  by (induction k) (auto simp: tok_hd_def split: list.splits)

lemma dropWhile_tok_app:
  "(\<forall>c \<in> set k. is_tok c) \<Longrightarrow> \<not> tok_hd post \<Longrightarrow> dropWhile is_tok (k @ post) = post"
  by (induction k) (auto simp: tok_hd_def split: list.splits)

text \<open>The stretch of word characters at the head of the text, with no hyphen in it.\<close>

definition bare_token :: "jstext \<Rightarrow> jstext \<Rightarrow> bool" where
  "bare_token k post \<longleftrightarrow> k \<noteq> [] \<and> (\<forall>c \<in> set k. is_word c) \<and> \<not> tok_hd post"

lemma bare_token_longest:
  assumes "bare_token k post" "24 \<le> length k"
  shows "longest_tok (k @ post) = Some (length k)"
proof -
  let ?n = "length k"
  have tw: "takeWhile is_tok (k @ post) = k"
    using assms(1) by (intro takeWhile_tok_app) (auto simp: bare_token_def is_tok_def)
  have "is_word (k ! (?n - 1))"
    using assms by (auto simp: bare_token_def)
  moreover have "\<not> word_hd post"
    using assms(1) by (auto simp: bare_token_def tok_hd_def word_hd_def is_tok_def split: list.splits)
  moreover have "?n - 1 < ?n" using assms(2) by simp
  ultimately have "bnd_at (k @ post) ?n"
    by (simp add: bnd_at_def nth_append)
  then have "filter (bnd_at (k @ post)) [24..<Suc ?n] = filter (bnd_at (k @ post)) [24..<?n] @ [?n]"
    using assms(2) by (simp add: upt_Suc_append)
  then show ?thesis by (simp add: longest_tok_def tw)
qed

text \<open>
  A bare token of 24 or more word characters between other text is replaced, unless it starts
  with \<^verbatim>\<open>0x\<close> or has the shape of an environment variable's name or of a reason code.
\<close>

lemma redact_tokens_hit:
  assumes "bare_token k post" "24 \<le> length k" "\<not> word_opt p"
    and "take 2 k \<noteq> [48, 120]" "\<not> is_screaming (k @ post)" "\<not> is_snake (k @ post)"
  shows "redact_tokens p (k @ post) = js ''[redacted]'' @ redact_tokens (Some (last k)) post"
proof -
  from assms obtain c u where k: "k = c # u" by (cases k) auto
  have "is_word c" using assms(1) k by (simp add: bare_token_def)
  moreover have "take 2 (k @ post) = take 2 k" using assms(2) by simp
  ultimately have "tok_match p (k @ post) = Some (length k)"
    using assms bare_token_longest [OF assms(1,2)] by (simp add: tok_match_def word_hd_def k)
  then show ?thesis
    using k by (simp add: redact_tokens.simps last_conv_nth nth_append)
qed

text \<open>Inside a word there is no boundary, so nothing in it can start a match.\<close>

lemma redact_tokens_word:
  "(\<forall>c \<in> set k. is_word c) \<Longrightarrow> word_opt p \<Longrightarrow>
   redact_tokens p (k @ post) = k @ redact_tokens (Some (last (the p # k))) post"
proof (induction k arbitrary: p)
  case Nil
  then show ?case by (cases p) (auto simp: word_opt_def)
next
  case (Cons c k)
  then have "tok_match p (c # k @ post) = None"
    by (simp add: tok_match_def word_hd_def)
  moreover from Cons have "word_opt (Some c)" by (simp add: word_opt_def)
  ultimately show ?case
    using Cons by (simp add: redact_tokens.simps)
qed

lemma redact_tokens_0x:
  assumes "\<forall>c \<in> set h. is_word c"
  shows "redact_tokens p (js ''0x'' @ h @ post) =
    js ''0x'' @ h @ redact_tokens (Some (last (120 # h))) post"
proof -
  have js: "js ''0x'' = [48, 120]" by (simp add: js_def)
  have "tok_match p (48 # 120 # h @ post) = None"
    by (simp add: tok_match_def)
  moreover have "redact_tokens (Some 48) ((120 # h) @ post) =
      (120 # h) @ redact_tokens (Some (last (the (Some 48) # 120 # h))) post"
    by (rule redact_tokens_word) (use assms in \<open>auto simp: word_opt_def is_word_def\<close>)
  ultimately show ?thesis
    by (simp add: js redact_tokens.simps)
qed

end
