(* ===== verification/Js_Value.thy ===== *)
theory Js_Value
  imports Maat_Prelude Complex_Main
begin

text \<open>
  JavaScript's two kinds of numbers. A \<^verbatim>\<open>bigint\<close> is an \<^typ>\<open>int\<close>; its division truncates
  towards zero and \<^verbatim>\<open>BigInt(text)\<close> either reads a decimal, hexadecimal, octal or binary literal
  or raises a SyntaxError. A \<^verbatim>\<open>number\<close> that comes from the environment can be NaN or infinite,
  and every comparison with NaN is false, which several checks of the orchestrator meet; a
  finite one is kept as the exact rational it denotes (the rounding of binary64 is not modelled).
\<close>

section \<open>Digits\<close>

definition digit_val :: "nat \<Rightarrow> char \<Rightarrow> nat option" where
  "digit_val base c =
     (let n = (of_char c :: nat);
          d = (if 48 \<le> n \<and> n \<le> 57 then n - 48
               else if 97 \<le> n \<and> n \<le> 102 then n - 87
               else if 65 \<le> n \<and> n \<le> 70 then n - 55 else 16)
      in if d < base then Some d else None)"

fun read_digits :: "nat \<Rightarrow> nat \<Rightarrow> string \<Rightarrow> nat option" where
  "read_digits base acc [] = Some acc"
| "read_digits base acc (c # cs) =
     (case digit_val base c of None \<Rightarrow> None | Some d \<Rightarrow> read_digits base (acc * base + d) cs)"

definition parse_nat :: "nat \<Rightarrow> string \<Rightarrow> nat option" where
  "parse_nat base s = (if s = [] then None else read_digits base 0 s)"

definition digit_char :: "nat \<Rightarrow> char" where
  "digit_char d = (if d < 10 then char_of (48 + d) else char_of (87 + d))"

fun show_nat :: "nat \<Rightarrow> string" where
  "show_nat n = (if n < 10 then [digit_char n] else show_nat (n div 10) @ [digit_char (n mod 10)])"

declare show_nat.simps [simp del]

text \<open>\<^verbatim>\<open>bigint.toString()\<close>.\<close>

definition bigint_toString :: "int \<Rightarrow> string" where
  "bigint_toString i = (if i < 0 then CHR ''-'' # show_nat (nat (- i)) else show_nat (nat i))"

section \<open>Search\<close>

text \<open>\<^verbatim>\<open>hay.includes(needle)\<close>.\<close>

fun has_text :: "string \<Rightarrow> string \<Rightarrow> bool" where
  "has_text needle [] = (needle = [])"
| "has_text needle (c # s) = (take (length needle) (c # s) = needle \<or> has_text needle s)"

lemma has_text_append: "has_text t b \<Longrightarrow> has_text t (a @ b)"
  by (induction a) simp_all

lemma take_prefix: "take (length t) a = t \<Longrightarrow> take (length t) (a @ b) = t"
proof -
  assume eq: "take (length t) a = t"
  have "length t \<le> length a"
    using arg_cong [OF eq, of length] by simp
  with eq show ?thesis by simp
qed

lemma has_text_before: "has_text t a \<Longrightarrow> has_text t (a @ b)"
proof (induction a)
  case Nil
  then show ?case by (cases b) simp_all
next
  case (Cons c a)
  then show ?case
    using take_prefix [of t "c # a" b] by auto
qed

section \<open>BigInt\<close>

text \<open>The same digits computed on integers, for evaluation.\<close>

function show_pos :: "int \<Rightarrow> string" where
  "show_pos i = (if i < 10 then [digit_char (nat i)] else show_pos (i div 10) @ [digit_char (nat (i mod 10))])"
  by auto
termination by (relation "measure nat") auto

declare show_pos.simps [simp del]

lemma show_nat_pos: "show_nat n = show_pos (int n)"
proof (induction n rule: less_induct)
  case (less n)
  have split: "int n div 10 = int (n div 10)" "nat (int n mod 10) = n mod 10"
    by (simp_all add: zdiv_int nat_mod_distrib)
  show ?case
    using less [of "n div 10"]
    by (subst show_nat.simps, subst show_pos.simps) (simp add: split)
qed

declare bigint_toString_def [code del]

lemma bigint_toString_code [code]:
  "bigint_toString i = (if i < 0 then CHR ''-'' # show_pos (- i) else show_pos i)"
  by (simp add: bigint_toString_def show_nat_pos)

text \<open>White space and line terminators of the code units up to U+00FF.\<close>

definition is_space :: "char \<Rightarrow> bool" where
  "is_space c = (let n = (of_char c :: nat) in (9 \<le> n \<and> n \<le> 13) \<or> n = 32 \<or> n = 160)"

definition trim :: "string \<Rightarrow> string" where
  "trim s = rev (dropWhile is_space (rev (dropWhile is_space s)))"

definition parse_signed :: "string \<Rightarrow> int option" where
  "parse_signed s = (case s of
       [] \<Rightarrow> None
     | c # r \<Rightarrow>
         (if c = CHR ''+'' then map_option int (parse_nat 10 r)
          else if c = CHR ''-'' then map_option (\<lambda>n. - int n) (parse_nat 10 r)
          else map_option int (parse_nat 10 s)))"

text \<open>The base a literal's prefix names, with what follows the prefix.\<close>

fun radix_prefix :: "string \<Rightarrow> (nat \<times> string) option" where
  "radix_prefix (z # p # r) =
     (if z \<noteq> CHR ''0'' then None
      else if p = CHR ''x'' \<or> p = CHR ''X'' then Some (16, r)
      else if p = CHR ''o'' \<or> p = CHR ''O'' then Some (8, r)
      else if p = CHR ''b'' \<or> p = CHR ''B'' then Some (2, r) else None)"
| "radix_prefix s = None"

definition bigint_of :: "string \<Rightarrow> int option" where
  "bigint_of s =
     (let t = trim s in
      if t = [] then Some 0
      else case radix_prefix t of
             Some (b, r) \<Rightarrow> map_option int (parse_nat b r)
           | None \<Rightarrow> parse_signed t)"

definition js_BigInt :: "string \<Rightarrow> jstext + int" where
  "js_BigInt s = (case bigint_of s of
       None \<Rightarrow> Inl (js ''Cannot convert '' @ js s @ js '' to a BigInt'')
     | Some i \<Rightarrow> Inr i)"

text \<open>\<^verbatim>\<open>a / b\<close> on \<^verbatim>\<open>bigint\<close>s truncates towards zero (every divisor in the code is a non-zero literal).\<close>

definition bigdiv :: "int \<Rightarrow> int \<Rightarrow> int" where
  "bigdiv a b = sgn a * sgn b * (\<bar>a\<bar> div \<bar>b\<bar>)"

lemma bigdiv_nonneg: "0 \<le> a \<Longrightarrow> 0 < b \<Longrightarrow> bigdiv a b = a div b"
  by (cases "a = 0") (auto simp: bigdiv_def)

lemma digit_val_char [simp]: "d < 10 \<Longrightarrow> digit_val 10 (digit_char d) = Some d"
  by (auto simp: digit_val_def digit_char_def Let_def)

lemma read_digits_snoc:
  "read_digits b a (cs @ [c]) =
   (case read_digits b a cs of None \<Rightarrow> None
    | Some v \<Rightarrow> (case digit_val b c of None \<Rightarrow> None | Some d \<Rightarrow> Some (v * b + d)))"
  by (induction cs arbitrary: a) (auto split: option.splits)

lemma read_show_nat: "read_digits 10 0 (show_nat n) = Some n"
proof (induction n rule: show_nat.induct)
  case (1 n)
  then show ?case
    by (subst show_nat.simps) (auto simp: read_digits_snoc)
qed

lemma show_nat_nonempty [simp]: "show_nat n \<noteq> []"
  by (subst show_nat.simps) simp

lemma parse_show_nat [simp]: "parse_nat 10 (show_nat n) = Some n"
  by (simp add: parse_nat_def read_show_nat)

lemma show_nat_digits: "c \<in> set (show_nat n) \<Longrightarrow> \<exists>d<10. c = digit_char d"
proof (induction n rule: show_nat.induct)
  case (1 n)
  then show ?case
    by (subst (asm) (2) show_nat.simps) (auto split: if_splits intro: exI [of _ "n mod 10"])
qed

definition dec_digits :: "char set" where
  "dec_digits = set ''0123456789''"

lemma digit_char_list: "map digit_char [0..<10] = ''0123456789''"
  by code_simp

lemma show_nat_in: "set (show_nat n) \<subseteq> dec_digits"
  unfolding dec_digits_def digit_char_list [symmetric] using show_nat_digits by fastforce

lemma dec_digit_props:
  assumes "c \<in> dec_digits"
  shows "\<not> is_space c" "c \<noteq> CHR ''-''" "c \<noteq> CHR ''+''"
    "c \<noteq> CHR ''x''" "c \<noteq> CHR ''X''" "c \<noteq> CHR ''o''" "c \<noteq> CHR ''O''" "c \<noteq> CHR ''b''" "c \<noteq> CHR ''B''"
  using assms unfolding dec_digits_def by (auto simp: is_space_def)

lemma dropWhile_none: "(\<And>c. c \<in> set s \<Longrightarrow> \<not> P c) \<Longrightarrow> dropWhile P s = s"
  by (cases s) auto

lemma trim_id: "(\<And>c. c \<in> set s \<Longrightarrow> \<not> is_space c) \<Longrightarrow> trim s = s"
  unfolding trim_def by (subst dropWhile_none) (simp_all add: dropWhile_none)

lemma radix_prefix_digits:
  assumes "set s \<subseteq> insert (CHR ''-'') dec_digits"
  shows "radix_prefix s = None"
proof (cases s rule: radix_prefix.cases)
  case (1 z p r)
  with assms have "p \<in> insert (CHR ''-'') dec_digits" by simp
  moreover have "insert (CHR ''-'') dec_digits \<inter> set ''xXoObB'' = {}"
    unfolding dec_digits_def by simp
  ultimately have "p \<notin> set ''xXoObB''" by blast
  with 1 show ?thesis by simp
qed simp_all

lemma parse_signed_show [simp]: "parse_signed (show_nat n) = Some (int n)"
proof (cases "show_nat n")
  case Nil
  then show ?thesis by simp
next
  case (Cons c cs)
  have "c \<in> dec_digits"
    using show_nat_in [of n] Cons by simp
  moreover have "parse_nat 10 (c # cs) = Some n"
    using parse_show_nat [of n] Cons by simp
  ultimately show ?thesis
    by (simp add: parse_signed_def Cons dec_digit_props)
qed

lemma bigint_toString_in: "set (bigint_toString i) \<subseteq> insert (CHR ''-'') dec_digits"
  using show_nat_in by (simp add: bigint_toString_def subset_insertI2)

text \<open>A \<^verbatim>\<open>bigint\<close> survives \<^verbatim>\<open>toString\<close> and \<^verbatim>\<open>BigInt\<close>.\<close>

lemma bigint_roundtrip [simp]: "bigint_of (bigint_toString i) = Some i"
proof -
  have "\<not> is_space (CHR ''-'')"
    by (simp add: is_space_def)
  then have "trim (bigint_toString i) = bigint_toString i"
    using bigint_toString_in dec_digit_props(1) by (intro trim_id) blast
  moreover have "parse_signed (CHR ''-'' # show_nat n) = Some (- int n)" for n
    by (simp add: parse_signed_def)
  then have "parse_signed (bigint_toString i) = Some i"
    by (simp add: bigint_toString_def)
  moreover have "bigint_toString i \<noteq> []"
    by (simp add: bigint_toString_def)
  ultimately show ?thesis
    by (simp add: bigint_of_def radix_prefix_digits [OF bigint_toString_in])
qed

lemma js_BigInt_roundtrip [simp]: "js_BigInt (bigint_toString i) = Inr i"
  by (simp add: js_BigInt_def)

section \<open>Numbers\<close>

datatype jsnum = NaN | NegInf | PosInf | Num rat

abbreviation num_of_int :: "int \<Rightarrow> jsnum" where
  "num_of_int i \<equiv> Num (of_int i)"

fun js_lt :: "jsnum \<Rightarrow> jsnum \<Rightarrow> bool" where
  "js_lt NaN y = False"
| "js_lt x NaN = False"
| "js_lt (Num a) (Num b) = (a < b)"
| "js_lt NegInf y = (y \<noteq> NegInf)"
| "js_lt x PosInf = (x \<noteq> PosInf)"
| "js_lt x y = False"

text \<open>\<^verbatim>\<open>x <= y\<close>; both comparisons are false when a side is NaN.\<close>

definition js_le :: "jsnum \<Rightarrow> jsnum \<Rightarrow> bool" where
  "js_le x y = (js_lt x y \<or> (x = y \<and> x \<noteq> NaN))"

fun js_neg :: "jsnum \<Rightarrow> jsnum" where
  "js_neg NaN = NaN"
| "js_neg NegInf = PosInf"
| "js_neg PosInf = NegInf"
| "js_neg (Num a) = Num (- a)"

fun js_add :: "jsnum \<Rightarrow> jsnum \<Rightarrow> jsnum" where
  "js_add (Num a) (Num b) = Num (a + b)"
| "js_add NaN y = NaN"
| "js_add x NaN = NaN"
| "js_add PosInf NegInf = NaN"
| "js_add NegInf PosInf = NaN"
| "js_add PosInf y = PosInf"
| "js_add x PosInf = PosInf"
| "js_add NegInf y = NegInf"
| "js_add x NegInf = NegInf"

definition js_sub :: "jsnum \<Rightarrow> jsnum \<Rightarrow> jsnum" where
  "js_sub x y = js_add x (js_neg y)"

fun js_isFinite :: "jsnum \<Rightarrow> bool" where
  "js_isFinite (Num a) = True"
| "js_isFinite x = False"

text \<open>\<^verbatim>\<open>Math.round\<close>: the nearest integer, ties towards positive infinity.\<close>

fun js_round :: "jsnum \<Rightarrow> jsnum" where
  "js_round (Num a) = Num (of_int \<lfloor>a + 1 / 2\<rfloor>)"
| "js_round x = x"

text \<open>\<^verbatim>\<open>BigInt(number)\<close> raises a RangeError unless the number is an integer.\<close>

fun bigint_of_num :: "jsnum \<Rightarrow> jstext + int" where
  "bigint_of_num (Num a) =
     (if of_int \<lfloor>a\<rfloor> = a then Inr \<lfloor>a\<rfloor>
      else Inl (js ''The number cannot be converted to a BigInt because it is not an integer''))"
| "bigint_of_num x =
     Inl (js ''The number cannot be converted to a BigInt because it is not an integer'')"

lemma js_le_Num [simp]: "js_le (Num a) (Num b) \<longleftrightarrow> a \<le> b"
  by (auto simp: js_le_def)

lemma js_lt_NaN [simp]: "\<not> js_lt x NaN"
  by (cases x) simp_all

lemma js_le_NaN [simp]: "\<not> js_le NaN y" "\<not> js_le x NaN"
  by (auto simp: js_le_def)

lemma js_add_NaN [simp]: "js_add x NaN = NaN"
  by (cases x) simp_all

lemma js_sub_Num [simp]: "js_sub (Num a) (Num b) = Num (a - b)"
  by (simp add: js_sub_def)

lemma js_sub_NaN [simp]: "js_sub x NaN = NaN"
  by (simp add: js_sub_def)

section \<open>Number(text)\<close>

text \<open>
  \<^verbatim>\<open>Number\<close> of a string: a decimal literal with an optional fraction and exponent, a
  prefixed integer literal, \<^verbatim>\<open>Infinity\<close>, 0 for blank text, and NaN for anything else.
\<close>

definition split_at :: "(char \<Rightarrow> bool) \<Rightarrow> string \<Rightarrow> string \<times> string option" where
  "split_at P s = (case dropWhile (\<lambda>c. \<not> P c) s of
       [] \<Rightarrow> (s, None) | _ # r \<Rightarrow> (takeWhile (\<lambda>c. \<not> P c) s, Some r))"

definition parse_mantissa :: "string \<Rightarrow> rat option" where
  "parse_mantissa s = (case split_at (\<lambda>c. c = CHR ''.'') s of
       (ip, None) \<Rightarrow> map_option of_nat (parse_nat 10 ip)
     | (ip, Some fp) \<Rightarrow>
         (if ip = [] \<and> fp = [] then None
          else map_option (\<lambda>n. of_nat n / of_nat (10 ^ length fp)) (read_digits 10 0 (ip @ fp))))"

definition scale10 :: "rat \<Rightarrow> int \<Rightarrow> rat" where
  "scale10 m e = (if 0 \<le> e then m * of_nat (10 ^ nat e) else m / of_nat (10 ^ nat (- e)))"

definition parse_unsigned :: "string \<Rightarrow> jsnum" where
  "parse_unsigned s =
     (if s = ''Infinity'' then PosInf
      else case split_at (\<lambda>c. c = CHR ''e'' \<or> c = CHR ''E'') s of
             (m, None) \<Rightarrow> (case parse_mantissa m of None \<Rightarrow> NaN | Some v \<Rightarrow> Num v)
           | (m, Some ex) \<Rightarrow>
               (case (parse_mantissa m, parse_signed ex) of
                  (Some v, Some e) \<Rightarrow> Num (scale10 v e) | _ \<Rightarrow> NaN))"

definition js_Number :: "string \<Rightarrow> jsnum" where
  "js_Number s =
     (let t = trim s in
      if t = [] then Num 0
      else case radix_prefix t of
             Some (b, r) \<Rightarrow> (case parse_nat b r of None \<Rightarrow> NaN | Some n \<Rightarrow> Num (of_nat n))
           | None \<Rightarrow>
               (if hd t = CHR ''+'' then parse_unsigned (tl t)
                else if hd t = CHR ''-'' then js_neg (parse_unsigned (tl t))
                else parse_unsigned t))"

section \<open>Environment variables\<close>

text \<open>
  An environment variable is set to some text (possibly empty) or not set.
  \<^verbatim>\<open>env.NAME ?? fallback\<close> keeps an empty string; \<^verbatim>\<open>env.NAME || fallback\<close> replaces it.
\<close>

type_synonym env_vars = "(string \<times> string) list"

definition nullish :: "string option \<Rightarrow> string \<Rightarrow> string" where
  "nullish v d = (case v of None \<Rightarrow> d | Some s \<Rightarrow> s)"

definition falsy_or :: "string option \<Rightarrow> string \<Rightarrow> string" where
  "falsy_or v d = (case v of None \<Rightarrow> d | Some s \<Rightarrow> if s = [] then d else s)"

lemma nullish_simps [simp]: "nullish None d = d" "nullish (Some s) d = s"
  by (simp_all add: nullish_def)

lemma falsy_or_simps [simp]: "falsy_or None d = d" "falsy_or (Some s) d = (if s = [] then d else s)"
  by (simp_all add: falsy_or_def)

end
