(* ===== verification/Ledger_Types.thy ===== *)
theory Ledger_Types
  imports Js_Value Redact
begin

text \<open>
  The data the orchestrator passes around and keeps: the proof's JSON (\<^verbatim>\<open>prover_pipeline.ts\<close>),
  the on-chain intent and its status numbers (\<^verbatim>\<open>intent_status.ts\<close>, \<^verbatim>\<open>arbitrum_settlement.ts\<close>),
  the entries of the two ledgers (\<^verbatim>\<open>arbitrum_ledger.ts\<close>, \<^verbatim>\<open>prover_pipeline.ts\<close>) and the state record
  of the dashboard (\<^verbatim>\<open>intent_state.ts\<close>). An optional property is an \<^verbatim>\<open>option\<close>; a property that can
  also be \<^verbatim>\<open>null\<close> is an option of an option. Timestamps are milliseconds since the epoch, of
  which the code keeps the ISO rendering.
\<close>

section \<open>On-chain intents\<close>

definition INTENT_STATUS_PENDING :: int where "INTENT_STATUS_PENDING = 0"
definition INTENT_STATUS_SETTLED :: int where "INTENT_STATUS_SETTLED = 1"
definition INTENT_STATUS_EXPIRED :: int where "INTENT_STATUS_EXPIRED = 2"
definition INTENT_STATUS_SLASHED :: int where "INTENT_STATUS_SLASHED = 3"
definition INTENT_STATUS_REFUNDED :: int where "INTENT_STATUS_REFUNDED = 4"

lemmas status_defs = INTENT_STATUS_PENDING_def INTENT_STATUS_SETTLED_def INTENT_STATUS_EXPIRED_def
  INTENT_STATUS_SLASHED_def INTENT_STATUS_REFUNDED_def

definition ZERO_ADDRESS :: string where
  "ZERO_ADDRESS = ''0x0000000000000000000000000000000000000000''"

record on_chain_intent =
  oi_owner :: string
  oi_amount :: int
  oi_tokenAddress :: string
  oi_status :: int
  oi_solver :: string
  oi_collateralPosted :: int

section \<open>The proof\<close>

record proof_json =
  pj_tx_hash :: string
  pj_mode :: string
  pj_vkey :: string
  pj_block_hash :: string
  pj_block_number :: int
  pj_block_timestamp :: int
  pj_contract :: string
  pj_intent_id :: string
  pj_sender :: string
  pj_amount :: string
  pj_token_address :: string
  pj_destination_wallet :: string
  pj_destination_chain_id :: int
  pj_expiry :: int
  pj_slippage_bps :: int

section \<open>The Arbitrum ledger\<close>

datatype arb_stage =
    Posting_collateral | Collateral_posted | Collateral_failed | Confirming | Confirmed
  | Awaiting_expiry_slash | Slashing | Slashed

fun stage_name :: "arb_stage \<Rightarrow> string" where
  "stage_name Posting_collateral = ''posting_collateral''"
| "stage_name Collateral_posted = ''collateral_posted''"
| "stage_name Collateral_failed = ''collateral_failed''"
| "stage_name Confirming = ''confirming''"
| "stage_name Confirmed = ''confirmed''"
| "stage_name Awaiting_expiry_slash = ''awaiting_expiry_slash''"
| "stage_name Slashing = ''slashing''"
| "stage_name Slashed = ''slashed''"

record routing_fields =
  rf_selectedSolver :: "string option"
  rf_tierAtSelection :: "int option"
  rf_routingReason :: jstext
  rf_collateralWei :: "string option"

record arb_entry =
  ae_stage :: arb_stage
  ae_collateralTxHash :: "string option"
  ae_confirmTxHash :: "string option"
  ae_slashTxHash :: "string option"
  ae_expiry :: "int option"
  ae_solver :: "string option"
  ae_selectedSolver :: "string option option"
  ae_tierAtSelection :: "int option option"
  ae_routingReason :: "jstext option"
  ae_collateralWei :: "string option"
  ae_updatedAt :: int

text \<open>\<^verbatim>\<open>Partial<ArbitrumLedgerEntry>\<close>: what \<^verbatim>\<open>setArbitrumStage\<close> is given.\<close>

record arb_patch =
  ap_collateralTxHash :: "string fld"
  ap_confirmTxHash :: "string fld"
  ap_slashTxHash :: "string fld"
  ap_expiry :: "int fld"
  ap_solver :: "string fld"
  ap_selectedSolver :: "string option fld"
  ap_tierAtSelection :: "int option fld"
  ap_routingReason :: "jstext fld"
  ap_collateralWei :: "string fld"

definition no_patch :: arb_patch where
  "no_patch = \<lparr>ap_collateralTxHash = Absent, ap_confirmTxHash = Absent, ap_slashTxHash = Absent,
     ap_expiry = Absent, ap_solver = Absent, ap_selectedSolver = Absent, ap_tierAtSelection = Absent,
     ap_routingReason = Absent, ap_collateralWei = Absent\<rparr>"

section \<open>The settled-intent ledger\<close>

datatype ledger_status = L_settling | L_settled

record ledger_entry =
  le_status :: ledger_status
  le_solanaSig :: "string option"
  le_updatedAt :: int

section \<open>The per-intent state record\<close>

datatype proof_kind = Pk_queued | Pk_proving | Pk_retrying | Pk_verified | Pk_rejected | Pk_alert | Pk_skipped

record proof_status =
  ps_kind :: proof_kind
  ps_attempt :: "nat option"
  ps_maxAttempts :: "nat option"
  ps_chain :: "string option"

definition proof_kind_only :: "proof_kind \<Rightarrow> proof_status" where
  "proof_kind_only k = \<lparr>ps_kind = k, ps_attempt = None, ps_maxAttempts = None, ps_chain = None\<rparr>"

datatype settlement_kind = Sk_none | Sk_settling | Sk_settled | Sk_unconfirmed_needs_review

record settlement_status =
  ss_kind :: settlement_kind
  ss_sig :: "string option"

text \<open>The display stage is \<^verbatim>\<open>"none"\<close> (\<open>None\<close>) or one of the ledger's stages.\<close>

record arb_status =
  as_stage :: "arb_stage option"
  as_collateralTxHash :: "string option"
  as_confirmTxHash :: "string option"
  as_slashTxHash :: "string option"
  as_reason :: "jstext option"

record arb_status_patch =
  asp_stage :: "arb_stage fld"
  asp_collateralTxHash :: "string fld"
  asp_confirmTxHash :: "string fld"
  asp_slashTxHash :: "string fld"
  asp_reason :: "jstext fld"

definition stage_patch :: "arb_stage \<Rightarrow> arb_status_patch" where
  "stage_patch st = \<lparr>asp_stage = Val st, asp_collateralTxHash = Absent, asp_confirmTxHash = Absent,
     asp_slashTxHash = Absent, asp_reason = Absent\<rparr>"

record solver_routing_status =
  sr_solver :: "string option"
  sr_tier :: "int option"
  sr_reason :: jstext

datatype finality_status = F_pending | F_final

record state_timestamps =
  ts_queuedAt :: "int option"
  ts_provingStartedAt :: "int option"
  ts_verifiedAt :: "int option"
  ts_settlingAt :: "int option"
  ts_settledAt :: "int option"
  ts_finalAt :: "int option"

record intent_state =
  is_intentId :: string
  is_sourceChain :: string
  is_sourceTxHash :: string
  is_blockNumber :: "int option"
  is_blockHash :: "string option"
  is_amountWei :: string
  is_tokenAddress :: string
  is_destinationChainId :: string
  is_destinationWallet :: string
  is_vkey :: "string option"
  is_proofStatus :: proof_status
  is_rejectReason :: "jstext option"
  is_alertReason :: "jstext option"
  is_settlement :: settlement_status
  is_arbitrumSettlement :: arb_status
  is_solverRouting :: "solver_routing_status option"
  is_finality :: finality_status
  is_timestamps :: state_timestamps
  is_updatedAt :: int

record intent_created_fields =
  cf_intentId :: string
  cf_sourceChain :: string
  cf_sourceTxHash :: string
  cf_blockNumber :: "int option"
  cf_blockHash :: "string option"
  cf_amountWei :: string
  cf_tokenAddress :: string
  cf_destinationChainId :: string
  cf_destinationWallet :: string

end
