(* ===== verification/World.thy ===== *)
theory World
  imports Ledger_Types
begin

text \<open>
  The state of one orchestrator process and what lies outside it. \<open>world\<close> holds the process's
  memory (both ledgers, the reservations, the alert deduplication set, the local flag of each settlement that was dispatched), the files it writes (the
  ledgers as last written, the state records, the alert log) and a trace of its effects in order.
  \<open>os\<close> holds the operations of code that is not in the repository (viem, web3.js, the file
  system, the clock, the child processes) as functions of an opaque environment of type
  \<open>'e\<close>, about which nothing is assumed unless a theorem says so.
\<close>

section \<open>Calls to the outside\<close>

datatype tx_fn = PostCollateral | ConfirmSettlement | SlashSolver

record tx_req =
  tr_fn :: tx_fn
  tr_account :: string
  tr_intentId :: string
  tr_proofHash :: "string option"
  tr_value :: int
  tr_to :: string

record tx_outcome =
  to_ok :: bool
  to_txHash :: "string option"
  to_error :: "jstext option"

record payout_result =
  pr_ok :: bool
  pr_sig :: "string option"
  pr_error :: "jstext option"

text \<open>The value of Solana's \<^verbatim>\<open>getSignatureStatus\<close>.\<close>

record sig_value =
  sv_err :: bool
  sv_confirmationStatus :: "string option"

datatype disk_file = Arb_ledger_file | Settled_ledger_file | State_file string | Alert_log | Stats_cache_file

text \<open>
  How a write ends: complete; refused before the file is touched; failed after the file was opened
  for writing, which truncates it (\<^verbatim>\<open>writeFileSync\<close> is not atomic); or cut off by the end of the
  process, with the same effect on the file.
\<close>

datatype write_result = Wr_ok | Wr_refused jstext | Wr_torn jstext | Wr_killed

text \<open>What a child process does next, as its listeners see it.\<close>

datatype child_event = C_stdout string | C_stderr string | C_close "int option" | C_error jstext

record settle_env =
  se_destinationWallet :: string
  se_destinationChainId :: string
  se_proofAmountWei :: string
  se_intentId :: string
  se_proofHashHex :: string

text \<open>What \<^verbatim>\<open>ZK_DIR\<close> holds for an intent: the parsed JSON (\<open>None\<close>: unreadable) when both files exist.\<close>

datatype proof_files = Pf_missing | Pf_unparsable | Pf_json proof_json

text \<open>An entry of the committed exclusions file, and of the cache of terminal intents (\<^verbatim>\<open>solver_stats.ts\<close>).\<close>

record exclusion =
  ex_intentId :: string
  ex_solver :: string

record cached_intent =
  ci_status :: int
  ci_solver :: string

record 'e os =
  os_now :: "'e \<Rightarrow> int"
  os_write :: "disk_file \<Rightarrow> 'e \<Rightarrow> write_result \<times> 'e"
  os_readdir :: "string list \<Rightarrow> 'e \<Rightarrow> string list outcome \<times> 'e"
  os_sleep :: "jsnum \<Rightarrow> 'e \<Rightarrow> unit outcome \<times> 'e"
  os_balance :: "string \<Rightarrow> 'e \<Rightarrow> int outcome \<times> 'e"
  os_intents :: "string \<Rightarrow> 'e \<Rightarrow> on_chain_intent outcome \<times> 'e"
  os_approved :: "string \<Rightarrow> 'e \<Rightarrow> bool outcome \<times> 'e"
  os_prepare :: "tx_req \<Rightarrow> 'e \<Rightarrow> unit outcome \<times> 'e"
  os_sign :: "tx_req \<Rightarrow> 'e \<Rightarrow> string outcome \<times> 'e"
  os_keccak :: "string \<Rightarrow> string"
  os_sendRaw :: "string \<Rightarrow> 'e \<Rightarrow> unit outcome \<times> 'e"
  os_waitReceipt :: "string \<Rightarrow> 'e \<Rightarrow> bool outcome \<times> 'e"
  os_getReceipt :: "string \<Rightarrow> 'e \<Rightarrow> bool outcome \<times> 'e"
  os_sigStatus :: "string \<Rightarrow> 'e \<Rightarrow> sig_value option outcome \<times> 'e"
  os_proofFiles :: "string \<Rightarrow> 'e \<Rightarrow> proof_files"
  os_proofBin :: "string \<Rightarrow> 'e \<Rightarrow> jstext + string"
  os_sha256 :: "string \<Rightarrow> string"
  os_runProver :: "string \<Rightarrow> 'e \<Rightarrow> (int \<times> string) outcome \<times> 'e"
  os_spawnSettle :: "settle_env \<Rightarrow> 'e \<Rightarrow> 'e"
  os_childEvent :: "'e \<Rightarrow> child_event outcome \<times> 'e"
  os_childStdin :: "string \<Rightarrow> 'e \<Rightarrow> 'e"
  os_blockHash :: "int \<Rightarrow> 'e \<Rightarrow> string outcome \<times> 'e"
  os_blockNumber :: "'e \<Rightarrow> int outcome \<times> 'e"
  os_finalizedBlock :: "'e \<Rightarrow> int option outcome \<times> 'e"
  os_exclusions :: "'e \<Rightarrow> exclusion list option"
  os_onboarding :: "'e \<Rightarrow> (string option \<times> int option) list option"

section \<open>The process\<close>

text \<open>A capital reservation: the amount, and when it lapses (\<open>None\<close>: collateral unresolved).\<close>

record reservation =
  rv_wei :: int
  rv_releaseAtMs :: "jsnum option"

type_synonym book = "(string, (string, reservation) jmap) jmap"

text \<open>
  The observable effects, oldest first: a ledger file written with an entry, a signed transaction
  handed to the RPC node, the settlement script spawned, told to broadcast, the prover started and
  its exit code.
\<close>

datatype event =
    Ev_arb string arb_entry
  | Ev_settled string ledger_entry
  | Ev_send tx_req string
  | Ev_spawn string string
  | Ev_go string string
  | Ev_prover string
  | Ev_exit string int

record 'e world =
  w_arb :: "(string, arb_entry) jmap"
  w_arb_disk :: "(string, arb_entry) jmap"
  w_settled :: "(string, ledger_entry) jmap"
  w_settled_disk :: "(string, ledger_entry) jmap"
  w_states :: "(string, intent_state) jmap"
  w_alerts :: "(int \<times> jstext) list"
  w_alerted :: "string list"
  w_book :: book
  w_cache :: "(string, cached_intent) jmap"
  w_flags :: "bool list"
  w_events :: "event list"
  w_env :: 'e

section \<open>Primitive effects\<close>

definition ext :: "('e \<Rightarrow> 'a outcome \<times> 'e) \<Rightarrow> ('e world, 'a) js" where
  "ext f w = (case f (w_env w) of (r, e) \<Rightarrow> (r, w\<lparr>w_env := e\<rparr>))"

definition ext_do :: "('e \<Rightarrow> 'e) \<Rightarrow> ('e world, unit) js" where
  "ext_do f = js_mod (\<lambda>w. w\<lparr>w_env := f (w_env w)\<rparr>)"

definition now_ms :: "'e os \<Rightarrow> ('e world, int) js" where
  "now_ms S = js_get (\<lambda>w. os_now S (w_env w))"

text \<open>\<^verbatim>\<open>Math.floor(Date.now() / 1000)\<close>.\<close>

definition now_sec :: "'e os \<Rightarrow> ('e world, int) js" where
  "now_sec S = js_get (\<lambda>w. os_now S (w_env w) div 1000)"

definition try_write :: "'e os \<Rightarrow> disk_file \<Rightarrow> ('e world, write_result) js" where
  "try_write S f = ext (\<lambda>e. case os_write S f e of (b, e') \<Rightarrow> (Ok b, e'))"

text \<open>\<^verbatim>\<open>JSON.stringify\<close> and the write of a whole ledger file, whose failure is an exception.\<close>

definition save_file :: "'e os \<Rightarrow> disk_file \<Rightarrow> ('e world \<Rightarrow> 'e world) \<Rightarrow> ('e world \<Rightarrow> 'e world) \<Rightarrow> ('e world, unit) js" where
  "save_file S f written lost =
     bnd (try_write S f) (\<lambda>r. case r of
         Wr_ok \<Rightarrow> js_mod written
       | Wr_refused e \<Rightarrow> js_throw e
       | Wr_torn e \<Rightarrow> sq (js_mod lost) (js_throw e)
       | Wr_killed \<Rightarrow> sq (js_mod lost) js_stop)"

definition emit :: "event \<Rightarrow> ('e world, unit) js" where
  "emit v = js_mod (\<lambda>w. w\<lparr>w_events := w_events w @ [v]\<rparr>)"

definition sleep :: "'e os \<Rightarrow> jsnum \<Rightarrow> ('e world, unit) js" where
  "sleep S ms = ext (os_sleep S ms)"

text \<open>
  \<^verbatim>\<open>alert\<close> of \<^verbatim>\<open>prover_pipeline.ts\<close>: the message is redacted before the line is formatted, and a
  log that cannot be written is only reported on the console.
\<close>

definition alert :: "'e os \<Rightarrow> jstext \<Rightarrow> ('e world, unit) js" where
  "alert S message =
     bnd (now_ms S) (\<lambda>t.
     bnd (try_write S Alert_log) (\<lambda>r. case r of
         Wr_ok \<Rightarrow> js_mod (\<lambda>w. w\<lparr>w_alerts := w_alerts w @ [(t, redact message)]\<rparr>)
       | Wr_killed \<Rightarrow> js_stop
       | _ \<Rightarrow> js_ret ()))"

text \<open>Evaluation rules that wait for the world.\<close>

declare ext_do_def [code del] now_ms_def [code del] now_sec_def [code del] try_write_def [code del]
  save_file_def [code del] emit_def [code del] sleep_def [code del] alert_def [code del]

lemma run_prim_code [code]:
  "ext_do f w = (Ok (), w\<lparr>w_env := f (w_env w)\<rparr>)"
  "now_ms S w1 = (Ok (os_now S (w_env w1)), w1)"
  "now_sec S w2 = (Ok (os_now S (w_env w2) div 1000), w2)"
  "emit v w3 = (Ok (), w3\<lparr>w_events := w_events w3 @ [v]\<rparr>)"
  "sleep S ms w4 = ext (os_sleep S ms) w4"
  by (simp_all add: ext_do_def now_ms_def now_sec_def emit_def sleep_def js_get_def js_mod_def)

lemma run_write_code [code]:
  "try_write S f w = (case os_write S f (w_env w) of (b, e) \<Rightarrow> (Ok b, w\<lparr>w_env := e\<rparr>))"
  "save_file S f written lost w = (case os_write S f (w_env w) of (b, e) \<Rightarrow> (case b of
       Wr_ok \<Rightarrow> (Ok (), written (w\<lparr>w_env := e\<rparr>))
     | Wr_refused m \<Rightarrow> (Throw m, w\<lparr>w_env := e\<rparr>)
     | Wr_torn m \<Rightarrow> (Throw m, lost (w\<lparr>w_env := e\<rparr>))
     | Wr_killed \<Rightarrow> (Stop, lost (w\<lparr>w_env := e\<rparr>))))"
  "alert S message w = (case os_write S Alert_log (w_env w) of (b, e) \<Rightarrow> (case b of
       Wr_ok \<Rightarrow> (Ok (), w\<lparr>w_alerts := w_alerts w @ [(os_now S (w_env w), redact message)], w_env := e\<rparr>)
     | Wr_killed \<Rightarrow> (Stop, w\<lparr>w_env := e\<rparr>)
     | _ \<Rightarrow> (Ok (), w\<lparr>w_env := e\<rparr>)))"
  by (simp_all add: try_write_def save_file_def alert_def ext_def bnd_def sq_def js_mod_def js_ret_def
      js_throw_def js_stop_def now_ms_def js_get_def split: prod.split write_result.split)

section \<open>Rules\<close>

lemma wp_ext [wp_simps]: "wp (ext f) Q w = (case f (w_env w) of (r, e) \<Rightarrow> Q r (w\<lparr>w_env := e\<rparr>))"
  by (simp add: wp_def ext_def split: prod.splits)

lemma wp_ext_do [wp_simps]: "wp (ext_do f) Q w = Q (Ok ()) (w\<lparr>w_env := f (w_env w)\<rparr>)"
  by (simp add: ext_do_def wp_simps)

lemma wp_now [wp_simps]:
  "wp (now_ms S) Q w = Q (Ok (os_now S (w_env w))) w"
  "wp (now_sec S) Q w = Q (Ok (os_now S (w_env w) div 1000)) w"
  by (simp_all add: now_ms_def now_sec_def wp_simps)

lemma wp_try_write [wp_simps]:
  "wp (try_write S f) Q w = (case os_write S f (w_env w) of (b, e) \<Rightarrow> Q (Ok b) (w\<lparr>w_env := e\<rparr>))"
  by (simp add: try_write_def wp_simps split: prod.splits)

lemma wp_save_file [wp_simps]:
  "wp (save_file S f written lost) Q w =
   (case os_write S f (w_env w) of (b, e) \<Rightarrow>
      (case b of
         Wr_ok \<Rightarrow> Q (Ok ()) (written (w\<lparr>w_env := e\<rparr>))
       | Wr_refused m \<Rightarrow> Q (Throw m) (w\<lparr>w_env := e\<rparr>)
       | Wr_torn m \<Rightarrow> Q (Throw m) (lost (w\<lparr>w_env := e\<rparr>))
       | Wr_killed \<Rightarrow> Q Stop (lost (w\<lparr>w_env := e\<rparr>))))"
  by (simp add: save_file_def wp_simps split: prod.split write_result.split)

lemma wp_emit [wp_simps]: "wp (emit v) Q w = Q (Ok ()) (w\<lparr>w_events := w_events w @ [v]\<rparr>)"
  by (simp add: emit_def wp_simps)

text \<open>
  The part of the world that decides what the process may do next: memory, ledger files and
  trace, without the environment, the display records and the alert log.
\<close>

record core =
  c_arb :: "(string, arb_entry) jmap"
  c_arb_disk :: "(string, arb_entry) jmap"
  c_settled :: "(string, ledger_entry) jmap"
  c_settled_disk :: "(string, ledger_entry) jmap"
  c_book :: book
  c_flags :: "bool list"
  c_events :: "event list"

definition core :: "'e world \<Rightarrow> core" where
  "core w = \<lparr>c_arb = w_arb w, c_arb_disk = w_arb_disk w, c_settled = w_settled w,
     c_settled_disk = w_settled_disk w, c_book = w_book w, c_flags = w_flags w, c_events = w_events w\<rparr>"

lemma core_eq: "core w = core w' \<longleftrightarrow>
  w_arb w = w_arb w' \<and> w_arb_disk w = w_arb_disk w' \<and> w_settled w = w_settled w' \<and>
  w_settled_disk w = w_settled_disk w' \<and> w_book w = w_book w' \<and>
  w_flags w = w_flags w' \<and> w_events w = w_events w'"
  by (simp add: core_def)

lemma core_env [simp]: "core (w\<lparr>w_env := e\<rparr>) = core w"
  and core_alerts [simp]: "core (w\<lparr>w_alerts := a\<rparr>) = core w"
  and core_states [simp]: "core (w\<lparr>w_states := s\<rparr>) = core w"
  and core_alerted [simp]: "core (w\<lparr>w_alerted := l\<rparr>) = core w"
  and core_cache [simp]: "core (w\<lparr>w_cache := c\<rparr>) = core w"
  by (simp_all add: core_def)

text \<open>An action that touches only what is outside the core.\<close>

definition display_only :: "('e world, 'a) js \<Rightarrow> bool" where
  "display_only m \<longleftrightarrow> (\<forall>c. preserves (\<lambda>w. core w = c) m)"

lemma display_onlyI: "(\<And>w. wp m (\<lambda>_ w'. core w' = core w) w) \<Longrightarrow> display_only m"
  by (auto simp: display_only_def intro!: preservesI elim: wp_mono)

lemma display_onlyD: "display_only m \<Longrightarrow> wp m (\<lambda>_ w'. core w' = core w) w"
  by (simp add: display_only_def preserves_iff)

lemma display_only_wp:
  "display_only m \<Longrightarrow> (\<And>r w'. core w' = core w \<Longrightarrow> Q r w') \<Longrightarrow> wp m Q w"
  by (blast intro: wp_mono display_onlyD)

text \<open>Crossing such an action.\<close>

lemma wp_sq_display:
  assumes "display_only m" "\<And>w'. core w' = core w \<Longrightarrow> wp k Q w'"
    "\<And>e w'. core w' = core w \<Longrightarrow> Q (Throw e) w'" "\<And>w'. core w' = core w \<Longrightarrow> Q Stop w'"
  shows "wp (sq m k) Q w"
  by (rule wp_sqI [OF display_onlyD]) (use assms in auto)

lemma wp_bnd_display:
  assumes "display_only m" "\<And>x w'. core w' = core w \<Longrightarrow> wp (k x) Q w'"
    "\<And>e w'. core w' = core w \<Longrightarrow> Q (Throw e) w'" "\<And>w'. core w' = core w \<Longrightarrow> Q Stop w'"
  shows "wp (bnd m k) Q w"
  by (rule wp_bndI [OF display_onlyD]) (use assms in auto)

lemma display_only_preserves:
  "display_only m \<Longrightarrow> (\<And>w w'. core w = core w' \<Longrightarrow> I w = I w') \<Longrightarrow> preserves I m"
  by (rule preservesI, erule display_only_wp) metis

lemma display_only_bnd [intro]:
  "display_only m \<Longrightarrow> (\<And>x. display_only (k x)) \<Longrightarrow> display_only (bnd m k)"
  unfolding display_only_def by blast

lemma display_only_sq [intro]: "display_only m \<Longrightarrow> display_only n \<Longrightarrow> display_only (sq m n)"
  unfolding display_only_def by blast

lemma display_only_catch [intro]:
  "display_only m \<Longrightarrow> (\<And>e. display_only (h e)) \<Longrightarrow> display_only (js_catch m h)"
  unfolding display_only_def by blast

lemma display_only_map [intro]: "(\<And>x. display_only (f x)) \<Longrightarrow> display_only (js_map f xs)"
  unfolding display_only_def by blast

lemma display_only_if [intro]:
  "(b \<Longrightarrow> display_only m) \<Longrightarrow> (\<not> b \<Longrightarrow> display_only n) \<Longrightarrow> display_only (if b then m else n)"
  by simp

lemma display_only_prim [intro, simp]:
  "display_only (js_ret x)" "display_only (js_throw e)" "display_only js_stop"
  "display_only (js_get g)" "display_only (now_ms S)" "display_only (now_sec S)"
  by (simp_all add: display_only_def now_ms_def now_sec_def)

lemma display_only_ext [intro, simp]:
  "display_only (ext f)" "display_only (ext_do g)" "display_only (try_write S file)"
  "display_only (sleep S ms)"
  by (auto intro!: display_onlyI simp: wp_simps sleep_def split: prod.splits)

lemma display_only_alert [intro, simp]: "display_only (alert S m)"
  unfolding alert_def
  by (auto intro!: display_only_bnd display_onlyI simp: wp_simps split: write_result.split)

end
