(* ===== verification/Scripted.thy ===== *)
theory Scripted
  imports World
begin

text \<open>
  A concrete outside world for the witnesses: every call takes its next answer from a script, and
  a default once the script has run out; sleeping advances the clock. Nothing else depends on it.
\<close>

record script =
  sc_now :: int
  sc_writes :: "write_result list"
  sc_balances :: "int outcome list"
  sc_intents :: "on_chain_intent outcome list"
  sc_sends :: "unit outcome list"
  sc_waits :: "bool outcome list"
  sc_receipts :: "bool outcome list"
  sc_sigs :: "sig_value option outcome list"
  sc_files :: proof_files
  sc_bin :: "jstext + string"
  sc_provers :: "(int \<times> string) outcome list"
  sc_children :: "child_event outcome list"
  sc_finalized :: "int option outcome list"
  sc_exclusions :: "exclusion list option"
  sc_onboarding :: "(string option \<times> int option) list"

text \<open>The texts of alerts and reasons stay as they are written when a witness is evaluated.\<close>

declare js_def [code del] redact_def [code del]

definition next_or :: "'a \<Rightarrow> 'a list \<Rightarrow> 'a" where
  "next_or d xs = (case xs of [] \<Rightarrow> d | x # _ \<Rightarrow> x)"

definition sleep_ms :: "jsnum \<Rightarrow> int" where
  "sleep_ms n = (case n of Num q \<Rightarrow> max 1 \<lfloor>q\<rfloor> | _ \<Rightarrow> 1)"

definition no_intent :: on_chain_intent where
  "no_intent = \<lparr>oi_owner = ZERO_ADDRESS, oi_amount = 0, oi_tokenAddress = ZERO_ADDRESS, oi_status = 0,
     oi_solver = ZERO_ADDRESS, oi_collateralPosted = 0\<rparr>"

definition script_os :: "script os" where
  "script_os =
     \<lparr>os_now = sc_now,
      os_write = (\<lambda>_ e. (next_or Wr_ok (sc_writes e), e\<lparr>sc_writes := tl (sc_writes e)\<rparr>)),
      os_readdir = (\<lambda>names e. (Ok names, e)),
      os_sleep = (\<lambda>ms e. (Ok (), e\<lparr>sc_now := sc_now e + sleep_ms ms\<rparr>)),
      os_balance = (\<lambda>_ e. (next_or (Ok 0) (sc_balances e), e\<lparr>sc_balances := tl (sc_balances e)\<rparr>)),
      os_intents = (\<lambda>_ e. (next_or (Ok no_intent) (sc_intents e), e\<lparr>sc_intents := tl (sc_intents e)\<rparr>)),
      os_approved = (\<lambda>_ e. (Ok True, e)),
      os_prepare = (\<lambda>_ e. (Ok (), e)),
      os_sign = (\<lambda>r e. (Ok (''signed by '' @ tr_account r), e)),
      os_keccak = (\<lambda>s. ''0xh'' @ s),
      os_sendRaw = (\<lambda>_ e. (next_or (Ok ()) (sc_sends e), e\<lparr>sc_sends := tl (sc_sends e)\<rparr>)),
      os_waitReceipt = (\<lambda>_ e. (next_or (Ok True) (sc_waits e), e\<lparr>sc_waits := tl (sc_waits e)\<rparr>)),
      os_getReceipt = (\<lambda>_ e. (next_or (Ok True) (sc_receipts e), e\<lparr>sc_receipts := tl (sc_receipts e)\<rparr>)),
      os_sigStatus = (\<lambda>_ e. (next_or (Ok None) (sc_sigs e), e\<lparr>sc_sigs := tl (sc_sigs e)\<rparr>)),
      os_proofFiles = (\<lambda>_ e. sc_files e),
      os_proofBin = (\<lambda>_ e. sc_bin e),
      os_sha256 = (\<lambda>s. s),
      os_runProver = (\<lambda>_ e. (next_or (Ok (1, [])) (sc_provers e), e\<lparr>sc_provers := tl (sc_provers e)\<rparr>)),
      os_spawnSettle = (\<lambda>_ e. e),
      os_childEvent = (\<lambda>e. (next_or (Ok (C_close (Some 1))) (sc_children e),
         e\<lparr>sc_children := tl (sc_children e)\<rparr>)),
      os_childStdin = (\<lambda>_ e. e),
      os_blockHash = (\<lambda>_ e. (Ok ''0xblock'', e)),
      os_blockNumber = (\<lambda>e. (Ok 1, e)),
      os_finalizedBlock = (\<lambda>e. (next_or (Ok None) (sc_finalized e), e\<lparr>sc_finalized := tl (sc_finalized e)\<rparr>)),
      os_exclusions = sc_exclusions,
      os_onboarding = (\<lambda>e. Some (sc_onboarding e))\<rparr>"

definition blank_script :: script where
  "blank_script = \<lparr>sc_now = 1000000, sc_writes = [], sc_balances = [], sc_intents = [], sc_sends = [],
     sc_waits = [], sc_receipts = [], sc_sigs = [], sc_files = Pf_missing, sc_bin = Inl (js ''ENOENT''),
     sc_provers = [], sc_children = [], sc_finalized = [], sc_exclusions = Some [], sc_onboarding = []\<rparr>"

definition fresh_world :: "'e \<Rightarrow> 'e world" where
  "fresh_world e = \<lparr>w_arb = [], w_arb_disk = [], w_settled = [], w_settled_disk = [], w_states = [],
     w_alerts = [], w_alerted = [], w_book = [], w_cache = [], w_flags = [], w_events = [], w_env = e\<rparr>"

end
