(* ===== verification/Arb_Ledger.thy ===== *)
theory Arb_Ledger
  imports World Scripted
begin

text \<open>
  \<^verbatim>\<open>arbitrum_ledger.ts\<close>: the ledger of the Arbitrum side, a map from the intent's key to the stage
  it has reached. The authority is the map in memory (\<open>w_arb\<close>); after every change the whole map is
  written to its file (\<open>w_arb_disk\<close>: what the next start would load). A failed write is an
  exception, and since the file is opened for writing first, it can lose the old contents.
\<close>

section \<open>Loading and saving\<close>

definition arb_ledger_path :: "env_vars \<Rightarrow> string \<Rightarrow> string" where
  "arb_ledger_path env dflt = nullish (map_of env ''ARBITRUM_LEDGER_PATH'') dflt"

definition arb_load :: "'e world \<Rightarrow> 'e world" where
  "arb_load w = w\<lparr>w_arb := w_arb_disk w\<rparr>"

definition arb_persist :: "'e os \<Rightarrow> ('e world, unit) js" where
  "arb_persist S = save_file S Arb_ledger_file
     (\<lambda>w. w\<lparr>w_arb_disk := w_arb w\<rparr>) (\<lambda>w. w\<lparr>w_arb_disk := []\<rparr>)"

section \<open>Stage changes\<close>

text \<open>The fields of an entry, all absent when there is no entry.\<close>

definition arb_get :: "'e world \<Rightarrow> string \<Rightarrow> arb_entry option" where
  "arb_get w intentId = jget (w_arb w) (keyOf intentId)"

definition getArbitrumLedgerEntry :: "string \<Rightarrow> ('e world, arb_entry option) js" where
  "getArbitrumLedgerEntry intentId = js_get (\<lambda>w. arb_get w intentId)"

text \<open>\<^verbatim>\<open>{ ...prev, ...patch, stage, updatedAt }\<close>.\<close>

definition merge_entry :: "arb_entry option \<Rightarrow> arb_stage \<Rightarrow> arb_patch \<Rightarrow> int \<Rightarrow> arb_entry" where
  "merge_entry prev stage patch now =
     \<lparr>ae_stage = stage,
      ae_collateralTxHash = spread (Option.bind prev ae_collateralTxHash) (ap_collateralTxHash patch),
      ae_confirmTxHash = spread (Option.bind prev ae_confirmTxHash) (ap_confirmTxHash patch),
      ae_slashTxHash = spread (Option.bind prev ae_slashTxHash) (ap_slashTxHash patch),
      ae_expiry = spread (Option.bind prev ae_expiry) (ap_expiry patch),
      ae_solver = spread (Option.bind prev ae_solver) (ap_solver patch),
      ae_selectedSolver = spread (Option.bind prev ae_selectedSolver) (ap_selectedSolver patch),
      ae_tierAtSelection = spread (Option.bind prev ae_tierAtSelection) (ap_tierAtSelection patch),
      ae_routingReason = spread (Option.bind prev ae_routingReason) (ap_routingReason patch),
      ae_collateralWei = spread (Option.bind prev ae_collateralWei) (ap_collateralWei patch),
      ae_updatedAt = now\<rparr>"

definition setArbitrumStage :: "'e os \<Rightarrow> string \<Rightarrow> arb_stage \<Rightarrow> arb_patch \<Rightarrow> ('e world, unit) js" where
  "setArbitrumStage S intentId stage patch =
     bnd (now_ms S) (\<lambda>now.
     bnd (getArbitrumLedgerEntry intentId) (\<lambda>prev.
       let key = keyOf intentId; entry = merge_entry prev stage patch now
       in sq (js_mod (\<lambda>w. w\<lparr>w_arb := jput key entry (w_arb w)\<rparr>))
         (sq (arb_persist S)
             (emit (Ev_arb key entry)))))"

section \<open>Enumeration\<close>

definition arb_entries_at :: "arb_stage set \<Rightarrow> 'e world \<Rightarrow> (string \<times> arb_entry) list" where
  "arb_entries_at stages w = filter (\<lambda>(intentId, entry). ae_stage entry \<in> stages) (w_arb w)"

definition getMidSequenceEntries :: "('e world, (string \<times> arb_entry) list) js" where
  "getMidSequenceEntries = js_get (arb_entries_at {Posting_collateral, Confirming, Slashing})"

definition getPostingCollateralEntries :: "('e world, (string \<times> arb_entry) list) js" where
  "getPostingCollateralEntries = js_get (arb_entries_at {Posting_collateral})"

definition getAwaitingExpirySlashEntries :: "('e world, (string \<times> arb_entry) list) js" where
  "getAwaitingExpirySlashEntries = js_get (arb_entries_at {Awaiting_expiry_slash})"

definition getCollateralPostedEntries :: "('e world, (string \<times> arb_entry) list) js" where
  "getCollateralPostedEntries = js_get (arb_entries_at {Collateral_posted})"

section \<open>Rules\<close>

text \<open>The world after a stage change reached the disk.\<close>

definition arb_stored :: "'e os \<Rightarrow> string \<Rightarrow> arb_stage \<Rightarrow> arb_patch \<Rightarrow> 'e world \<Rightarrow> 'e world \<Rightarrow> bool" where
  "arb_stored S intentId stage patch w w' \<longleftrightarrow>
     (let entry = merge_entry (arb_get w intentId) stage patch (os_now S (w_env w));
          m = jput (keyOf intentId) entry (w_arb w)
      in \<exists>e. w' = w\<lparr>w_arb := m, w_arb_disk := m, w_env := e,
                    w_events := w_events w @ [Ev_arb (keyOf intentId) entry]\<rparr>)"

text \<open>The world after a stage change that did not: the memory has it, the disk has the old or nothing.\<close>

definition arb_unstored :: "'e os \<Rightarrow> string \<Rightarrow> arb_stage \<Rightarrow> arb_patch \<Rightarrow> 'e world \<Rightarrow> 'e world \<Rightarrow> bool" where
  "arb_unstored S intentId stage patch w w' \<longleftrightarrow>
     (let entry = merge_entry (arb_get w intentId) stage patch (os_now S (w_env w));
          m = jput (keyOf intentId) entry (w_arb w)
      in \<exists>e d. (d = w_arb_disk w \<or> d = []) \<and> w' = w\<lparr>w_arb := m, w_arb_disk := d, w_env := e\<rparr>)"

lemma wp_getArb [wp_simps]: "wp (getArbitrumLedgerEntry i) Q w = Q (Ok (arb_get w i)) w"
  by (simp add: getArbitrumLedgerEntry_def wp_simps)

lemma wp_arb_lists [wp_simps]:
  "wp getMidSequenceEntries Q w = Q (Ok (arb_entries_at {Posting_collateral, Confirming, Slashing} w)) w"
  "wp getPostingCollateralEntries Q w = Q (Ok (arb_entries_at {Posting_collateral} w)) w"
  "wp getAwaitingExpirySlashEntries Q w = Q (Ok (arb_entries_at {Awaiting_expiry_slash} w)) w"
  "wp getCollateralPostedEntries Q w = Q (Ok (arb_entries_at {Collateral_posted} w)) w"
  by (simp_all add: getMidSequenceEntries_def getPostingCollateralEntries_def
      getAwaitingExpirySlashEntries_def getCollateralPostedEntries_def wp_simps)

lemma wp_setArbitrumStage:
  assumes "\<And>w'. arb_stored S i stage patch w w' \<Longrightarrow> Q (Ok ()) w'"
    and "\<And>e w'. arb_unstored S i stage patch w w' \<Longrightarrow> Q (Throw e) w'"
    and "\<And>w'. arb_unstored S i stage patch w w' \<Longrightarrow> Q Stop w'"
  shows "wp (setArbitrumStage S i stage patch) Q w"
  unfolding setArbitrumStage_def arb_persist_def
  by (auto simp: wp_simps Let_def arb_stored_def arb_unstored_def
      intro!: assms world.equality exI split: prod.split write_result.split)

lemma setArbitrumStage_cases:
  "wp (setArbitrumStage S i stage patch)
     (\<lambda>r w'. r = Ok () \<and> arb_stored S i stage patch w w' \<or> r \<noteq> Ok () \<and> arb_unstored S i stage patch w w') w"
  by (rule wp_setArbitrumStage) simp_all

lemma arb_stored_get:
  assumes "arb_stored S i stage patch w w'"
  shows "arb_get w' j = (if keyOf j = keyOf i
           then Some (merge_entry (arb_get w i) stage patch (os_now S (w_env w))) else arb_get w j)"
  using assms by (auto simp: arb_stored_def arb_get_def Let_def)

lemma arb_unstored_get:
  assumes "arb_unstored S i stage patch w w'"
  shows "arb_get w' j = (if keyOf j = keyOf i
           then Some (merge_entry (arb_get w i) stage patch (os_now S (w_env w))) else arb_get w j)"
  using assms by (auto simp: arb_unstored_def arb_get_def Let_def)

text \<open>What a stage change leaves alone, whether or not it reached the disk.\<close>

lemma arb_stored_frame:
  assumes "arb_stored S i stage patch w w'"
  shows "w_settled w' = w_settled w" "w_settled_disk w' = w_settled_disk w" "w_book w' = w_book w"
    "w_states w' = w_states w" "w_alerted w' = w_alerted w" "w_alerts w' = w_alerts w"
    "w_arb w' = jput (keyOf i) (merge_entry (arb_get w i) stage patch (os_now S (w_env w))) (w_arb w)"
    "w_arb_disk w' = w_arb w'"
    "w_events w' = w_events w @ [Ev_arb (keyOf i) (merge_entry (arb_get w i) stage patch (os_now S (w_env w)))]"
  using assms by (auto simp: arb_stored_def Let_def)

lemma arb_unstored_frame:
  assumes "arb_unstored S i stage patch w w'"
  shows "w_settled w' = w_settled w" "w_settled_disk w' = w_settled_disk w" "w_book w' = w_book w"
    "w_states w' = w_states w" "w_alerted w' = w_alerted w" "w_alerts w' = w_alerts w"
    "w_arb w' = jput (keyOf i) (merge_entry (arb_get w i) stage patch (os_now S (w_env w))) (w_arb w)"
    "w_events w' = w_events w"
  using assms by (auto simp: arb_unstored_def Let_def)

lemma merge_entry_stage [simp]: "ae_stage (merge_entry prev stage patch now) = stage"
  by (simp add: merge_entry_def)

text \<open>
  The keys of the ledger in memory and of its file are distinct and normalised, and the file has no
  intent that the memory lacks.
\<close>

definition arb_wf :: "'e world \<Rightarrow> bool" where
  "arb_wf w \<longleftrightarrow> lc_keys (w_arb w) \<and> lc_keys (w_arb_disk w) \<and>
     (\<forall>k. jget (w_arb w) k = None \<longrightarrow> jget (w_arb_disk w) k = None)"

lemma setArbitrumStage_wf [intro, simp]: "preserves arb_wf (setArbitrumStage S i stage patch)"
proof (rule preservesI, rule wp_setArbitrumStage)
  fix w w' :: "'a world" assume inv: "arb_wf w"
  show "arb_stored S i stage patch w w' \<Longrightarrow> arb_wf w'"
    using inv by (auto simp: arb_wf_def arb_stored_frame)
  assume "arb_unstored S i stage patch w w'"
  then show "arb_wf w'" and "arb_wf w'"
    using inv by (auto simp: arb_wf_def arb_unstored_def Let_def split: if_splits)
qed

lemma arb_entries_at_iff:
  "(k, e) \<in> set (arb_entries_at stages w) \<longleftrightarrow> (k, e) \<in> set (w_arb w) \<and> ae_stage e \<in> stages"
  by (auto simp: arb_entries_at_def)

section \<open>Properties\<close>

text \<open>What a property of an entry becomes: kept when the patch lacks it, erased by \<^verbatim>\<open>undefined\<close>, else replaced.\<close>

definition overlaid :: "'a fld \<Rightarrow> 'a option \<Rightarrow> 'a option \<Rightarrow> bool" where
  "overlaid p old new \<longleftrightarrow>
     (p = Absent \<longrightarrow> new = old) \<and> (p = Undef \<longrightarrow> new = None) \<and> (\<forall>v. p = Val v \<longrightarrow> new = Some v)"

lemma overlaid_spread: "overlaid p old (spread old p)"
  by (cases p) (simp_all add: overlaid_def)

text \<open>An entry over what was known of its intent before, property by property.\<close>

definition entry_overlaid :: "arb_patch \<Rightarrow> arb_entry option \<Rightarrow> arb_entry \<Rightarrow> bool" where
  "entry_overlaid p old new \<longleftrightarrow>
     overlaid (ap_collateralTxHash p) (Option.bind old ae_collateralTxHash) (ae_collateralTxHash new) \<and>
     overlaid (ap_confirmTxHash p) (Option.bind old ae_confirmTxHash) (ae_confirmTxHash new) \<and>
     overlaid (ap_slashTxHash p) (Option.bind old ae_slashTxHash) (ae_slashTxHash new) \<and>
     overlaid (ap_expiry p) (Option.bind old ae_expiry) (ae_expiry new) \<and>
     overlaid (ap_solver p) (Option.bind old ae_solver) (ae_solver new) \<and>
     overlaid (ap_selectedSolver p) (Option.bind old ae_selectedSolver) (ae_selectedSolver new) \<and>
     overlaid (ap_tierAtSelection p) (Option.bind old ae_tierAtSelection) (ae_tierAtSelection new) \<and>
     overlaid (ap_routingReason p) (Option.bind old ae_routingReason) (ae_routingReason new) \<and>
     overlaid (ap_collateralWei p) (Option.bind old ae_collateralWei) (ae_collateralWei new)"

lemma merge_entry_overlaid: "entry_overlaid p old (merge_entry old stage p now)"
  by (simp add: entry_overlaid_def merge_entry_def overlaid_spread)

text \<open>C15: A stage change that returns has filed one entry, under the intent's key however it is
  spelled: its stage is the given one, its time the clock's, and each of its nine other properties is
  the old one when the patch lacks it, gone when the patch has it as \<^verbatim>\<open>undefined\<close>, and the patch's
  value otherwise. Every other intent's entry is untouched, the file equals the memory, and the
  write of this entry was the only effect.\<close>

theorem setArbitrumStage_ok:
  assumes "setArbitrumStage S i stage patch w = (Ok (), w')"
  shows "\<exists>en. (\<forall>j. arb_get w' j = (if keyOf j = keyOf i then Some en else arb_get w j)) \<and>
    ae_stage en = stage \<and> ae_updatedAt en = os_now S (w_env w) \<and>
    entry_overlaid patch (arb_get w i) en \<and>
    w_arb_disk w' = w_arb w' \<and> w_events w' = w_events w @ [Ev_arb (keyOf i) en] \<and>
    w_settled w' = w_settled w \<and> w_states w' = w_states w \<and> w_book w' = w_book w"
proof -
  let ?en = "merge_entry (arb_get w i) stage patch (os_now S (w_env w))"
  have "wp (setArbitrumStage S i stage patch) (\<lambda>r w'. r = Ok () \<longrightarrow> arb_stored S i stage patch w w') w"
    by (rule wp_setArbitrumStage) simp_all
  from wpD [OF this assms] have st: "arb_stored S i stage patch w w'" by simp
  have "ae_updatedAt ?en = os_now S (w_env w)"
    by (simp add: merge_entry_def)
  with st show ?thesis
    by (intro exI [of _ ?en]) (auto simp: arb_stored_get arb_stored_frame merge_entry_overlaid)
qed

theorem setArbitrumStage_ok_witness:
  "\<exists>w'. setArbitrumStage script_os ''0xAB'' Confirming (no_patch\<lparr>ap_confirmTxHash := Val ''h''\<rparr>)
       (fresh_world blank_script) = (Ok (), w') \<and>
     map_option ae_stage (arb_get w' ''ab'') = Some Confirming \<and>
     Option.bind (arb_get w' ''ab'') ae_confirmTxHash = Some ''h''"
proof -
  let ?run = "setArbitrumStage script_os ''0xAB'' Confirming (no_patch\<lparr>ap_confirmTxHash := Val ''h''\<rparr>)
       (fresh_world blank_script)"
  have run: "?run = (Ok (), snd ?run)" by code_simp
  have "keyOf ''ab'' = keyOf ''0xAB''" by code_simp
  with setArbitrumStage_ok [OF run] run show ?thesis
    by (auto simp: entry_overlaid_def overlaid_def no_patch_def)
qed

text \<open>C16: A stage change that throws or is cut off has no effect beyond the ledger and is not on the
  disk: the memory holds the new entry, and the file what it held before or, when the write failed
  after truncating it, nothing that the next start can load.\<close>

theorem setArbitrumStage_failed:
  assumes "setArbitrumStage S i stage patch w = (r, w')" and "r \<noteq> Ok ()"
  shows "arb_get w' i = Some (merge_entry (arb_get w i) stage patch (os_now S (w_env w)))
    \<and> w_events w' = w_events w \<and> (w_arb (arb_load w') = w_arb_disk w \<or> w_arb (arb_load w') = [])"
proof -
  have "wp (setArbitrumStage S i stage patch)
     (\<lambda>r w'. r \<noteq> Ok () \<longrightarrow> arb_unstored S i stage patch w w') w"
    by (rule wp_setArbitrumStage) simp_all
  from wpD [OF this assms(1)] assms(2) have u: "arb_unstored S i stage patch w w'" by simp
  then have "w_arb_disk w' = w_arb_disk w \<or> w_arb_disk w' = []"
    by (auto simp: arb_unstored_def Let_def)
  with u show ?thesis by (simp add: arb_unstored_get arb_unstored_frame arb_load_def)
qed

theorem setArbitrumStage_failed_witness:
  "\<exists>w'. setArbitrumStage script_os ''0xAB'' Confirming no_patch
       (fresh_world (blank_script\<lparr>sc_writes := [Wr_torn (js ''ENOSPC'')]\<rparr>)) = (Throw (js ''ENOSPC''), w') \<and>
     w_arb (arb_load w') = [] \<and> map_option ae_stage (arb_get w' ''0xAB'') = Some Confirming"
proof -
  let ?run = "setArbitrumStage script_os ''0xAB'' Confirming no_patch
       (fresh_world (blank_script\<lparr>sc_writes := [Wr_torn (js ''ENOSPC'')]\<rparr>))"
  have run: "?run = (Throw (js ''ENOSPC''), snd ?run)" by code_simp
  have "w_arb (arb_load (snd ?run)) = []" by code_simp
  with setArbitrumStage_failed [OF run] run show ?thesis by auto
qed

end
