(* ===== verification/Intent_State.thy ===== *)
theory Intent_State
  imports World
begin

text \<open>
  \<^verbatim>\<open>intent_state.ts\<close>: one display record per intent, in one file per intent. Every setter reads
  the record or starts from a blank one, applies its patch, stamps \<^verbatim>\<open>updatedAt\<close> and writes the file
  (atomically: a failed write leaves the old one). \<open>w_states\<close> holds the files by their base name,
  the key of the intent. The lemmas give the record each setter leaves, its insensitivity to the
  spelling of the identifier, and that the files stay consistent with their names.
\<close>

section \<open>Reading and writing\<close>

definition readState :: "string \<Rightarrow> ('e world, intent_state option) js" where
  "readState intentId = js_get (\<lambda>w. jget (w_states w) (keyOf intentId))"

definition no_timestamps :: state_timestamps where
  "no_timestamps = \<lparr>ts_queuedAt = None, ts_provingStartedAt = None, ts_verifiedAt = None,
     ts_settlingAt = None, ts_settledAt = None, ts_finalAt = None\<rparr>"

definition blankState :: "int \<Rightarrow> string \<Rightarrow> intent_state" where
  "blankState now intentId =
     \<lparr>is_intentId = intentId, is_sourceChain = ''unknown'', is_sourceTxHash = ''unknown'',
      is_blockNumber = None, is_blockHash = None, is_amountWei = ''0'', is_tokenAddress = ''unknown'',
      is_destinationChainId = ''unknown'', is_destinationWallet = ''unknown'', is_vkey = None,
      is_proofStatus = proof_kind_only Pk_queued, is_rejectReason = None, is_alertReason = None,
      is_settlement = \<lparr>ss_kind = Sk_none, ss_sig = None\<rparr>,
      is_arbitrumSettlement = \<lparr>as_stage = None, as_collateralTxHash = None, as_confirmTxHash = None,
        as_slashTxHash = None, as_reason = None\<rparr>,
      is_solverRouting = None, is_finality = F_pending, is_timestamps = no_timestamps,
      is_updatedAt = now\<rparr>"

text \<open>The temporary file is renamed over the record only when it was written.\<close>

definition writeStateFile :: "'e os \<Rightarrow> intent_state \<Rightarrow> ('e world, unit) js" where
  "writeStateFile S state =
     save_file S (State_file (keyOf (is_intentId state)))
       (\<lambda>w. w\<lparr>w_states := jput (keyOf (is_intentId state)) state (w_states w)\<rparr>) (\<lambda>w. w)"

definition upsert :: "'e os \<Rightarrow> string \<Rightarrow> (int \<Rightarrow> intent_state \<Rightarrow> intent_state) \<Rightarrow> ('e world, unit) js" where
  "upsert S intentId patch =
     bnd (now_ms S) (\<lambda>now.
     bnd (readState intentId) (\<lambda>found.
       let prev = (case found of Some s \<Rightarrow> s | None \<Rightarrow> blankState now intentId)
       in writeStateFile S ((patch now prev)\<lparr>is_updatedAt := now\<rparr>)))"

declare upsert_def [code del] writeStateFile_def [code del]

lemma run_upsert_code [code]:
  "writeStateFile S state w = save_file S (State_file (keyOf (is_intentId state)))
     (\<lambda>w. w\<lparr>w_states := jput (keyOf (is_intentId state)) state (w_states w)\<rparr>) (\<lambda>w. w) w"
  "upsert S intentId patch w1 =
     writeStateFile S ((patch (os_now S (w_env w1)) (case jget (w_states w1) (keyOf intentId) of
         Some s \<Rightarrow> s | None \<Rightarrow> blankState (os_now S (w_env w1)) intentId))\<lparr>is_updatedAt := os_now S (w_env w1)\<rparr>) w1"
  by (simp_all add: writeStateFile_def upsert_def readState_def bnd_def js_get_def now_ms_def Let_def)

section \<open>The setters\<close>

definition created_patch :: "intent_created_fields \<Rightarrow> proof_status \<Rightarrow> int \<Rightarrow> intent_state \<Rightarrow> intent_state" where
  "created_patch cf proofStatus now prev = prev
     \<lparr>is_intentId := cf_intentId cf, is_sourceChain := cf_sourceChain cf,
      is_sourceTxHash := cf_sourceTxHash cf, is_blockNumber := cf_blockNumber cf,
      is_blockHash := cf_blockHash cf, is_amountWei := cf_amountWei cf,
      is_tokenAddress := cf_tokenAddress cf, is_destinationChainId := cf_destinationChainId cf,
      is_destinationWallet := cf_destinationWallet cf, is_proofStatus := proofStatus,
      is_timestamps := (is_timestamps prev)\<lparr>ts_queuedAt :=
        (if ps_kind proofStatus = Pk_queued then Some now else ts_queuedAt (is_timestamps prev))\<rparr>\<rparr>"

definition recordIntentCreated :: "'e os \<Rightarrow> intent_created_fields \<Rightarrow> proof_status \<Rightarrow> ('e world, unit) js" where
  "recordIntentCreated S cf proofStatus =
     upsert S (cf_intentId cf) (created_patch cf proofStatus)"

definition setProving :: "'e os \<Rightarrow> string \<Rightarrow> ('e world, unit) js" where
  "setProving S intentId = upsert S intentId (\<lambda>now prev. prev
     \<lparr>is_proofStatus := proof_kind_only Pk_proving,
      is_timestamps := (is_timestamps prev)\<lparr>ts_provingStartedAt :=
        (case ts_provingStartedAt (is_timestamps prev) of Some t \<Rightarrow> Some t | None \<Rightarrow> Some now)\<rparr>\<rparr>)"

definition setRetrying :: "'e os \<Rightarrow> string \<Rightarrow> nat \<Rightarrow> nat \<Rightarrow> ('e world, unit) js" where
  "setRetrying S intentId attempt maxAttempts = upsert S intentId (\<lambda>now prev. prev
     \<lparr>is_proofStatus := \<lparr>ps_kind = Pk_retrying, ps_attempt = Some attempt,
        ps_maxAttempts = Some maxAttempts, ps_chain = None\<rparr>\<rparr>)"

definition setVerified :: "'e os \<Rightarrow> string \<Rightarrow> string \<Rightarrow> ('e world, unit) js" where
  "setVerified S intentId vkey = upsert S intentId (\<lambda>now prev. prev
     \<lparr>is_vkey := Some vkey, is_proofStatus := proof_kind_only Pk_verified,
      is_timestamps := (is_timestamps prev)\<lparr>ts_verifiedAt := Some now\<rparr>\<rparr>)"

definition setRejected :: "'e os \<Rightarrow> string \<Rightarrow> jstext \<Rightarrow> ('e world, unit) js" where
  "setRejected S intentId reason = upsert S intentId (\<lambda>now prev. prev
     \<lparr>is_proofStatus := proof_kind_only Pk_rejected, is_rejectReason := Some (redact reason)\<rparr>)"

definition setAlert :: "'e os \<Rightarrow> string \<Rightarrow> jstext \<Rightarrow> ('e world, unit) js" where
  "setAlert S intentId reason = upsert S intentId (\<lambda>now prev. prev
     \<lparr>is_proofStatus := proof_kind_only Pk_alert, is_alertReason := Some (redact reason)\<rparr>)"

definition recordAlertReason :: "'e os \<Rightarrow> string \<Rightarrow> jstext \<Rightarrow> ('e world, unit) js" where
  "recordAlertReason S intentId reason =
     upsert S intentId (\<lambda>now prev. prev\<lparr>is_alertReason := Some (redact reason)\<rparr>)"

definition setSettling :: "'e os \<Rightarrow> string \<Rightarrow> string \<Rightarrow> ('e world, unit) js" where
  "setSettling S intentId sig = upsert S intentId (\<lambda>now prev. prev
     \<lparr>is_settlement := \<lparr>ss_kind = Sk_settling, ss_sig = Some sig\<rparr>,
      is_timestamps := (is_timestamps prev)\<lparr>ts_settlingAt := Some now\<rparr>\<rparr>)"

definition setSettled :: "'e os \<Rightarrow> string \<Rightarrow> string \<Rightarrow> ('e world, unit) js" where
  "setSettled S intentId sig = upsert S intentId (\<lambda>now prev. prev
     \<lparr>is_settlement := \<lparr>ss_kind = Sk_settled, ss_sig = Some sig\<rparr>,
      is_timestamps := (is_timestamps prev)\<lparr>ts_settledAt := Some now\<rparr>\<rparr>)"

definition setUnconfirmedNeedsReview :: "'e os \<Rightarrow> string \<Rightarrow> string \<Rightarrow> ('e world, unit) js" where
  "setUnconfirmedNeedsReview S intentId sig = upsert S intentId (\<lambda>now prev. prev
     \<lparr>is_settlement := \<lparr>ss_kind = Sk_unconfirmed_needs_review, ss_sig = Some sig\<rparr>\<rparr>)"

text \<open>
  \<^verbatim>\<open>stage\<close> spreads over a property that is always there; a patch never sets it to
  \<^verbatim>\<open>undefined\<close>, and if it did the stage would read as absent.
\<close>

definition merge_arb_status :: "arb_status \<Rightarrow> arb_status_patch \<Rightarrow> arb_status" where
  "merge_arb_status prev patch =
     \<lparr>as_stage = spread (as_stage prev) (asp_stage patch),
      as_collateralTxHash = spread (as_collateralTxHash prev) (asp_collateralTxHash patch),
      as_confirmTxHash = spread (as_confirmTxHash prev) (asp_confirmTxHash patch),
      as_slashTxHash = spread (as_slashTxHash prev) (asp_slashTxHash patch),
      as_reason = (case asp_reason patch of Val r \<Rightarrow> Some (redact r) | _ \<Rightarrow> as_reason prev)\<rparr>"

definition setArbitrumSettlement :: "'e os \<Rightarrow> string \<Rightarrow> arb_status_patch \<Rightarrow> ('e world, unit) js" where
  "setArbitrumSettlement S intentId patch = upsert S intentId (\<lambda>now prev. prev
     \<lparr>is_arbitrumSettlement := merge_arb_status (is_arbitrumSettlement prev) patch\<rparr>)"

definition setSolverRouting :: "'e os \<Rightarrow> string \<Rightarrow> solver_routing_status \<Rightarrow> ('e world, unit) js" where
  "setSolverRouting S intentId routing = upsert S intentId (\<lambda>now prev. prev
     \<lparr>is_solverRouting := Some (routing\<lparr>sr_reason := redact (sr_reason routing)\<rparr>)\<rparr>)"

definition setFinal :: "'e os \<Rightarrow> string \<Rightarrow> ('e world, unit) js" where
  "setFinal S intentId = upsert S intentId (\<lambda>now prev. prev
     \<lparr>is_finality := F_final, is_timestamps := (is_timestamps prev)\<lparr>ts_finalAt := Some now\<rparr>\<rparr>)"

section \<open>Listing\<close>

definition isBlockFinal :: "int \<Rightarrow> int \<Rightarrow> bool" where
  "isBlockFinal blockNumber finalizedBlockNumber \<longleftrightarrow> blockNumber \<le> finalizedBlockNumber"

definition json_suffix :: string where
  "json_suffix = ''.json''"

definition state_file_of :: "string \<Rightarrow> string option" where
  "state_file_of name =
     (if length name \<ge> 5 \<and> drop (length name - 5) name = json_suffix
      then Some (take (length name - 5) name) else None)"

text \<open>The records of a directory listing, unreadable and foreign files skipped.\<close>

definition states_of :: "(string, intent_state) jmap \<Rightarrow> string list \<Rightarrow> intent_state list" where
  "states_of files names =
     List.map_filter (\<lambda>name. Option.bind (state_file_of name) (jget files)) names"

definition list_states :: "'e os \<Rightarrow> (intent_state \<Rightarrow> bool) \<Rightarrow> ('e world, intent_state list) js" where
  "list_states S want =
     bnd (js_get w_states) (\<lambda>files.
     bnd (ext (os_readdir S (map (\<lambda>k. k @ json_suffix) (jkeys files)))) (\<lambda>names.
       js_ret (filter want (states_of files names))))"

definition awaits_finality :: "string \<Rightarrow> intent_state \<Rightarrow> bool" where
  "awaits_finality sourceChain state \<longleftrightarrow>
     is_sourceChain state = sourceChain \<and> is_finality state = F_pending \<and> is_blockNumber state \<noteq> None"

definition listPendingFinality :: "'e os \<Rightarrow> string \<Rightarrow> ('e world, intent_state list) js" where
  "listPendingFinality S sourceChain = list_states S (awaits_finality sourceChain)"

definition listAllStates :: "'e os \<Rightarrow> ('e world, intent_state list) js" where
  "listAllStates S = list_states S (\<lambda>_. True)"

lemmas setter_defs = recordIntentCreated_def setProving_def setRetrying_def setVerified_def
  setRejected_def setAlert_def recordAlertReason_def setSettling_def setSettled_def
  setUnconfirmedNeedsReview_def setArbitrumSettlement_def setSolverRouting_def setFinal_def

section \<open>What a setter leaves\<close>

text \<open>
  A setter that returns has filed the patched record under the intent's key and touched no other
  record; one that throws, or dies, has left every record as it was.
\<close>

definition state_before :: "'e os \<Rightarrow> 'e world \<Rightarrow> string \<Rightarrow> intent_state" where
  "state_before S w intentId =
     (case jget (w_states w) (keyOf intentId) of
        Some s \<Rightarrow> s | None \<Rightarrow> blankState (os_now S (w_env w)) intentId)"

lemma wp_upsert [wp_simps]:
  "wp (upsert S intentId patch) Q w =
   (let now = os_now S (w_env w);
        next = (patch now (state_before S w intentId))\<lparr>is_updatedAt := now\<rparr>
    in case os_write S (State_file (keyOf (is_intentId next))) (w_env w) of (b, e) \<Rightarrow>
         (case b of
            Wr_ok \<Rightarrow> Q (Ok ()) (w\<lparr>w_env := e, w_states := jput (keyOf (is_intentId next)) next (w_states w)\<rparr>)
          | Wr_refused m \<Rightarrow> Q (Throw m) (w\<lparr>w_env := e\<rparr>)
          | Wr_torn m \<Rightarrow> Q (Throw m) (w\<lparr>w_env := e\<rparr>)
          | Wr_killed \<Rightarrow> Q Stop (w\<lparr>w_env := e\<rparr>)))"
  by (simp add: upsert_def readState_def writeStateFile_def wp_simps state_before_def Let_def
      split: prod.split write_result.split)

text \<open>When the records can be written, a setter returns.\<close>

definition states_writable :: "'e os \<Rightarrow> bool" where
  "states_writable S \<longleftrightarrow> (\<forall>k e. fst (os_write S (State_file k) e) = Wr_ok)"

lemma upsert_returns:
  assumes "states_writable S" "\<And>w'. core w' = core w \<Longrightarrow> Q (Ok ()) w'"
  shows "wp (upsert S intentId patch) Q w"
proof -
  have ok: "os_write S (State_file k) e = (b, e') \<Longrightarrow> b = Wr_ok" for k e b e'
    using assms(1) unfolding states_writable_def by (metis fst_conv)
  show ?thesis
    by (auto simp: wp_upsert Let_def dest!: ok intro!: assms(2) split: prod.split)
qed

lemma display_only_upsert [intro, simp]: "display_only (upsert S intentId patch)"
  by (auto intro!: display_onlyI simp: wp_simps Let_def split: prod.split write_result.split)

lemma display_only_setters [intro, simp]:
  "display_only (setProving S i)" "display_only (setRetrying S i a b)" "display_only (setVerified S i v)"
  "display_only (setRejected S i r)" "display_only (setAlert S i r)" "display_only (recordAlertReason S i r)"
  "display_only (setSettling S i g)" "display_only (setSettled S i g)"
  "display_only (setUnconfirmedNeedsReview S i g)" "display_only (setArbitrumSettlement S i p)"
  "display_only (setSolverRouting S i q)" "display_only (setFinal S i)"
  "display_only (recordIntentCreated S cf ps)"
  by (simp_all add: setter_defs)

text \<open>The invariant of the directory: one record per name, each under its own intent's key.\<close>

definition states_wf :: "'e world \<Rightarrow> bool" where
  "states_wf w \<longleftrightarrow> jwf (w_states w) \<and> (\<forall>(k, s) \<in> set (w_states w). k = keyOf (is_intentId s))"

text \<open>No free text of a record holds a URL (an RPC endpoint with its key, say).\<close>

definition text_clean :: "jstext option \<Rightarrow> bool" where
  "text_clean t = (case t of None \<Rightarrow> True | Some x \<Rightarrow> \<not> has_url x)"

definition state_clean :: "intent_state \<Rightarrow> bool" where
  "state_clean s \<longleftrightarrow> text_clean (is_rejectReason s) \<and> text_clean (is_alertReason s) \<and>
     text_clean (as_reason (is_arbitrumSettlement s)) \<and>
     text_clean (map_option sr_reason (is_solverRouting s))"

definition states_clean :: "'e world \<Rightarrow> bool" where
  "states_clean w \<longleftrightarrow> (\<forall>(k, s) \<in> set (w_states w). state_clean s) \<and>
     (\<forall>(t, m) \<in> set (w_alerts w). \<not> has_url m)"

definition state_inv :: "'e world \<Rightarrow> bool" where
  "state_inv w \<longleftrightarrow> states_wf w \<and> states_clean w"

lemma redact_clean [simp]: "\<not> has_url (redact t)"
  unfolding redact_def using has_url_redact_tokens redact_urls_none by blast

lemma text_clean_simps [simp]: "text_clean None" "text_clean (Some (redact t))"
  by (simp_all add: text_clean_def)

lemma state_before_ok:
  assumes "state_inv w"
  shows "keyOf (is_intentId (state_before S w i)) = keyOf i" and "state_clean (state_before S w i)"
proof -
  have "keyOf (is_intentId s) = keyOf i \<and> state_clean s" if "jget (w_states w) (keyOf i) = Some s" for s
    using jget_Some_in [OF that] assms by (auto simp: state_inv_def states_wf_def states_clean_def)
  then show "keyOf (is_intentId (state_before S w i)) = keyOf i" "state_clean (state_before S w i)"
    by (auto simp: state_before_def blankState_def state_clean_def split: option.split)
qed

text \<open>A patch that keeps the key and leaves no URL behind.\<close>

definition good_patch :: "string \<Rightarrow> (int \<Rightarrow> intent_state \<Rightarrow> intent_state) \<Rightarrow> bool" where
  "good_patch i patch \<longleftrightarrow> (\<forall>now prev. keyOf (is_intentId prev) = keyOf i \<longrightarrow> state_clean prev \<longrightarrow>
     keyOf (is_intentId (patch now prev)) = keyOf i \<and> state_clean (patch now prev))"

lemma state_inv_put:
  assumes "state_inv w" "keyOf (is_intentId s) = k" "state_clean s"
  shows "state_inv (w\<lparr>w_env := e, w_states := jput k s (w_states w)\<rparr>)"
  using assms by (auto simp: state_inv_def states_wf_def states_clean_def set_jput dest: in_set_jput)

lemma state_inv_env [simp]: "state_inv (w\<lparr>w_env := e\<rparr>) = state_inv w"
  by (simp add: state_inv_def states_wf_def states_clean_def)

lemma upsert_inv:
  assumes "good_patch i patch"
  shows "preserves state_inv (upsert S i patch)"
proof (rule preservesI)
  fix w :: "'a world" assume inv: "state_inv w"
  let ?now = "os_now S (w_env w)"
  let ?s = "(patch ?now (state_before S w i))\<lparr>is_updatedAt := ?now\<rparr>"
  have "keyOf (is_intentId ?s) = keyOf i" "state_clean ?s"
    using assms state_before_ok [OF inv, of S i] by (simp_all add: good_patch_def state_clean_def)
  then show "wp (upsert S i patch) (\<lambda>_. state_inv) w"
    by (simp add: wp_simps Let_def inv state_inv_put split: prod.split write_result.split)
qed

text \<open>Every setter is such a patch, so what \<open>upsert\<close> keeps for these, every setter keeps.\<close>

lemma setters_by_patch:
  assumes "\<And>i patch. good_patch i patch \<Longrightarrow> preserves I (upsert S i patch)"
  shows "preserves I (setProving S i)" "preserves I (setRetrying S i a b)"
    "preserves I (setVerified S i v)" "preserves I (setRejected S i r)"
    "preserves I (setAlert S i r)" "preserves I (recordAlertReason S i r)"
    "preserves I (setSettling S i g)" "preserves I (setSettled S i g)"
    "preserves I (setUnconfirmedNeedsReview S i g)" "preserves I (setArbitrumSettlement S i p)"
    "preserves I (setSolverRouting S i q)" "preserves I (setFinal S i)"
    "preserves I (recordIntentCreated S cf ps)"
  unfolding setter_defs
  by (rule assms; simp add: good_patch_def state_clean_def merge_arb_status_def
      created_patch_def split: fld.split)+

lemmas setters_inv [intro, simp] = setters_by_patch [OF upsert_inv]

lemma alert_inv [intro, simp]: "preserves state_inv (alert S m)"
  by (rule preservesI)
    (auto simp: alert_def wp_simps state_inv_def states_wf_def states_clean_def
      split: prod.split write_result.split)

end
