(* ===== verification/Settled_Ledger.thy ===== *)
theory Settled_Ledger
  imports Intent_State Scripted
begin

text \<open>
  The settled-intent ledger of \<^verbatim>\<open>prover_pipeline.ts\<close>: the authority on whether an intent's Solana
  payout was signed or has landed, keyed by the lower-case identifier. Unlike the Arbitrum
  ledger, a write that fails is only reported. \<open>reconcileSettlingLedger\<close> asks Solana about every
  signed payout whose fate is unknown.
\<close>

section \<open>The ledger\<close>

text \<open>
  The two formats of the file, and one that does not parse. An element of the array that is no text
  (\<open>None\<close>) ends the loading with an exception, which is caught: what was loaded so far stays.
\<close>

datatype settled_file = Sf_bad | Sf_array "string option list" | Sf_object "(string, ledger_entry) jmap"

fun settled_load :: "settled_file \<Rightarrow> (string, ledger_entry) jmap" where
  "settled_load Sf_bad = []"
| "settled_load (Sf_array ids) =
     fold (\<lambda>i. jput (toLowerCase i) \<lparr>le_status = L_settled, le_solanaSig = None, le_updatedAt = 0\<rparr>)
       (List.map_filter id (takeWhile (\<lambda>i. i \<noteq> None) ids)) []"
| "settled_load (Sf_object m) = fold (\<lambda>(i, e). jput (toLowerCase i) e) m []"

definition persistLedger :: "'e os \<Rightarrow> string \<Rightarrow> ('e world, unit) js" where
  "persistLedger S intentId =
     js_catch (save_file S Settled_ledger_file
         (\<lambda>w. w\<lparr>w_settled_disk := w_settled w\<rparr>) (\<lambda>w. w\<lparr>w_settled_disk := []\<rparr>))
       (\<lambda>e. alert S (js (''failed to persist settled ledger after updating '' @ intentId @ '': '') @ e))"

definition settled_get :: "'e world \<Rightarrow> string \<Rightarrow> ledger_entry option" where
  "settled_get w intentId = jget (w_settled w) (toLowerCase intentId)"

definition getLedgerEntry :: "string \<Rightarrow> ('e world, ledger_entry option) js" where
  "getLedgerEntry intentId = js_get (\<lambda>w. settled_get w intentId)"

definition is_settled :: "'e world \<Rightarrow> string \<Rightarrow> bool" where
  "is_settled w intentId = (case settled_get w intentId of
       None \<Rightarrow> False | Some e \<Rightarrow> le_status e = L_settled)"

definition isAlreadySettled :: "string \<Rightarrow> ('e world, bool) js" where
  "isAlreadySettled intentId = js_get (\<lambda>w. is_settled w intentId)"

definition put_settled :: "'e os \<Rightarrow> string \<Rightarrow> ledger_entry \<Rightarrow> ('e world, unit) js" where
  "put_settled S intentId entry =
     sq (js_mod (\<lambda>w. w\<lparr>w_settled := jput (toLowerCase intentId) entry (w_settled w)\<rparr>))
     (sq (persistLedger S intentId)
         (bnd (js_get (\<lambda>w. w_settled_disk w = w_settled w)) (\<lambda>durable.
            if durable then emit (Ev_settled (toLowerCase intentId) entry) else js_ret ())))"

definition markSettling :: "'e os \<Rightarrow> string \<Rightarrow> string \<Rightarrow> ('e world, unit) js" where
  "markSettling S intentId solanaSig =
     bnd (now_ms S) (\<lambda>now.
       put_settled S intentId
         \<lparr>le_status = L_settling, le_solanaSig = Some solanaSig, le_updatedAt = now\<rparr>)"

definition markSettled :: "'e os \<Rightarrow> string \<Rightarrow> ('e world, unit) js" where
  "markSettled S intentId =
     bnd (getLedgerEntry intentId) (\<lambda>existing.
     bnd (now_ms S) (\<lambda>now.
       put_settled S intentId
         \<lparr>le_status = L_settled, le_solanaSig = Option.bind existing le_solanaSig, le_updatedAt = now\<rparr>))"

text \<open>An empty signature is falsy, and skipped.\<close>

definition settling_entries :: "'e world \<Rightarrow> (string \<times> string) list" where
  "settling_entries w = List.map_filter (\<lambda>(intentId, entry).
     (case le_solanaSig entry of
        Some sig \<Rightarrow> if le_status entry = L_settling \<and> sig \<noteq> [] then Some (intentId, sig) else None
      | None \<Rightarrow> None)) (w_settled w)"

definition getSettlingEntries :: "('e world, (string \<times> string) list) js" where
  "getSettlingEntries = js_get settling_entries"

section \<open>Reconciliation\<close>

definition still_settling_reason :: "string \<Rightarrow> jstext" where
  "still_settling_reason solanaSig =
     js (''still \"settling\" (sig '' @ solanaSig @ '') with no confirmed landing on Solana '') @ emdash @
     js ('' NOT auto-resettling. Needs manual review; '' @
         ''will keep re-checking automatically until it lands or the intent is otherwise resolved.'')"

definition check_failed_reason :: "string \<Rightarrow> jstext \<Rightarrow> jstext" where
  "check_failed_reason solanaSig e =
     js (''failed to check signature '' @ solanaSig @ '' on Solana during reconciliation: '') @ e @
     js '' '' @ emdash @ js '' NOT auto-resettling.''"

definition alert_intent :: "'e os \<Rightarrow> string \<Rightarrow> jstext \<Rightarrow> ('e world, unit) js" where
  "alert_intent S intentId reason = alert S (js (''intent '' @ intentId @ '': '') @ reason)"

text \<open>One entry; the result says whether the intent joins \<^verbatim>\<open>newlySettled\<close>.\<close>

definition reconcile_settling_one ::
  "'e os \<Rightarrow> (string \<Rightarrow> ('e world, bool) js) \<Rightarrow> string \<times> string \<Rightarrow> ('e world, bool) js" where
  "reconcile_settling_one S checkSolanaSignatureLanded = (\<lambda>(intentId, solanaSig).
     js_catch
       (bnd (checkSolanaSignatureLanded solanaSig) (\<lambda>landed.
        bnd (js_get w_alerted) (\<lambda>alerted.
          if landed then
            sq (markSettled S intentId)
            (sq (setSettled S intentId solanaSig)
            (sq (js_mod (\<lambda>w. w\<lparr>w_alerted := filter (\<lambda>s. s \<noteq> solanaSig) (w_alerted w)\<rparr>))
                (js_ret True)))
          else if solanaSig \<notin> set alerted then
            sq (js_mod (\<lambda>w. w\<lparr>w_alerted := w_alerted w @ [solanaSig]\<rparr>))
            (sq (alert_intent S intentId (still_settling_reason solanaSig))
            (sq (setUnconfirmedNeedsReview S intentId solanaSig)
            (sq (recordAlertReason S intentId (still_settling_reason solanaSig))
                (js_ret False))))
          else js_ret False)))
       (\<lambda>e. sq (alert_intent S intentId (check_failed_reason solanaSig e))
            (sq (recordAlertReason S intentId (check_failed_reason solanaSig e))
                (js_ret False))))"

definition reconcileSettlingLedger ::
  "'e os \<Rightarrow> (string \<Rightarrow> ('e world, bool) js) \<Rightarrow> ('e world, string list) js" where
  "reconcileSettlingLedger S checkSolanaSignatureLanded =
     bnd getSettlingEntries (\<lambda>pending.
     bnd (js_filter (reconcile_settling_one S checkSolanaSignatureLanded) pending) (\<lambda>newlySettled.
       js_ret (map fst newlySettled)))"

section \<open>Rules\<close>

text \<open>An update of the ledger: the memory has it, the file has it, or its old contents, or nothing.\<close>

definition settled_put :: "string \<Rightarrow> ledger_entry \<Rightarrow> 'e world \<Rightarrow> 'e world \<Rightarrow> bool" where
  "settled_put intentId entry w w' \<longleftrightarrow>
     w_settled w' = jput (toLowerCase intentId) entry (w_settled w) \<and>
     w_settled_disk w' \<in> {w_settled_disk w, [], w_settled w'} \<and>
     w_arb w' = w_arb w \<and> w_arb_disk w' = w_arb_disk w \<and> w_book w' = w_book w \<and>
     w_states w' = w_states w \<and> w_alerted w' = w_alerted w \<and> w_flags w' = w_flags w \<and>
     (w_events w' = w_events w \<or>
      w_events w' = w_events w @ [Ev_settled (toLowerCase intentId) entry] \<and>
      w_settled_disk w' = w_settled w')"

lemma wp_put_settled:
  assumes "\<And>w'. settled_put i entry w w' \<Longrightarrow> Q (Ok ()) w'"
    and "\<And>w'. settled_put i entry w w' \<Longrightarrow> Q Stop w'"
  shows "wp (put_settled S i entry) Q w"
  by (auto simp: put_settled_def persistLedger_def alert_def wp_simps settled_put_def
      intro!: assms split: prod.split write_result.split)

lemma wp_getLedgerEntry [wp_simps]:
  "wp (getLedgerEntry i) Q w = Q (Ok (settled_get w i)) w"
  "wp (isAlreadySettled i) Q' w = Q' (Ok (is_settled w i)) w"
  "wp getSettlingEntries Q'' w = Q'' (Ok (settling_entries w)) w"
  by (simp_all add: getLedgerEntry_def isAlreadySettled_def getSettlingEntries_def wp_simps)

lemma settled_put_get:
  "settled_put i entry w w' \<Longrightarrow>
   settled_get w' j = (if toLowerCase j = toLowerCase i then Some entry else settled_get w j)"
  by (auto simp: settled_put_def settled_get_def)

text \<open>The keys are distinct and lower case, as every loader and every update leaves them.\<close>

abbreviation settled_wf :: "'e world \<Rightarrow> bool" where
  "settled_wf w \<equiv> lc_keys (w_settled w)"

lemma settled_load_wf: "lc_keys (settled_load sf)"
  by (cases sf) (simp_all add: lc_keys_folds)

lemma settling_entries_in:
  assumes "(k, sig) \<in> set (settling_entries w)" "settled_wf w"
  shows "\<exists>e. jget (w_settled w) k = Some e \<and> le_solanaSig e = Some sig \<and> le_status e = L_settling
     \<and> toLowerCase k = k"
proof -
  obtain e where "(k, e) \<in> set (w_settled w)" "le_solanaSig e = Some sig" "le_status e = L_settling"
    using assms(1) by (auto simp: settling_entries_def List.map_filter_def split: option.splits if_splits)
  moreover from this(1) have "k \<in> set (jkeys (w_settled w))"
    by force
  ultimately show ?thesis
    using assms(2) by (auto simp: lc_keys_def jget_eq_iff)
qed

section \<open>Reconciliation\<close>

text \<open>
  What reconciling the entries \<open>P\<close> may change, when \<open>L\<close> holds of every signature the check
  answers yes to: entries of \<open>P\<close> whose signature landed become settled, with that signature.
\<close>

definition entry_promoted ::
  "(string \<times> string) set \<Rightarrow> (string \<Rightarrow> bool) \<Rightarrow> string \<Rightarrow> ledger_entry option \<Rightarrow> ledger_entry option \<Rightarrow> bool"
  where "entry_promoted P L k old new \<longleftrightarrow> new = old \<or>
    (\<exists>sig e e'. (k, sig) \<in> P \<and> L sig \<and> old = Some e \<and> le_solanaSig e = Some sig \<and>
       new = Some e' \<and> le_solanaSig e' = Some sig \<and> le_status e' = L_settled)"

definition promotion_event :: "(string \<times> string) set \<Rightarrow> (string \<Rightarrow> bool) \<Rightarrow> event \<Rightarrow> bool" where
  "promotion_event P L v \<longleftrightarrow>
     (\<exists>k sig e. (k, sig) \<in> P \<and> L sig \<and> v = Ev_settled k e \<and> le_status e = L_settled)"

definition promoted :: "(string \<times> string) set \<Rightarrow> (string \<Rightarrow> bool) \<Rightarrow> 'e world \<Rightarrow> 'e world \<Rightarrow> bool" where
  "promoted P L w w' \<longleftrightarrow>
     (\<forall>k. entry_promoted P L k (jget (w_settled w) k) (jget (w_settled w') k)) \<and>
     w_arb w' = w_arb w \<and> w_arb_disk w' = w_arb_disk w \<and> w_book w' = w_book w \<and>
     (\<exists>vs. w_events w' = w_events w @ vs \<and> (\<forall>v \<in> set vs. promotion_event P L v))"

lemma promoted_core: "core w' = core w \<Longrightarrow> promoted P L w w'"
  by (simp add: promoted_def core_eq entry_promoted_def)

lemma entry_promoted_trans:
  "entry_promoted P L k a b \<Longrightarrow> entry_promoted P L k b c \<Longrightarrow> entry_promoted P L k a c"
  unfolding entry_promoted_def by auto

lemma promoted_trans:
  assumes "promoted P L w w'" "promoted P L w' w''"
  shows "promoted P L w w''"
proof -
  obtain vs ws where "w_events w' = w_events w @ vs" "w_events w'' = w_events w' @ ws"
    "\<forall>v \<in> set vs. promotion_event P L v" "\<forall>v \<in> set ws. promotion_event P L v"
    using assms unfolding promoted_def by blast
  then have "w_events w'' = w_events w @ (vs @ ws) \<and> (\<forall>v \<in> set (vs @ ws). promotion_event P L v)"
    by auto
  moreover have "entry_promoted P L k (jget (w_settled w) k) (jget (w_settled w'') k)" for k
    using assms unfolding promoted_def by (blast intro: entry_promoted_trans)
  ultimately show ?thesis
    using assms unfolding promoted_def by metis
qed

lemma promoted_sig:
  assumes "promoted P L w w'" "jget (w_settled w) k = Some e"
  shows "\<exists>e'. jget (w_settled w') k = Some e' \<and> le_solanaSig e' = le_solanaSig e \<and>
     (le_status e = L_settled \<longrightarrow> le_status e' = L_settled)"
proof -
  have "entry_promoted P L k (Some e) (jget (w_settled w') k)"
    using assms unfolding promoted_def by metis
  then show ?thesis
    by (auto simp: entry_promoted_def)
qed

lemma markSettled_promotes:
  assumes "(k, sig) \<in> P" "L sig" "toLowerCase k = k"
    and "jget (w_settled w) k = Some e" "le_solanaSig e = Some sig"
  shows "wp (markSettled S k) (\<lambda>r w'. promoted P L w w' \<and> is_settled w' k \<and> (\<forall>m. r \<noteq> Throw m)) w"
proof -
  define en where "en = \<lparr>le_status = L_settled, le_solanaSig = Some sig, le_updatedAt = os_now S (w_env w)\<rparr>"
  have "promoted P L w w' \<and> is_settled w' k" if "settled_put k en w w'" for w'
  proof
    have "promotion_event P L (Ev_settled k en)"
      using assms(1,2) by (auto simp: promotion_event_def en_def)
    then have "\<exists>vs. w_events w' = w_events w @ vs \<and> (\<forall>v \<in> set vs. promotion_event P L v)"
      using that assms(3) by (force simp: settled_put_def)
    then show "promoted P L w w'"
      using that assms by (auto simp: promoted_def settled_put_def entry_promoted_def en_def)
    show "is_settled w' k"
      using that by (simp add: is_settled_def settled_put_get en_def)
  qed
  then show ?thesis
    unfolding markSettled_def
    by (simp add: wp_simps settled_get_def assms en_def [symmetric] wp_put_settled)
qed

lemma display_only_alerted [simp, intro]: "display_only (js_mod (\<lambda>w. w\<lparr>w_alerted := f w\<rparr>))"
  by (rule display_onlyI) (simp add: wp_simps)

lemma display_only_alert_intent [simp, intro]: "display_only (alert_intent S k m)"
  by (simp add: alert_intent_def)

text \<open>
  The contract of the signature check: it does not touch the ledgers, and it answers yes only
  about signatures of which \<open>L\<close> holds. Everything about the loop follows from it.
\<close>

locale signature_check =
  fixes S :: "'e os" and check :: "string \<Rightarrow> ('e world, bool) js" and L :: "string \<Rightarrow> bool"
  assumes check_core: "display_only (check sig)"
    and check_yes: "wp (check sig) (\<lambda>r _. r = Ok True \<longrightarrow> L sig) w"
begin

lemma wp_check:
  assumes "\<And>r w'. core w' = core w \<Longrightarrow> (r = Ok True \<longrightarrow> L sig) \<Longrightarrow> Q r w'"
  shows "wp (check sig) Q w"
proof -
  have "wp (check sig) (\<lambda>r w'. core w' = core w \<and> (r = Ok True \<longrightarrow> L sig)) w"
    by (rule wp_conj) (simp_all add: display_onlyD check_core check_yes)
  then show ?thesis
    by (rule wp_mono) (use assms in auto)
qed

definition pending_now :: "'e world \<Rightarrow> string \<times> string \<Rightarrow> bool" where
  "pending_now w x \<longleftrightarrow> (\<exists>e. jget (w_settled w) (fst x) = Some e \<and> le_solanaSig e = Some (snd x))
     \<and> toLowerCase (fst x) = fst x"

lemma pending_now_promoted: "promoted P L w w' \<Longrightarrow> pending_now w x \<Longrightarrow> pending_now w' x"
  unfolding pending_now_def using promoted_sig by fastforce

lemma is_settled_promoted: "promoted P L w w' \<Longrightarrow> is_settled w k \<Longrightarrow> is_settled w' k"
  using promoted_sig [of P L w w' "toLowerCase k"]
  by (fastforce simp: is_settled_def settled_get_def split: option.splits)

lemma is_settled_core: "core w' = core w \<Longrightarrow> is_settled w' k = is_settled w k"
  by (simp add: is_settled_def settled_get_def core_eq)

definition after_one :: "(string \<times> string) set \<Rightarrow> 'e world \<Rightarrow> string \<Rightarrow> bool outcome \<Rightarrow> 'e world \<Rightarrow> bool" where
  "after_one P w k r w' \<longleftrightarrow> promoted P L w w' \<and> (r = Ok True \<longrightarrow> is_settled w' k)"

lemma after_core: "promoted P L w w1 \<Longrightarrow> core w2 = core w1 \<Longrightarrow> r \<noteq> Ok True \<Longrightarrow> after_one P w k r w2"
  by (auto simp: after_one_def intro: promoted_trans promoted_core)

lemma reconcile_no:
  assumes "promoted P L w w1" "display_only m" "display_only n"
  shows "wp (sq m (sq n (js_ret False))) (after_one P w k) w1"
  by (intro wp_sq_display assms) (auto simp: wp_simps intro: after_core [OF assms(1)])

lemma reconcile_one:
  assumes "(k, sig) \<in> P" "pending_now w (k, sig)"
  shows "wp (reconcile_settling_one S check (k, sig)) (after_one P w k) w"
  unfolding reconcile_settling_one_def prod.case
proof (rule wp_catchI [where M = "after_one P w k"], rule wp_bndI [OF wp_check])
  show "after_one P w k (Throw e) w' \<Longrightarrow>
      wp (sq (alert_intent S k (check_failed_reason sig e))
         (sq (recordAlertReason S k (check_failed_reason sig e)) (js_ret False))) (after_one P w k) w'" for e w'
    by (rule reconcile_no) (auto simp: after_one_def)
  fix b and w' :: "'e world"
  assume M: "core w' = core w \<and> (Ok b = Ok True \<longrightarrow> L sig)"
  then obtain e where e: "jget (w_settled w') k = Some e" "le_solanaSig e = Some sig" "toLowerCase k = k"
    using assms(2) by (auto simp: pending_now_def core_eq)
  have w': "promoted P L w w'" using M by (simp add: promoted_core)
  have yes: "wp (sq (markSettled S k) (sq (setSettled S k sig) (sq (js_mod (\<lambda>w. w\<lparr>w_alerted := f w\<rparr>))
      (js_ret True)))) (after_one P w k) w'" if "L sig" for f
  proof (rule wp_sqI [OF markSettled_promotes])
    fix w1 :: "'e world" assume "promoted P L w' w1 \<and> is_settled w1 k \<and> (\<forall>m. Ok () \<noteq> Throw m)"
    then have "after_one P w k r w2" if "core w2 = core w1" for r w2
      using that w' is_settled_core by (auto simp: after_one_def intro: promoted_trans promoted_core)
    then show "wp (sq (setSettled S k sig) (sq (js_mod (\<lambda>w. w\<lparr>w_alerted := f w\<rparr>))
      (js_ret True))) (after_one P w k) w1"
      by (intro wp_sq_display) (auto simp: wp_simps)
  qed (use assms(1) that e w' in \<open>auto simp: after_one_def intro: promoted_trans\<close>)
  show "wp (bnd (js_get w_alerted) (\<lambda>alerted. if b then
          sq (markSettled S k) (sq (setSettled S k sig) (sq (js_mod (\<lambda>w. w\<lparr>w_alerted :=
            filter (\<lambda>s. s \<noteq> sig) (w_alerted w)\<rparr>)) (js_ret True)))
        else if sig \<notin> set alerted then
          sq (js_mod (\<lambda>w. w\<lparr>w_alerted := w_alerted w @ [sig]\<rparr>))
          (sq (alert_intent S k (still_settling_reason sig)) (sq (setUnconfirmedNeedsReview S k sig)
          (sq (recordAlertReason S k (still_settling_reason sig)) (js_ret False))))
        else js_ret False)) (after_one P w k) w'"
  proof (cases b)
    case True
    then show ?thesis using M yes by (simp add: wp_bnd wp_get)
  next
    case False
    have "wp (sq (js_mod (\<lambda>w. w\<lparr>w_alerted := w_alerted w @ [sig]\<rparr>))
          (sq (alert_intent S k (still_settling_reason sig)) (sq (setUnconfirmedNeedsReview S k sig)
          (sq (recordAlertReason S k (still_settling_reason sig)) (js_ret False))))) (after_one P w k) w'"
      by (intro wp_sq_display) (auto simp: wp_simps intro: after_core [OF w'])
    then show ?thesis using False by (auto simp: wp_simps after_core [OF w'])
  qed
qed (auto simp: after_one_def promoted_core)

lemma reconcile_loop:
  assumes "set xs \<subseteq> P" "\<forall>x \<in> set xs. pending_now w x"
  shows "wp (js_filter (reconcile_settling_one S check) xs)
    (\<lambda>r w'. promoted P L w w' \<and>
       (\<forall>ys. r = Ok ys \<longrightarrow> set ys \<subseteq> set xs \<and> (\<forall>y \<in> set ys. is_settled w' (fst y)))) w"
  using assms
proof (induction xs arbitrary: w)
  case Nil
  then show ?case by (simp add: wp_simps promoted_core)
next
  case (Cons x xs)
  obtain k sig where x: "x = (k, sig)" by (cases x)
  show ?case
    unfolding js_filter.simps x
  proof (rule wp_bndI [OF reconcile_one])
    fix b w' assume one: "after_one P w k (Ok b) w'"
    then have pr: "promoted P L w w'" by (simp add: after_one_def)
    with Cons.prems have "\<forall>x \<in> set xs. pending_now w' x"
      by (auto intro: pending_now_promoted)
    with Cons.prems have rest: "wp (js_filter (reconcile_settling_one S check) xs)
        (\<lambda>r w''. promoted P L w' w'' \<and>
          (\<forall>ys. r = Ok ys \<longrightarrow> set ys \<subseteq> set xs \<and> (\<forall>y \<in> set ys. is_settled w'' (fst y)))) w'"
      by (intro Cons.IH) auto
    show "wp (bnd (js_filter (reconcile_settling_one S check) xs)
          (\<lambda>ys. js_ret (if b then (k, sig) # ys else ys)))
        (\<lambda>r w'. promoted P L w w' \<and> (\<forall>ys. r = Ok ys \<longrightarrow> set ys \<subseteq> set ((k, sig) # xs) \<and>
          (\<forall>y \<in> set ys. is_settled w' (fst y)))) w'"
      by (rule wp_bndI [OF rest])
        (use one in \<open>auto simp: wp_simps after_one_def intro: promoted_trans [OF pr] is_settled_promoted\<close>)
  qed (use Cons.prems x in \<open>auto simp: after_one_def\<close>)
qed

lemma reconcile_all:
  assumes "settled_wf w"
  shows "wp (reconcileSettlingLedger S check)
    (\<lambda>r w'. promoted (set (settling_entries w)) L w w' \<and>
       (\<forall>ids. r = Ok ids \<longrightarrow> (\<forall>k \<in> set ids. is_settled w' k \<and>
          (\<exists>sig. (k, sig) \<in> set (settling_entries w))))) w"
  unfolding reconcileSettlingLedger_def wp_bnd [of getSettlingEntries] wp_getLedgerEntry on_ok_simps
proof (rule wp_bndI [OF reconcile_loop])
  show "\<forall>x \<in> set (settling_entries w). pending_now w x"
    using settling_entries_in [OF _ assms] by (fastforce simp: pending_now_def)
qed (force simp: wp_simps)+

end

section \<open>The check on Solana\<close>

text \<open>
  \<^verbatim>\<open>checkSolanaSignatureLanded\<close> of \<^verbatim>\<open>listener.ts\<close>, which wires the one check both reconciliation and
  the slash poller use: a status without an error that is confirmed or finalized.
\<close>

definition sig_landed :: "sig_value option \<Rightarrow> bool" where
  "sig_landed v = (case v of None \<Rightarrow> False | Some s \<Rightarrow> \<not> sv_err s \<and>
     (sv_confirmationStatus s = Some ''confirmed'' \<or> sv_confirmationStatus s = Some ''finalized''))"

definition checkSolanaSignatureLanded :: "'e os \<Rightarrow> string \<Rightarrow> ('e world, bool) js" where
  "checkSolanaSignatureLanded S sig = bnd (ext (os_sigStatus S sig)) (\<lambda>v. js_ret (sig_landed v))"

text \<open>Solana has reported the signature as landed, in some state of the outside world.\<close>

definition reported_landed :: "'e os \<Rightarrow> string \<Rightarrow> bool" where
  "reported_landed S sig \<longleftrightarrow> (\<exists>e v. fst (os_sigStatus S sig e) = Ok v \<and> sig_landed v)"

lemma display_only_check [simp, intro]: "display_only (checkSolanaSignatureLanded S sig)"
  unfolding checkSolanaSignatureLanded_def by (rule display_only_bnd) simp_all

interpretation solana: signature_check S "checkSolanaSignatureLanded S" "reported_landed S" for S :: "'e os"
proof
  fix sig and w :: "'e world"
  show "wp (checkSolanaSignatureLanded S sig) (\<lambda>r _. r = Ok True \<longrightarrow> reported_landed S sig) w"
    by (auto simp: checkSolanaSignatureLanded_def wp_simps on_ok_def reported_landed_def
        split: prod.split outcome.split) (metis fst_conv)
qed simp

section \<open>Properties\<close>

text \<open>What reconciling must guarantee of each intent it reports as newly settled.\<close>

definition newly_settled_ok :: "'e world \<Rightarrow> 'e world \<Rightarrow> string list \<Rightarrow> bool" where
  "newly_settled_ok w w' ids \<longleftrightarrow>
     (\<forall>k \<in> set ids. is_settled w' k \<and> (\<exists>sig. (k, sig) \<in> set (settling_entries w)))"

text \<open>C22: Reconciling the settled ledger, however it ends: an entry changes only from settling to
  settled, only when its signature was reported as landed, and it keeps that signature; the
  Arbitrum ledger and the reservations are untouched, and the only effects are the writes of those
  entries. Every intent it returns was settling before and is settled now.\<close>

theorem reconcileSettlingLedger_sound:
  assumes "settled_wf w" and "reconcileSettlingLedger S (checkSolanaSignatureLanded S) w = (r, w')"
  shows "promoted (set (settling_entries w)) (reported_landed S) w w' \<and>
    (case r of Ok ids \<Rightarrow> newly_settled_ok w w' ids | _ \<Rightarrow> True)"
  using wpD [OF solana.reconcile_all [OF assms(1)] assms(2)]
  by (auto simp: newly_settled_ok_def split: outcome.split)

text \<open>A payout signed before a restart that Solana reports as finalized.\<close>

definition signed_world :: "script world" where
  "signed_world = (fresh_world (blank_script\<lparr>sc_sigs :=
       [Ok (Some \<lparr>sv_err = False, sv_confirmationStatus = Some ''finalized''\<rparr>)]\<rparr>))
     \<lparr>w_settled := [(''a1'', \<lparr>le_status = L_settling, le_solanaSig = Some ''S1'', le_updatedAt = 0\<rparr>)]\<rparr>"

theorem reconcileSettlingLedger_witness:
  "\<exists>w'. reconcileSettlingLedger script_os (checkSolanaSignatureLanded script_os) signed_world = (Ok [''a1''], w') \<and>
     newly_settled_ok signed_world w' [''a1''] \<and> is_settled w' ''A1''"
proof -
  have wf: "settled_wf signed_world" by code_simp
  have "(case reconcileSettlingLedger script_os (checkSolanaSignatureLanded script_os) signed_world of
      (Ok ids, w') \<Rightarrow> ids = [''a1''] \<and> is_settled w' ''A1'' | _ \<Rightarrow> False)"
    by code_simp
  then obtain w' where run: "reconcileSettlingLedger script_os (checkSolanaSignatureLanded script_os) signed_world =
      (Ok [''a1''], w')" "is_settled w' ''A1''"
    by (auto split: prod.splits outcome.splits)
  from reconcileSettlingLedger_sound [OF wf run(1)] run show ?thesis by auto
qed

end
