(* ===== verification/Prover_Pipeline.thy ===== *)
theory Prover_Pipeline
  imports Settled_Ledger
begin

text \<open>
  The prover half of \<^verbatim>\<open>prover_pipeline.ts\<close>: the run of the prover with its retries, the reading
  of what it wrote, the queue of prover jobs of this process, and the settle gate. The prover
  process itself (\<^verbatim>\<open>flock\<close>, \<^verbatim>\<open>systemd-run\<close>) is \<open>os_runProver\<close>: the exit code (1 for a spawn
  error) and the tail of its stderr.
\<close>

section \<open>Configuration\<close>

definition EXPECTED_VKEY :: string where
  "EXPECTED_VKEY = ''0x000c653a242999b53decd2c3d31fc211e432b38eb4ead432b789607eb8621937''"

definition SOLANA_CHAIN_ID :: int where
  "SOLANA_CHAIN_ID = 1399811149"

definition MAX_PROVER_RETRIES :: nat where
  "MAX_PROVER_RETRIES = 3"

definition RETRY_BACKOFF_MS :: "int list" where
  "RETRY_BACKOFF_MS = [5000, 15000, 45000]"

section \<open>Reading the proof\<close>

text \<open>Both files must be there, the JSON must parse, and its mode must be \<^verbatim>\<open>prove\<close>.\<close>

definition readProofJson :: "'e os \<Rightarrow> string \<Rightarrow> ('e world, proof_json option) js" where
  "readProofJson S intentIdHex =
     js_get (\<lambda>w. case os_proofFiles S intentIdHex (w_env w) of
         Pf_missing \<Rightarrow> None
       | Pf_unparsable \<Rightarrow> None
       | Pf_json json \<Rightarrow> (if pj_mode json \<noteq> ''prove'' then None else Some json))"

text \<open>The last line of the stderr tail that is not blank.\<close>

fun split_lines :: "string \<Rightarrow> string list" where
  "split_lines [] = [[]]"
| "split_lines (c # s) =
     (if c = CHR 0x0A then [] # split_lines s
      else (case split_lines s of [] \<Rightarrow> [[c]] | l # ls \<Rightarrow> (c # l) # ls))"

definition lastStderrLine :: "string \<Rightarrow> string" where
  "lastStderrLine stderrTail =
     (let lines = filter (\<lambda>l. l \<noteq> []) (map trim (split_lines stderrTail))
      in if lines = [] then [] else last lines)"

section \<open>Proving an intent\<close>

datatype prover_outcome = Settle_check proof_json | Rejected | Alerted

definition int_text :: "int \<Rightarrow> string" where
  "int_text n = bigint_toString n"

definition prover_gave_up :: "int \<Rightarrow> string \<Rightarrow> jstext" where
  "prover_gave_up code detail =
     js (''prover failed 3/3 attempts (last exit '' @ int_text code @
         (if detail \<noteq> [] then '': '' @ detail else [])) @
     js '') '' @ emdash @ js '' giving up, never settling''"

definition prover_alert :: "'e os \<Rightarrow> string \<Rightarrow> jstext \<Rightarrow> ('e world, prover_outcome) js" where
  "prover_alert S intentIdHex reason =
     sq (alert S (js (''intent 0x'' @ intentIdHex @ '': '') @ reason))
     (sq (setAlert S intentIdHex reason)
         (js_ret Alerted))"

text \<open>What follows an exit code; \<open>retry\<close> is the part of the loop body for infrastructure failures.\<close>

definition on_exit_code ::
  "'e os \<Rightarrow> string \<Rightarrow> int \<Rightarrow> ('e world, prover_outcome) js \<Rightarrow> ('e world, prover_outcome) js" where
  "on_exit_code S intentIdHex code retry =
     (if code = 0 then
        bnd (readProofJson S intentIdHex) (\<lambda>found. case found of
            None \<Rightarrow> prover_alert S intentIdHex
              (js ''prover exited 0 but its output was missing/invalid '' @ emdash @ js '' not settling'')
          | Some json \<Rightarrow> sq (setVerified S intentIdHex (pj_vkey json)) (js_ret (Settle_check json)))
      else if code = 2 then
        sq (setRejected S intentIdHex (js ''semantic reject (exit 2)'')) (js_ret Rejected)
      else if code = 4 then
        prover_alert S intentIdHex
          (js ''proof FAILED VERIFICATION (exit 4) '' @ emdash @ js '' never settling'')
      else retry)"

definition retry_backoff :: "nat \<Rightarrow> int" where
  "retry_backoff attempt = (if attempt - 1 < length RETRY_BACKOFF_MS
     then RETRY_BACKOFF_MS ! (attempt - 1) else last RETRY_BACKOFF_MS)"

text \<open>
  The loop from attempt \<open>attempt\<close> on; the first argument counts the iterations the bound
  \<^verbatim>\<open>MAX_PROVER_RETRIES\<close> leaves. Past the bound the code falls out of the loop.
\<close>

fun prove_attempts :: "nat \<Rightarrow> 'e os \<Rightarrow> nat \<Rightarrow> string \<Rightarrow> string \<Rightarrow> ('e world, prover_outcome) js" where
  "prove_attempts 0 S attempt txHash intentIdHex = js_ret Alerted"
| "prove_attempts (Suc left) S attempt txHash intentIdHex =
     sq (emit (Ev_prover txHash))
     (bnd (ext (os_runProver S txHash)) (\<lambda>(code, stderrTail).
      sq (emit (Ev_exit txHash code))
      (on_exit_code S intentIdHex code
        (if attempt = MAX_PROVER_RETRIES then
           prover_alert S intentIdHex (prover_gave_up code (lastStderrLine stderrTail))
         else
           sq (setRetrying S intentIdHex (attempt + 1) MAX_PROVER_RETRIES)
           (sq (sleep S (num_of_int (retry_backoff attempt)))
               (prove_attempts left S (attempt + 1) txHash intentIdHex))))))"

definition proveIntent :: "'e os \<Rightarrow> string \<Rightarrow> string \<Rightarrow> ('e world, prover_outcome) js" where
  "proveIntent S txHash intentIdHex =
     sq (setProving S intentIdHex) (prove_attempts MAX_PROVER_RETRIES S 1 txHash intentIdHex)"

section \<open>The queue\<close>

text \<open>
  \<^verbatim>\<open>ProverQueue\<close>: the waiting jobs and the one that runs. \<^verbatim>\<open>pump\<close> starts the first waiting job
  when none runs; its \<^verbatim>\<open>finally\<close>, however the job ended, clears the flag and pumps again.
\<close>

record 'j prover_queue =
  pq_queue :: "'j list"
  pq_running :: "'j option"

definition pq_empty :: "'j prover_queue" where
  "pq_empty = \<lparr>pq_queue = [], pq_running = None\<rparr>"

definition pump :: "'j prover_queue \<Rightarrow> 'j prover_queue" where
  "pump q = (case pq_running q of Some j \<Rightarrow> q
     | None \<Rightarrow> (case pq_queue q of [] \<Rightarrow> q
         | next # rest \<Rightarrow> q\<lparr>pq_queue := rest, pq_running := Some next\<rparr>))"

definition enqueue :: "'j \<Rightarrow> 'j prover_queue \<Rightarrow> 'j prover_queue" where
  "enqueue job q = pump (q\<lparr>pq_queue := pq_queue q @ [job]\<rparr>)"

definition job_finished :: "'j prover_queue \<Rightarrow> 'j prover_queue" where
  "job_finished q = pump (q\<lparr>pq_running := None\<rparr>)"

section \<open>The settle gate\<close>

record settle_gate_result =
  sg_ok :: bool
  sg_failedChecks :: "string list"

definition check_unless :: "bool \<Rightarrow> string \<Rightarrow> string list" where
  "check_unless b name = (if b then [] else [name])"

definition gate_failures :: "proof_json \<Rightarrow> string \<Rightarrow> string \<Rightarrow> bool \<Rightarrow> int \<Rightarrow> string list" where
  "gate_failures json expectedContract canonicalBlockHash settled nowSec =
     check_unless (toLowerCase (pj_contract json) = toLowerCase expectedContract) ''contract''
   @ check_unless (toLowerCase (pj_block_hash json) = toLowerCase canonicalBlockHash) ''block_hash''
   @ check_unless (toLowerCase (pj_vkey json) = toLowerCase EXPECTED_VKEY) ''vkey''
   @ check_unless (\<not> settled) ''already_settled''
   @ check_unless (pj_destination_chain_id json = SOLANA_CHAIN_ID) ''destination_chain_id''
   @ check_unless (\<not> nowSec \<ge> pj_expiry json) ''expiry''"

definition evaluateSettleGate :: "'e os \<Rightarrow> proof_json \<Rightarrow> string \<Rightarrow> string \<Rightarrow> ('e world, settle_gate_result) js" where
  "evaluateSettleGate S json expectedContract canonicalBlockHash =
     bnd (isAlreadySettled (pj_intent_id json)) (\<lambda>settled.
     bnd (now_sec S) (\<lambda>nowSec.
       let failed = gate_failures json expectedContract canonicalBlockHash settled nowSec
       in js_ret \<lparr>sg_ok = (failed = []), sg_failedChecks = failed\<rparr>))"

section \<open>What a proving run does\<close>

text \<open>The trace of runs with the given exit codes, and of one more run that never returned.\<close>

definition runs :: "string \<Rightarrow> int list \<Rightarrow> event list" where
  "runs txHash codes = concat (map (\<lambda>c. [Ev_prover txHash, Ev_exit txHash c]) codes)"

definition infra :: "int \<Rightarrow> bool" where
  "infra c \<longleftrightarrow> c \<notin> {0, 2, 4}"

lemma infra_codes [simp]: "\<not> infra 0" "\<not> infra 2" "\<not> infra 4"
  by (simp_all add: infra_def)

text \<open>The result the exit codes call for, given what the last run left on the disk.\<close>

definition verdict_ok :: "'e os \<Rightarrow> string \<Rightarrow> 'e \<Rightarrow> int \<Rightarrow> prover_outcome \<Rightarrow> bool" where
  "verdict_ok S intentIdHex e code v =
     (if code = 0 then
        (case os_proofFiles S intentIdHex e of
           Pf_json json \<Rightarrow> v = (if pj_mode json = ''prove'' then Settle_check json else Alerted)
         | _ \<Rightarrow> v = Alerted)
      else if code = 2 then v = Rejected
      else v = Alerted)"

text \<open>What may be said when \<open>n\<close> attempts are left: the world is the old one with the runs in the trace.\<close>

definition proved ::
  "'e os \<Rightarrow> nat \<Rightarrow> string \<Rightarrow> string \<Rightarrow> 'e world \<Rightarrow> prover_outcome outcome \<Rightarrow> 'e world \<Rightarrow> bool" where
  "proved S n txHash intentIdHex w r w' \<longleftrightarrow>
     (\<exists>codes cut. core w' = core (w\<lparr>w_events := w_events w @ runs txHash codes @ cut\<rparr>) \<and>
        length codes + length cut \<le> n \<and> (cut = [] \<or> cut = [Ev_prover txHash]) \<and>
        (\<forall>c \<in> set (butlast codes). infra c) \<and>
        (\<forall>v. r = Ok v \<longrightarrow> cut = [] \<and> codes \<noteq> [] \<and> (\<exists>e. verdict_ok S intentIdHex e (last codes) v) \<and>
           (infra (last codes) \<longrightarrow> length codes = n)))"

lemma proved_none: "core w' = core w \<Longrightarrow> (\<And>v. r \<noteq> Ok v) \<Longrightarrow> proved S n t i w r w'"
  unfolding proved_def
  by (rule exI [of _ "[]"], rule exI [of _ "[]"]) (simp add: runs_def core_eq)

lemma proved_cut:
  "core w' = core (w\<lparr>w_events := w_events w @ [Ev_prover t]\<rparr>) \<Longrightarrow> (\<And>v. r \<noteq> Ok v) \<Longrightarrow>
   proved S (Suc n) t i w r w'"
  unfolding proved_def
  by (rule exI [of _ "[]"], rule exI [of _ "[Ev_prover t]"]) (simp add: runs_def core_eq)

lemma proved_one:
  assumes "core w' = core (w\<lparr>w_events := w_events w @ runs t [c]\<rparr>)"
    and "\<And>v. r = Ok v \<Longrightarrow> verdict_ok S i e c v \<and> (infra c \<longrightarrow> n = 0)"
  shows "proved S (Suc n) t i w r w'"
  unfolding proved_def
  by (rule exI [of _ "[c]"], rule exI [of _ "[]"]) (use assms in auto)

lemma proved_more:
  assumes "core w1 = core (w\<lparr>w_events := w_events w @ runs t [c]\<rparr>)" "infra c" "proved S n t i w1 r w'"
  shows "proved S (Suc n) t i w r w'"
proof -
  obtain codes cut where *: "core w' = core (w1\<lparr>w_events := w_events w1 @ runs t codes @ cut\<rparr>)"
    "length codes + length cut \<le> n" "cut = [] \<or> cut = [Ev_prover t]" "\<forall>c \<in> set (butlast codes). infra c"
    "\<forall>v. r = Ok v \<longrightarrow> cut = [] \<and> codes \<noteq> [] \<and> (\<exists>e. verdict_ok S i e (last codes) v) \<and>
           (infra (last codes) \<longrightarrow> length codes = n)"
    using assms(3) unfolding proved_def by blast
  have "core w' = core (w\<lparr>w_events := w_events w @ runs t (c # codes) @ cut\<rparr>)"
    using *(1) assms(1) by (simp add: core_eq runs_def)
  moreover have "\<forall>c' \<in> set (butlast (c # codes)). infra c'"
    using *(4) assms(2) by auto
  ultimately show ?thesis
    unfolding proved_def
    by (intro exI [of _ "c # codes"] exI [of _ cut]) (use *(2,3,5) in auto)
qed

lemma prover_alert_proved:
  assumes w1: "core w1 = core (w\<lparr>w_events := w_events w @ runs t [c]\<rparr>)"
    and v: "verdict_ok S i e c Alerted" "infra c \<Longrightarrow> n = 0"
  shows "wp (prover_alert S i reason) (proved S (Suc n) t i w) w1"
  unfolding prover_alert_def
  by (intro wp_sq_display) (auto simp: wp_simps w1 v intro!: proved_one [of _ _ _ c _ S i e])

lemma on_exit_code_proved:
  assumes w1: "core w1 = core (w\<lparr>w_events := w_events w @ runs t [c]\<rparr>)"
    and retry: "infra c \<Longrightarrow> wp retry (proved S (Suc n) t i w) w1"
  shows "wp (on_exit_code S i c retry) (proved S (Suc n) t i w) w1"
proof (cases "infra c")
  case True
  then show ?thesis using retry by (simp add: on_exit_code_def infra_def)
next
  case False
  note alerts = prover_alert_proved [OF w1, of S i "w_env w1"]
  have found: "wp (sq (setVerified S i (pj_vkey json)) (js_ret (Settle_check json))) (proved S (Suc n) t i w) w1"
    if "verdict_ok S i (w_env w1) c (Settle_check json)" for json
    by (intro wp_sq_display) (auto simp: wp_simps w1 that False intro!: proved_one [of _ _ _ c _ S i "w_env w1"])
  have rejected: "wp (sq (setRejected S i m) (js_ret Rejected)) (proved S (Suc n) t i w) w1"
    if "verdict_ok S i (w_env w1) c Rejected" for m
    by (intro wp_sq_display) (auto simp: wp_simps w1 that False intro!: proved_one [of _ _ _ c _ S i "w_env w1"])
  from False have "c = 0 \<or> c = 2 \<or> c = 4" by (auto simp: infra_def)
  then show ?thesis
    by (elim disjE)
      (auto simp: on_exit_code_def readProofJson_def wp_bnd wp_get False verdict_ok_def
        intro!: alerts found rejected split: option.split proof_files.split)
qed

lemma run_once_proved:
  assumes retry: "\<And>c tail w1. core w1 = core (w\<lparr>w_events := w_events w @ runs t [c]\<rparr>) \<Longrightarrow> infra c \<Longrightarrow>
      wp (R c tail) (proved S (Suc n) t i w) w1"
  shows "wp (sq (emit (Ev_prover t)) (bnd (ext (os_runProver S t)) (\<lambda>(c, tail).
      sq (emit (Ev_exit t c)) (on_exit_code S i c (R c tail))))) (proved S (Suc n) t i w) w"
proof -
  obtain r e where run: "os_runProver S t (w_env w) = (r, e)" by fastforce
  let ?w1 = "\<lambda>c. w\<lparr>w_env := e, w_events := w_events w @ [Ev_prover t, Ev_exit t c]\<rparr>"
  have w1: "core (?w1 c) = core (w\<lparr>w_events := w_events w @ runs t [c]\<rparr>)" for c
    by (simp add: core_eq runs_def)
  have "wp (on_exit_code S i c (R c tail)) (proved S (Suc n) t i w) (?w1 c)" for c tail
    by (rule on_exit_code_proved [OF w1]) (rule retry [OF w1])
  then show ?thesis
    by (cases r) (auto simp: wp_simps run on_exit_code_proved core_eq intro!: proved_cut)
qed

lemma prove_attempts_proved:
  "attempt + left = 3 \<Longrightarrow> wp (prove_attempts (Suc left) S attempt t i) (proved S (Suc left) t i w) w"
proof (induction left arbitrary: attempt w)
  case start: 0
  then have "attempt = MAX_PROVER_RETRIES" by (simp add: MAX_PROVER_RETRIES_def)
  then show ?case
    unfolding prove_attempts.simps
    by (auto intro!: run_once_proved prover_alert_proved [of _ _ _ _ S i "w_env w"] simp: verdict_ok_def infra_def)
next
  case (Suc left)
  then have att: "attempt \<noteq> MAX_PROVER_RETRIES" by (simp add: MAX_PROVER_RETRIES_def)
  show ?case
    unfolding prove_attempts.simps(2) [of "Suc left"] if_not_P [OF att]
  proof (rule run_once_proved)
    fix c :: int and tail :: string and w1 :: "'a world"
    assume w1: "core w1 = core (w\<lparr>w_events := w_events w @ runs t [c]\<rparr>)" and c: "infra c"
    have "wp (prove_attempts (Suc left) S (attempt + 1) t i) (proved S (Suc (Suc left)) t i w) w2"
      if "core w2 = core w1" for w2
      using Suc.IH [of "attempt + 1" w2] Suc.prems that w1
      by (auto intro: wp_mono proved_more [OF _ c])
    moreover have "proved S (Suc (Suc left)) t i w r w2" if "core w2 = core w1" "\<And>v. r \<noteq> Ok v" for r w2
      by (rule proved_one [of _ _ _ c]) (use that w1 in auto)
    ultimately show "wp (sq (setRetrying S i (attempt + 1) MAX_PROVER_RETRIES)
          (sq (sleep S (num_of_int (retry_backoff attempt)))
              (prove_attempts (Suc left) S (attempt + 1) t i)))
        (proved S (Suc (Suc left)) t i w) w1"
      by (intro wp_sq_display) auto
  qed
qed

lemma proveIntent_proved: "wp (proveIntent S t i) (proved S 3 t i w) w"
proof -
  have "wp (prove_attempts (Suc 2) S 1 t i) (proved S (Suc 2) t i w) w'" if "core w' = core w" for w'
    using prove_attempts_proved [of 1 2 S t i w'] that
    by (auto intro: wp_mono simp: proved_def core_eq)
  then show ?thesis
    unfolding proveIntent_def MAX_PROVER_RETRIES_def
    by (intro wp_sq_display) (auto simp: eval_nat_numeral intro: proved_none)
qed

section \<open>The queue as a first-in first-out interface\<close>

text \<open>
  What a client of the queue relies on: \<open>contents\<close> lists the job that runs and those that wait;
  adding appends, finishing removes the first; a job runs whenever there is one.
\<close>

datatype 'j queue_action = Enq 'j | Finish

text \<open>A history: the jobs that have ended so far, in order, beside the queue.\<close>

fun happen ::
  "('j \<Rightarrow> 'q \<Rightarrow> 'q) \<Rightarrow> ('q \<Rightarrow> 'q) \<Rightarrow> ('q \<Rightarrow> 'j option) \<Rightarrow> 'j queue_action \<Rightarrow> 'q \<times> 'j list \<Rightarrow> 'q \<times> 'j list"
  where
    "happen add finish current (Enq j) (q, ended) = (add j q, ended)"
  | "happen add finish current Finish (q, ended) =
       (case current q of None \<Rightarrow> (q, ended) | Some j \<Rightarrow> (finish q, ended @ [j]))"

fun enqueued :: "'j queue_action list \<Rightarrow> 'j list" where
  "enqueued [] = []"
| "enqueued (Enq j # acts) = j # enqueued acts"
| "enqueued (Finish # acts) = enqueued acts"

locale serial_queue =
  fixes empty :: 'q and add :: "'j \<Rightarrow> 'q \<Rightarrow> 'q" and finish :: "'q \<Rightarrow> 'q"
    and contents :: "'q \<Rightarrow> 'j list" and current :: "'q \<Rightarrow> 'j option" and good :: "'q \<Rightarrow> bool"
  assumes good_empty: "good empty" "contents empty = []"
    and good_add: "good q \<Longrightarrow> good (add j q)" "good q \<Longrightarrow> contents (add j q) = contents q @ [j]"
    and good_finish: "good q \<Longrightarrow> good (finish q)" "good q \<Longrightarrow> contents (finish q) = tl (contents q)"
    and current_first: "good q \<Longrightarrow> current q = (case contents q of [] \<Rightarrow> None | j # rest \<Rightarrow> Some j)"
begin

lemma happen_fifo:
  "good q \<Longrightarrow> fold (happen add finish current) acts (q, ended) = (q', ended') \<Longrightarrow>
   good q' \<and> ended' @ contents q' = ended @ contents q @ enqueued acts"
proof (induction acts arbitrary: q ended)
  case (Cons a acts)
  show ?case
  proof (cases a)
    case (Enq j)
    then show ?thesis using Cons.IH [of "add j q" ended] Cons.prems by (simp add: good_add)
  next
    case Finish
    show ?thesis
    proof (cases "contents q")
      case Nil
      then have "current q = None" using Cons.prems current_first by simp
      with Finish Cons show ?thesis by simp
    next
      case (Cons j rest)
      then have "current q = Some j" using Cons.prems current_first by simp
      with Finish Cons Cons.IH [of "finish q" "ended @ [j]"] Cons.prems show ?thesis
        by (simp add: good_finish)
    qed
  qed
qed simp

theorem serial:
  assumes "fold (happen add finish current) acts (empty, []) = (q, ended)"
  shows "ended @ contents q = enqueued acts"
    and "current q = (case contents q of [] \<Rightarrow> None | j # rest \<Rightarrow> Some j)"
  using happen_fifo [OF good_empty(1) assms] good_empty(2) current_first by simp_all

end

definition pq_contents :: "'j prover_queue \<Rightarrow> 'j list" where
  "pq_contents q = (case pq_running q of None \<Rightarrow> [] | Some j \<Rightarrow> [j]) @ pq_queue q"

text \<open>Nothing waits while nothing runs.\<close>

definition pq_good :: "'j prover_queue \<Rightarrow> bool" where
  "pq_good q \<longleftrightarrow> (pq_running q = None \<longrightarrow> pq_queue q = [])"

interpretation pq: serial_queue pq_empty enqueue job_finished pq_contents pq_running pq_good
  by unfold_locales
    (auto simp: pq_empty_def enqueue_def job_finished_def pump_def pq_contents_def pq_good_def
      split: option.splits list.splits)

section \<open>Properties\<close>

text \<open>C12: \<^verbatim>\<open>proveIntent\<close>, on every outcome and wherever it is cut off: at most three prover runs are
  started, one after another, and nothing else in the ledgers or the trace changes; a run is repeated
  only when the one before ended in an infrastructure failure (an exit code other than 0, 2 and 4);
  when it returns, the result is the one the last exit code calls for (a settle check only on exit 0
  with both files present, parsable and in mode \<^verbatim>\<open>prove\<close>, a rejection on 2), and it gives up on
  infrastructure failures only after all three attempts.\<close>

theorem proveIntent_spec:
  "wp (proveIntent S txHash intentIdHex) (proved S MAX_PROVER_RETRIES txHash intentIdHex w) w"
  unfolding MAX_PROVER_RETRIES_def by (rule proveIntent_proved)

text \<open>C13: The settle gate has no effect, passes exactly when all six checks hold (contract,
  canonical block hash, pinned verification key, not settled, destination chain, not expired), and
  otherwise names the failed ones, in that order.\<close>

theorem evaluateSettleGate_spec:
  "wp (evaluateSettleGate S json expectedContract canonicalBlockHash)
     (\<lambda>r w'. w' = w \<and> (\<exists>g. r = Ok g \<and>
        sg_ok g = (toLowerCase (pj_contract json) = toLowerCase expectedContract \<and>
          toLowerCase (pj_block_hash json) = toLowerCase canonicalBlockHash \<and>
          toLowerCase (pj_vkey json) = toLowerCase EXPECTED_VKEY \<and>
          \<not> is_settled w (pj_intent_id json) \<and>
          pj_destination_chain_id json = SOLANA_CHAIN_ID \<and>
          os_now S (w_env w) div 1000 < pj_expiry json) \<and>
        sg_failedChecks g = map snd (filter (\<lambda>(ok, _). \<not> ok)
          [(toLowerCase (pj_contract json) = toLowerCase expectedContract, ''contract''),
           (toLowerCase (pj_block_hash json) = toLowerCase canonicalBlockHash, ''block_hash''),
           (toLowerCase (pj_vkey json) = toLowerCase EXPECTED_VKEY, ''vkey''),
           (\<not> is_settled w (pj_intent_id json), ''already_settled''),
           (pj_destination_chain_id json = SOLANA_CHAIN_ID, ''destination_chain_id''),
           (os_now S (w_env w) div 1000 < pj_expiry json, ''expiry'')]))) w"
  by (simp add: evaluateSettleGate_def wp_simps Let_def gate_failures_def check_unless_def not_le)

text \<open>C14: The prover queue is first-in first-out and never stalls: after any sequence of
  \<^verbatim>\<open>enqueue\<close> calls and job ends, the jobs that have ended, the one that runs and those that wait are
  the enqueued jobs in order, and a job runs unless none is left.\<close>

theorem ProverQueue_fifo:
  assumes "fold (happen enqueue job_finished pq_running) acts (pq_empty, []) = (q, ended)"
  shows "ended @ (case pq_running q of None \<Rightarrow> [] | Some j \<Rightarrow> [j]) @ pq_queue q = enqueued acts
    \<and> (pq_running q = None \<longrightarrow> pq_queue q = [])"
proof
  show "ended @ (case pq_running q of None \<Rightarrow> [] | Some j \<Rightarrow> [j]) @ pq_queue q = enqueued acts"
    using pq.serial(1) [OF assms] by (simp add: pq_contents_def)
  show "pq_running q = None \<longrightarrow> pq_queue q = []"
    using pq.happen_fifo [OF _ assms] by (simp add: pq_good_def pq_empty_def)
qed

theorem ProverQueue_fifo_witness:
  "\<exists>q. fold (happen enqueue job_finished pq_running) [Enq (1::nat), Enq 2, Finish, Enq 3] (pq_empty, []) = (q, [1]) \<and>
     pq_running q = Some 2 \<and> pq_queue q = [3] \<and>
     [1] @ (case pq_running q of None \<Rightarrow> [] | Some j \<Rightarrow> [j]) @ pq_queue q = [1, 2, 3]"
proof -
  have run: "fold (happen enqueue job_finished pq_running) [Enq (1::nat), Enq 2, Finish, Enq 3] (pq_empty, []) =
     (\<lparr>pq_queue = [3], pq_running = Some 2\<rparr>, [1])"
    by (simp add: pq_empty_def enqueue_def job_finished_def pump_def)
  from ProverQueue_fifo [OF run] run show ?thesis by simp
qed

end
