(* ===== verification/Arb_Config.thy ===== *)
theory Arb_Config
  imports Ledger_Types
begin

text \<open>
  The first part of \<^verbatim>\<open>arbitrum_settlement.ts\<close>: its configuration, read from the environment when
  the module loads, the loading of the solver keys, and the Arbitrum gate, all of it free of
  effects. \<open>Inl\<close> is a module that does not load (an exception or \<^verbatim>\<open>process.exit(1)\<close>). The address a
  private key belongs to is viem's business, and an argument.
\<close>

section \<open>Configuration\<close>

record arb_config =
  cg_maxTransferWei :: int
  cg_deliveryMarginSec :: jsnum
  cg_gasBufferWei :: int
  cg_payoutRetryMs :: jsnum
  cg_verifyAttempts :: jsnum
  cg_verifyDelayMs :: jsnum
  cg_confirmBackoffMs :: "jsnum list"
  cg_confirmMaxSecAfterExpiry :: jsnum

definition CLAIM_REFUND_GRACE_SEC :: int where
  "CLAIM_REFUND_GRACE_SEC = 24 * 3600"

fun split_commas :: "string \<Rightarrow> string list" where
  "split_commas [] = [[]]"
| "split_commas (c # s) =
     (if c = CHR '','' then [] # split_commas s
      else (case split_commas s of [] \<Rightarrow> [[c]] | l # ls \<Rightarrow> (c # l) # ls))"

definition parse_backoff :: "string \<Rightarrow> jsnum list" where
  "parse_backoff s =
     filter (\<lambda>n. js_isFinite n \<and> js_lt (Num 0) n) (map (\<lambda>x. js_Number (trim x)) (split_commas s))"

definition env_number :: "env_vars \<Rightarrow> string \<Rightarrow> string \<Rightarrow> jsnum" where
  "env_number env name dflt = js_Number (nullish (map_of env name) dflt)"

definition load_config :: "env_vars \<Rightarrow> jstext + arb_config" where
  "load_config env =
     (case js_BigInt (nullish (map_of env ''MAX_TRANSFER_WEI'') ''10000000000000000'') of Inl e \<Rightarrow> Inl e
      | Inr maxTransfer \<Rightarrow>
     (case js_BigInt (nullish (map_of env ''ARBITRUM_GAS_BUFFER_WEI'') ''1000000000000000'') of Inl e \<Rightarrow> Inl e
      | Inr gasBuffer \<Rightarrow>
        (let cfg = \<lparr>cg_maxTransferWei = maxTransfer,
               cg_deliveryMarginSec = env_number env ''DELIVERY_MARGIN_SEC'' ''600'',
               cg_gasBufferWei = gasBuffer,
               cg_payoutRetryMs = env_number env ''SOLANA_PAYOUT_RETRY_INTERVAL_MS'' ''30000'',
               cg_verifyAttempts = env_number env ''POST_COLLATERAL_VERIFY_ATTEMPTS'' ''3'',
               cg_verifyDelayMs = env_number env ''POST_COLLATERAL_VERIFY_DELAY_MS'' ''2000'',
               cg_confirmBackoffMs = parse_backoff
                 (nullish (map_of env ''CONFIRM_RETRY_BACKOFF_MS'') ''60000,300000,900000,1800000''),
               cg_confirmMaxSecAfterExpiry = env_number env ''CONFIRM_RETRY_MAX_SEC_AFTER_EXPIRY'' ''72000''\<rparr>
         in if js_le (num_of_int CLAIM_REFUND_GRACE_SEC) (cg_confirmMaxSecAfterExpiry cfg)
            then Inl (js ''CONFIRM_RETRY_MAX_SEC_AFTER_EXPIRY must stay below the claimRefund grace period'')
            else Inr cfg)))"

section \<open>Solver keys\<close>

record key_entry =
  ke_envVarName :: string
  ke_privateKey :: string

record solver_account =
  sa_envVarName :: string
  sa_address :: string

definition legacy_var :: string where
  "legacy_var = ''ARBITRUM_SOLVER_PRIVATE_KEY''"

definition solver_var :: "nat \<Rightarrow> string" where
  "solver_var i = ''ARBITRUM_SOLVER_PRIVATE_KEY_'' @ show_nat i"

text \<open>A variable that is set to something truthy.\<close>

definition env_set :: "env_vars \<Rightarrow> string \<Rightarrow> string option" where
  "env_set env name = (case map_of env name of Some (c # s) \<Rightarrow> Some (c # s) | _ \<Rightarrow> None)"

definition env_truthy :: "env_vars \<Rightarrow> string \<Rightarrow> bool" where
  "env_truthy env name \<longleftrightarrow> env_set env name \<noteq> None"

text \<open>
  The loop over \<^verbatim>\<open>_1\<close>, \<^verbatim>\<open>_2\<close>, ... up to the first gap. It cannot take more steps than the environment
  has variables, which is the fuel the callers give it.
\<close>

fun numbered_keys :: "nat \<Rightarrow> env_vars \<Rightarrow> nat \<Rightarrow> key_entry list" where
  "numbered_keys 0 env i = []"
| "numbered_keys (Suc n) env i = (case env_set env (solver_var i) of
       None \<Rightarrow> []
     | Some v \<Rightarrow> \<lparr>ke_envVarName = solver_var i, ke_privateKey = v\<rparr> # numbered_keys n env (i + 1))"

definition collectSolverPrivateKeyEnvEntries :: "env_vars \<Rightarrow> key_entry list" where
  "collectSolverPrivateKeyEnvEntries env =
     (let numbered = numbered_keys (Suc (length env)) env 1
      in if numbered \<noteq> [] then numbered
         else (case env_set env legacy_var of
             Some legacy \<Rightarrow> [\<lparr>ke_envVarName = legacy_var, ke_privateKey = legacy\<rparr>]
           | None \<Rightarrow> []))"

fun contiguous_keys :: "nat \<Rightarrow> env_vars \<Rightarrow> nat \<Rightarrow> nat" where
  "contiguous_keys 0 env i = i"
| "contiguous_keys (Suc n) env i =
     (if env_truthy env (solver_var (i + 1)) then contiguous_keys n env (i + 1) else i)"

text \<open>\<^verbatim>\<open>/^ARBITRUM_SOLVER_PRIVATE_KEY_(\d+)$/\<close>: the index such a name carries.\<close>

definition solver_var_index :: "string \<Rightarrow> nat option" where
  "solver_var_index name =
     (let p = legacy_var @ ''_''; d = drop (length p) name
      in if take (length p) name = p \<and> d \<noteq> [] then parse_nat 10 d else None)"

definition findOrphanedSolverPrivateKeyEnvVars :: "env_vars \<Rightarrow> string list" where
  "findOrphanedSolverPrivateKeyEnvVars env =
     (let contiguous = contiguous_keys (Suc (length env)) env 0;
          orphans = List.map_filter (\<lambda>name. case solver_var_index name of
              None \<Rightarrow> None
            | Some idx \<Rightarrow> if idx > contiguous \<and> env_truthy env name then Some idx else None) (map fst env)
      in map (\<lambda>idx. solver_var idx @ '' is set but _'' @ show_nat (contiguous + 1) @
                    '' is missing - ignoring it'') (sort orphans))"

definition legacySolverKeyIgnoredNote :: "env_vars \<Rightarrow> string option" where
  "legacySolverKeyIgnoredNote env =
     (if env_truthy env (solver_var 1) \<and> env_truthy env legacy_var
      then Some (''ARBITRUM_SOLVER_PRIVATE_KEY (legacy) is also set but is ignored because '' @
        ''ARBITRUM_SOLVER_PRIVATE_KEY_1 is present - remove one to avoid confusion'')
      else None)"

text \<open>\<^verbatim>\<open>seenBy\<close> maps a lower-case address to the variable that first claimed it.\<close>

fun resolve_from ::
  "(string \<Rightarrow> jstext + string) \<Rightarrow> (string, string) jmap \<Rightarrow> key_entry list \<Rightarrow> jstext + solver_account list"
  where
  "resolve_from addressOf seenBy [] = Inr []"
| "resolve_from addressOf seenBy (k # ks) = (case addressOf (ke_privateKey k) of
       Inl e \<Rightarrow> Inl e
     | Inr address \<Rightarrow> (case jget seenBy (toLowerCase address) of
           Some claimedBy \<Rightarrow> Inl (js (''duplicate solver address '' @ address @ '': configured under both '' @
             claimedBy @ '' and '' @ ke_envVarName k))
         | None \<Rightarrow> (case resolve_from addressOf (jput (toLowerCase address) (ke_envVarName k) seenBy) ks of
               Inl e \<Rightarrow> Inl e
             | Inr out \<Rightarrow> Inr (\<lparr>sa_envVarName = ke_envVarName k, sa_address = address\<rparr> # out))))"

definition resolveSolverAccounts :: "(string \<Rightarrow> jstext + string) \<Rightarrow> key_entry list \<Rightarrow> jstext + solver_account list" where
  "resolveSolverAccounts addressOf entries = resolve_from addressOf [] entries"

definition requiredPrivateKeyEnv :: "env_vars \<Rightarrow> string \<Rightarrow> jstext + string" where
  "requiredPrivateKeyEnv env name = (case env_set env name of
       None \<Rightarrow> Inl (js (name @ '' must be set in .env'')) | Some v \<Rightarrow> Inr v)"

text \<open>The accounts the module ends up with: the orchestrator's address and the solvers, in key order.\<close>

record arb_accounts =
  ac_orchestrator :: string
  ac_solvers :: "solver_account list"

definition load_accounts :: "(string \<Rightarrow> jstext + string) \<Rightarrow> env_vars \<Rightarrow> jstext + arb_accounts" where
  "load_accounts addressOf env =
     (case requiredPrivateKeyEnv env ''ARBITRUM_ORCHESTRATOR_PRIVATE_KEY'' of Inl e \<Rightarrow> Inl e
      | Inr okey \<Rightarrow> (case addressOf okey of Inl e \<Rightarrow> Inl e
      | Inr orchestrator \<Rightarrow>
         (let entries = collectSolverPrivateKeyEnvEntries env
          in if entries = []
             then Inl (js ''ARBITRUM_SOLVER_PRIVATE_KEY (or ARBITRUM_SOLVER_PRIVATE_KEY_1) must be set in .env'')
             else (case resolveSolverAccounts addressOf entries of Inl e \<Rightarrow> Inl e
               | Inr accounts \<Rightarrow> Inr \<lparr>ac_orchestrator = orchestrator, ac_solvers = accounts\<rparr>))))"

definition configuredSolverAddresses :: "arb_accounts \<Rightarrow> string list" where
  "configuredSolverAddresses accounts = map sa_address (ac_solvers accounts)"

section \<open>The Arbitrum gate\<close>

record arb_gate_params =
  gp_maxTransferWei :: int
  gp_solverBalanceWei :: int
  gp_gasBufferWei :: int
  gp_nowSec :: int
  gp_deliveryMarginSec :: jsnum

record arb_gate_result =
  ag_ok :: bool
  ag_failedChecks :: "string list"

definition collateral_for :: "int \<Rightarrow> int" where
  "collateral_for amount = bigdiv (amount * 150) 100"

definition push_if :: "bool \<Rightarrow> string \<Rightarrow> string list" where
  "push_if b name = (if b then [name] else [])"

definition evaluateArbitrumGate :: "proof_json \<Rightarrow> arb_gate_params \<Rightarrow> jstext + arb_gate_result" where
  "evaluateArbitrumGate json params =
     (case js_BigInt (pj_amount json) of
        Inl e \<Rightarrow> Inl e
      | Inr amount \<Rightarrow>
          (let requiredCollateral = collateral_for amount;
               failed = push_if (toLowerCase (pj_token_address json) \<noteq> ZERO_ADDRESS) ''token_not_native''
                 @ push_if (amount > gp_maxTransferWei params) ''amount_exceeds_max_transfer''
                 @ push_if (gp_solverBalanceWei params < requiredCollateral + gp_gasBufferWei params)
                     ''insufficient_solver_balance''
                 @ push_if (js_le (js_sub (num_of_int (pj_expiry json)) (gp_deliveryMarginSec params))
                     (num_of_int (gp_nowSec params))) ''too_close_to_expiry''
           in Inr \<lparr>ag_ok = (failed = []), ag_failedChecks = failed\<rparr>))"

section \<open>The loops over the numbered keys end at the first gap\<close>

lemma show_nat_inj: "show_nat i = show_nat j \<longleftrightarrow> i = j"
  by (metis option.inject parse_show_nat)

lemma solver_var_inj: "inj solver_var"
  by (rule injI) (simp add: solver_var_def show_nat_inj)

lemma env_set_in: "env_set env name = Some v \<Longrightarrow> name \<in> fst ` set env"
  by (auto simp: env_set_def split: option.splits list.splits dest!: map_of_SomeD intro: rev_image_eqI)

text \<open>A run of set variables is no longer than the environment.\<close>

lemma set_run_bound:
  assumes "\<And>i. m \<le> i \<Longrightarrow> i < m + n \<Longrightarrow> env_truthy env (solver_var i)"
  shows "n \<le> length env"
proof -
  have "solver_var ` {m..<m + n} \<subseteq> fst ` set env"
  proof
    fix x assume "x \<in> solver_var ` {m..<m + n}"
    then obtain i where "m \<le> i" "i < m + n" "x = solver_var i" by auto
    with assms [of i] show "x \<in> fst ` set env"
      by (metis env_set_in env_truthy_def not_None_eq)
  qed
  then have "card (solver_var ` {m..<m + n}) \<le> card (fst ` set env)"
    by (intro card_mono) auto
  also have "\<dots> \<le> length env"
    by (metis card_image_le card_length finite_set le_trans)
  finally show ?thesis
    using card_image [of solver_var "{m..<m + n}"] solver_var_inj by (simp add: inj_on_subset)
qed

definition first_gap :: "env_vars \<Rightarrow> nat \<Rightarrow> bool" where
  "first_gap env n \<longleftrightarrow> (\<forall>i. 1 \<le> i \<and> i \<le> n \<longrightarrow> env_truthy env (solver_var i)) \<and>
     \<not> env_truthy env (solver_var (n + 1))"

lemma contiguous_first_gap:
  assumes "\<forall>j. 1 \<le> j \<and> j \<le> i \<longrightarrow> env_truthy env (solver_var j)" "length env < i + n"
  shows "first_gap env (contiguous_keys n env i)"
  using assms
proof (induction n env i rule: contiguous_keys.induct)
  case (1 env i)
  then show ?case using set_run_bound [of 1 i env] by simp
next
  case (2 n env i)
  show ?case
  proof (cases "env_truthy env (solver_var (i + 1))")
    case True
    have "\<forall>j. 1 \<le> j \<and> j \<le> i + 1 \<longrightarrow> env_truthy env (solver_var j)"
      using 2(2) True by (auto simp: le_Suc_eq)
    with 2(1) [OF True] 2(3) True show ?thesis by simp
  next
    case False
    with 2(2) show ?thesis by (simp add: first_gap_def)
  qed
qed

lemma first_gap_unique: "first_gap env n \<Longrightarrow> first_gap env m \<Longrightarrow> n = m"
proof -
  have "first_gap env n \<Longrightarrow> first_gap env m \<Longrightarrow> n \<le> m" for n m
    by (rule ccontr) (auto simp: first_gap_def not_le dest: spec [of _ "m + 1"])
  then show "first_gap env n \<Longrightarrow> first_gap env m \<Longrightarrow> n = m"
    by (meson le_antisym)
qed

lemma numbered_keys_upto:
  assumes "\<forall>j. i \<le> j \<and> j < i + m \<longrightarrow> env_truthy env (solver_var j)"
    "\<not> env_truthy env (solver_var (i + m))" "m < n"
  shows "numbered_keys n env i =
    map (\<lambda>j. \<lparr>ke_envVarName = solver_var j, ke_privateKey = the (env_set env (solver_var j))\<rparr>) [i..<i + m]"
  using assms
proof (induction m arbitrary: i n)
  case 0
  then obtain k where "n = Suc k" by (cases n) auto
  with 0 show ?case by (simp add: env_truthy_def)
next
  case (Suc m)
  then obtain k where n: "n = Suc k" "m < k" by (cases n) auto
  obtain v where v: "env_set env (solver_var i) = Some v"
    using Suc.prems(1) by (auto simp: env_truthy_def)
  have "numbered_keys k env (i + 1) =
    map (\<lambda>j. \<lparr>ke_envVarName = solver_var j, ke_privateKey = the (env_set env (solver_var j))\<rparr>) [i + 1..<i + 1 + m]"
    using Suc.prems n by (intro Suc.IH) auto
  then show ?case using n v by (simp add: upt_conv_Cons del: upt_Suc)
qed

section \<open>Solver accounts are distinct\<close>

lemma resolve_from_ok:
  "resolve_from addressOf seenBy ks = Inr out \<Longrightarrow>
   map sa_envVarName out = map ke_envVarName ks \<and>
   map (\<lambda>a. Inr (sa_address a)) out = map (\<lambda>k. addressOf (ke_privateKey k)) ks \<and>
   distinct (map (\<lambda>a. toLowerCase (sa_address a)) out) \<and>
   (\<forall>a \<in> set out. jget seenBy (toLowerCase (sa_address a)) = None)"
proof (induction ks arbitrary: seenBy out)
  case (Cons k ks)
  then obtain a rest where a: "addressOf (ke_privateKey k) = Inr a" "jget seenBy (toLowerCase a) = None"
    "resolve_from addressOf (jput (toLowerCase a) (ke_envVarName k) seenBy) ks = Inr rest"
    "out = \<lparr>sa_envVarName = ke_envVarName k, sa_address = a\<rparr> # rest"
    by (auto split: sum.splits option.splits)
  from Cons.IH [OF a(3)] a show ?case by (auto split: if_splits)
qed simp

section \<open>Properties\<close>

text \<open>C17: The solver keys that are loaded are \<^verbatim>\<open>ARBITRUM_SOLVER_PRIVATE_KEY_1\<close> up to the first
  number that is not set, all of them and in order; only when there is none is the legacy variable
  the one key; and the loops end there (the fuel never cuts them short).\<close>

theorem collect_keys_spec:
  "\<exists>n. first_gap env n \<and>
     collectSolverPrivateKeyEnvEntries env =
       (if n = 0 then (case env_set env legacy_var of None \<Rightarrow> []
            | Some key \<Rightarrow> [\<lparr>ke_envVarName = legacy_var, ke_privateKey = key\<rparr>])
        else map (\<lambda>i. \<lparr>ke_envVarName = solver_var i, ke_privateKey = the (env_set env (solver_var i))\<rparr>) [1..<n + 1])"
proof -
  define n where "n = contiguous_keys (Suc (length env)) env 0"
  have gap: "first_gap env n"
    unfolding n_def by (rule contiguous_first_gap) auto
  then have "n \<le> length env"
    using set_run_bound [of 1 n env] by (auto simp: first_gap_def)
  then have "numbered_keys (Suc (length env)) env 1 =
    map (\<lambda>i. \<lparr>ke_envVarName = solver_var i, ke_privateKey = the (env_set env (solver_var i))\<rparr>) [1..<1 + n]"
    using gap by (intro numbered_keys_upto) (auto simp: first_gap_def)
  with gap show ?thesis
    by (intro exI [of _ n])
      (auto simp: collectSolverPrivateKeyEnvEntries_def Let_def simp del: upt_Suc split: option.split)
qed

text \<open>C18: When the accounts resolve, they are the entries in order with the address of each key, and
  no two of them have the same address in any spelling.\<close>

theorem resolveSolverAccounts_ok:
  assumes "resolveSolverAccounts addressOf entries = Inr accounts"
  shows "map sa_envVarName accounts = map ke_envVarName entries
    \<and> map (\<lambda>a. Inr (sa_address a)) accounts = map (\<lambda>k. addressOf (ke_privateKey k)) entries
    \<and> distinct (map (\<lambda>a. toLowerCase (sa_address a)) accounts)"
  using resolve_from_ok [of addressOf "[]" entries accounts] assms
  by (simp add: resolveSolverAccounts_def)

definition two_keys :: "key_entry list" where
  "two_keys = [\<lparr>ke_envVarName = solver_var 1, ke_privateKey = ''k1''\<rparr>,
     \<lparr>ke_envVarName = solver_var 2, ke_privateKey = ''k2''\<rparr>]"

theorem resolveSolverAccounts_witness:
  "resolveSolverAccounts (\<lambda>k. Inr (''0xA'' @ k)) two_keys =
     Inr [\<lparr>sa_envVarName = solver_var 1, sa_address = ''0xAk1''\<rparr>,
          \<lparr>sa_envVarName = solver_var 2, sa_address = ''0xAk2''\<rparr>] \<and>
   distinct [toLowerCase ''0xAk1'', toLowerCase ''0xAk2'']"
proof -
  have run: "resolveSolverAccounts (\<lambda>k. Inr (''0xA'' @ k)) two_keys =
     Inr [\<lparr>sa_envVarName = solver_var 1, sa_address = ''0xAk1''\<rparr>,
          \<lparr>sa_envVarName = solver_var 2, sa_address = ''0xAk2''\<rparr>]"
    by code_simp
  from resolveSolverAccounts_ok [OF run] run show ?thesis by simp
qed

text \<open>C19: A configuration that loads keeps the confirm-retry deadline below the contract's 24 hour
  refund grace, unless the setting is not a number at all, and every backoff is finite and positive.\<close>

theorem load_config_ok:
  assumes "load_config env = Inr cfg"
  shows "(cg_confirmMaxSecAfterExpiry cfg = NaN \<or>
      js_lt (cg_confirmMaxSecAfterExpiry cfg) (num_of_int CLAIM_REFUND_GRACE_SEC))
    \<and> list_all (\<lambda>b. js_isFinite b \<and> js_lt (Num 0) b) (cg_confirmBackoffMs cfg)"
proof -
  have lt: "x = NaN \<or> js_lt x (Num b)" if "\<not> js_le (Num b) x" for x b
    using that by (cases x) (auto simp: js_le_def)
  have "\<not> js_le (num_of_int CLAIM_REFUND_GRACE_SEC) (cg_confirmMaxSecAfterExpiry cfg)"
    "\<exists>s. cg_confirmBackoffMs cfg = parse_backoff s"
    using assms by (auto simp: load_config_def Let_def split: sum.splits if_splits)
  then show ?thesis
    using lt by (auto simp: parse_backoff_def list_all_iff)
qed

definition small_env :: env_vars where
  "small_env = [(''MAX_TRANSFER_WEI'', ''90''), (''ARBITRUM_GAS_BUFFER_WEI'', ''9''), (''DELIVERY_MARGIN_SEC'', ''6''),
     (''SOLANA_PAYOUT_RETRY_INTERVAL_MS'', ''3''), (''POST_COLLATERAL_VERIFY_ATTEMPTS'', ''2''),
     (''POST_COLLATERAL_VERIFY_DELAY_MS'', ''2''), (''CONFIRM_RETRY_BACKOFF_MS'', ''6, 0,x,30'')]"

theorem load_config_ok_witness:
  "\<exists>cfg. load_config ((''CONFIRM_RETRY_MAX_SEC_AFTER_EXPIRY'', ''72'') # small_env) = Inr cfg \<and>
     cg_confirmMaxSecAfterExpiry cfg = Num 72 \<and> cg_confirmBackoffMs cfg = [Num 6, Num 30] \<and>
     js_lt (cg_confirmMaxSecAfterExpiry cfg) (num_of_int CLAIM_REFUND_GRACE_SEC)"
proof -
  let ?r = "load_config ((''CONFIRM_RETRY_MAX_SEC_AFTER_EXPIRY'', ''72'') # small_env)"
  have run: "?r = Inr (projr ?r)" by code_simp
  have "cg_confirmMaxSecAfterExpiry (projr ?r) = Num 72" by code_simp
  moreover have "cg_confirmBackoffMs (projr ?r) = [Num 6, Num 30]" by code_simp
  ultimately show ?thesis
    using load_config_ok [OF run] run by auto
qed

text \<open>C20: The guard at start-up is no guard against a value that is no number. Whatever the environment,
  if the module loads with some retry deadline, it also loads with any text that does not parse as a
  number in its place: the deadline is then NaN and every other setting what it was, and no time on
  the clock is past such a deadline.\<close>

theorem load_config_accepts_NaN:
  assumes "load_config env = Inr cfg" and "js_Number text = NaN"
  shows "\<exists>cfg'. load_config ((''CONFIRM_RETRY_MAX_SEC_AFTER_EXPIRY'', text) # env) = Inr cfg' \<and>
    cfg' = cfg\<lparr>cg_confirmMaxSecAfterExpiry := NaN\<rparr> \<and>
    (\<forall>expiry now. \<not> js_le (js_add expiry (cg_confirmMaxSecAfterExpiry cfg')) now)"
  using assms by (auto simp: load_config_def Let_def env_number_def split: sum.splits if_splits)

theorem load_config_accepts_NaN_witness:
  "\<exists>cfg. load_config ((''CONFIRM_RETRY_MAX_SEC_AFTER_EXPIRY'', ''20h'') #
       (''CONFIRM_RETRY_MAX_SEC_AFTER_EXPIRY'', ''72'') # small_env) =
     Inr (cfg\<lparr>cg_confirmMaxSecAfterExpiry := NaN\<rparr>)"
proof -
  let ?r = "load_config ((''CONFIRM_RETRY_MAX_SEC_AFTER_EXPIRY'', ''72'') # small_env)"
  have run: "?r = Inr (projr ?r)" by code_simp
  have "js_Number ''20h'' = NaN" by code_simp
  from load_config_accepts_NaN [OF run this] show ?thesis by metis
qed

text \<open>C21: With a numeric delivery margin, the Arbitrum gate passes exactly when the amount is an
  integer within the limit, the token is the native one, the solver can pay one and a half times the
  amount (rounded down) and the gas buffer, and the margin before the expiry has not begun; an amount
  that is no integer is an exception.\<close>

theorem evaluateArbitrumGate_spec:
  assumes "gp_deliveryMarginSec params = Num margin"
  shows "(case evaluateArbitrumGate json params of
       Inl e \<Rightarrow> bigint_of (pj_amount json) = None
     | Inr g \<Rightarrow> (\<exists>amount. bigint_of (pj_amount json) = Some amount \<and>
         ag_ok g = (toLowerCase (pj_token_address json) = ZERO_ADDRESS \<and>
            amount \<le> gp_maxTransferWei params \<and>
            bigdiv (amount * 150) 100 + gp_gasBufferWei params \<le> gp_solverBalanceWei params \<and>
            of_int (gp_nowSec params) < of_int (pj_expiry json) - margin) \<and>
         (ag_ok g = (ag_failedChecks g = []))))"
  using assms
  by (auto simp: evaluateArbitrumGate_def js_BigInt_def Let_def push_if_def collateral_for_def
      not_less not_le split: option.split)

definition sample_proof :: proof_json where
  "sample_proof = \<lparr>pj_tx_hash = ''0xt'', pj_mode = ''prove'', pj_vkey = ''0xv'', pj_block_hash = ''0xb'',
     pj_block_number = 7, pj_block_timestamp = 100, pj_contract = ''0xc'', pj_intent_id = ''0xab'',
     pj_sender = ''0xs'', pj_amount = ''100'', pj_token_address = ZERO_ADDRESS,
     pj_destination_wallet = ''0xd'', pj_destination_chain_id = 1399811149, pj_expiry = 5000,
     pj_slippage_bps = 0\<rparr>"

definition sample_params :: arb_gate_params where
  "sample_params = \<lparr>gp_maxTransferWei = 100, gp_solverBalanceWei = 160, gp_gasBufferWei = 10,
     gp_nowSec = 1000, gp_deliveryMarginSec = Num 600\<rparr>"

theorem evaluateArbitrumGate_witness:
  "(case evaluateArbitrumGate sample_proof sample_params of
       Inl e \<Rightarrow> False
     | Inr g \<Rightarrow> ag_ok g \<and> (\<exists>amount. bigint_of (pj_amount sample_proof) = Some amount \<and>
         amount \<le> gp_maxTransferWei sample_params))"
proof -
  have m: "gp_deliveryMarginSec sample_params = Num 600" by (simp add: sample_params_def)
  have run: "evaluateArbitrumGate sample_proof sample_params = Inr \<lparr>ag_ok = True, ag_failedChecks = []\<rparr>"
    by code_simp
  from evaluateArbitrumGate_spec [OF m, of sample_proof] show ?thesis
    unfolding run by auto
qed

end
