(* ===== verification/Arb_Settlement.thy ===== *)
theory Arb_Settlement
  imports Arb_Ledger Prover_Pipeline Arb_Config
begin

text \<open>
  The settlement sequence of \<^verbatim>\<open>arbitrum_settlement.ts\<close>: what one transaction does
  (\<open>signAndSend\<close>), the operations injected into the state machine (\<open>deps\<close>), the sequence
  collateral, on-chain check, Solana payout, confirmation, its resumption, the slash poller and
  the reconciliation at start-up. Loops that wait take a fuel argument and end in \<open>Stop\<close>, like a
  process that is killed, when it runs out.
\<close>

section \<open>Injected operations\<close>

record 'e deps =
  d_solverAddress :: string
  d_orchestratorAddress :: string
  d_getSolverBalanceWei :: "('e world, int) js"
  d_readIntent :: "string \<Rightarrow> ('e world, on_chain_intent) js"
  d_postCollateral :: "string \<Rightarrow> int \<Rightarrow> (string \<Rightarrow> ('e world, unit) js) \<Rightarrow> ('e world, tx_outcome) js"
  d_confirmSettlement :: "string \<Rightarrow> string \<Rightarrow> (string \<Rightarrow> ('e world, unit) js) \<Rightarrow> ('e world, tx_outcome) js"
  d_slashSolver :: "string \<Rightarrow> (string \<Rightarrow> ('e world, unit) js) \<Rightarrow> ('e world, tx_outcome) js"
  d_runSolanaPayout :: "string \<Rightarrow> ('e world, payout_result) js"
  d_checkSolanaSignatureLanded :: "string \<Rightarrow> ('e world, bool) js"
  d_nowSec :: "('e world, int) js"
  d_routing :: "routing_fields option"

text \<open>
  \<^verbatim>\<open>signAndSend\<close>: prepare and sign, let the caller record the hash, broadcast, wait. Whatever is
  thrown, also by the caller's record, becomes an outcome that is not ok and has no hash.
\<close>

definition signAndSend :: "'e os \<Rightarrow> tx_req \<Rightarrow> (string \<Rightarrow> ('e world, unit) js) \<Rightarrow> ('e world, tx_outcome) js" where
  "signAndSend S req onSigned =
     js_catch
       (sq (ext (os_prepare S req))
       (bnd (ext (os_sign S req)) (\<lambda>serialized.
        let hash = os_keccak S serialized in
        sq (onSigned hash)
        (sq (emit (Ev_send req hash))
        (sq (ext (os_sendRaw S serialized))
        (bnd (ext (os_waitReceipt S hash)) (\<lambda>success.
          js_ret \<lparr>to_ok = success, to_txHash = Some hash,
            to_error = (if success then None else Some (js ''reverted''))\<rparr>)))))))
       (\<lambda>e. js_ret \<lparr>to_ok = False, to_txHash = None, to_error = Some e\<rparr>)"

text \<open>
  \<^verbatim>\<open>buildRealDeps\<close>: the solver's account by its address in any spelling, or an exception; the
  wallet, not the arguments, decides which account signs.
\<close>

definition tx_for :: "tx_fn \<Rightarrow> string \<Rightarrow> string \<Rightarrow> string \<Rightarrow> string option \<Rightarrow> int \<Rightarrow> tx_req" where
  "tx_for fn account manager intentId proofHash val =
     \<lparr>tr_fn = fn, tr_account = account, tr_intentId = intentId, tr_proofHash = proofHash,
      tr_value = val, tr_to = manager\<rparr>"

definition find_solver :: "arb_accounts \<Rightarrow> string \<Rightarrow> solver_account option" where
  "find_solver accounts solverAddress =
     List.find (\<lambda>cfg. toLowerCase (sa_address cfg) = toLowerCase solverAddress) (ac_solvers accounts)"

definition settlement_deps ::
  "'e os \<Rightarrow> string \<Rightarrow> string \<Rightarrow> (string \<Rightarrow> ('e world, payout_result) js) \<Rightarrow>
   (string \<Rightarrow> ('e world, bool) js) \<Rightarrow> string \<Rightarrow> 'e deps" where
  "settlement_deps S orchestrator manager runSolanaPayout checkLanded solver =
     \<lparr>d_solverAddress = solver,
      d_orchestratorAddress = orchestrator,
      d_getSolverBalanceWei = ext (os_balance S solver),
      d_readIntent = (\<lambda>intentId. ext (os_intents S intentId)),
      d_postCollateral = (\<lambda>intentId valueWei onSigned.
        signAndSend S (tx_for PostCollateral solver manager intentId None valueWei) onSigned),
      d_confirmSettlement = (\<lambda>intentId zkProofHash onSigned.
        signAndSend S (tx_for ConfirmSettlement orchestrator manager intentId (Some zkProofHash) 0) onSigned),
      d_slashSolver = (\<lambda>intentId onSigned.
        signAndSend S (tx_for SlashSolver orchestrator manager intentId None 0) onSigned),
      d_runSolanaPayout = runSolanaPayout,
      d_checkSolanaSignatureLanded = checkLanded,
      d_nowSec = now_sec S,
      d_routing = None\<rparr>"

definition buildRealDeps ::
  "'e os \<Rightarrow> arb_accounts \<Rightarrow> string \<Rightarrow> (string \<Rightarrow> ('e world, payout_result) js) \<Rightarrow>
   (string \<Rightarrow> ('e world, bool) js) \<Rightarrow> string \<Rightarrow> jstext + 'e deps" where
  "buildRealDeps S accounts manager runSolanaPayout checkLanded solverAddress =
     (case find_solver accounts solverAddress of
        None \<Rightarrow> Inl (js (''buildRealDeps: '' @ solverAddress @
          '' is not among the configured ARBITRUM_SOLVER_PRIVATE_KEY* accounts''))
      | Some cfg \<Rightarrow> Inr (settlement_deps S (ac_orchestrator accounts) manager runSolanaPayout checkLanded
          (sa_address cfg)))"

text \<open>The default of the last argument is the first configured solver.\<close>

definition defaultSolverAddress :: "arb_accounts \<Rightarrow> string" where
  "defaultSolverAddress accounts = sa_address (hd (ac_solvers accounts))"

definition isSolverApprovedOnChain :: "'e os \<Rightarrow> string \<Rightarrow> ('e world, bool) js" where
  "isSolverApprovedOnChain S solverAddress = ext (os_approved S solverAddress)"

record approval_status =
  av_envVarName :: string
  av_address :: string
  av_approved :: bool

fun checkSolverApprovals :: "'e os \<Rightarrow> solver_account list \<Rightarrow> ('e world, approval_status list) js" where
  "checkSolverApprovals S [] = js_ret []"
| "checkSolverApprovals S (cfg # cfgs) =
     bnd (isSolverApprovedOnChain S (sa_address cfg)) (\<lambda>approved.
     bnd (checkSolverApprovals S cfgs) (\<lambda>out.
       js_ret (\<lparr>av_envVarName = sa_envVarName cfg, av_address = sa_address cfg,
                av_approved = approved\<rparr> # out)))"

section \<open>Reading the intent after the collateral\<close>

definition looks_stale :: "on_chain_intent \<Rightarrow> bool" where
  "looks_stale onChain \<longleftrightarrow> toLowerCase (oi_solver onChain) = ZERO_ADDRESS \<and>
     oi_status onChain = INTENT_STATUS_PENDING"

fun reread_while_stale ::
  "nat \<Rightarrow> 'e os \<Rightarrow> arb_config \<Rightarrow> 'e deps \<Rightarrow> string \<Rightarrow> nat \<Rightarrow> on_chain_intent \<Rightarrow> ('e world, on_chain_intent) js"
  where
  "reread_while_stale 0 S cfg deps intentId attempt onChain = js_stop"
| "reread_while_stale (Suc fuel) S cfg deps intentId attempt onChain =
     (if js_lt (num_of_int (int attempt)) (cg_verifyAttempts cfg) \<and> looks_stale onChain then
        sq (sleep S (cg_verifyDelayMs cfg))
        (bnd (d_readIntent deps intentId) (\<lambda>onChain'.
           reread_while_stale fuel S cfg deps intentId (attempt + 1) onChain'))
      else js_ret onChain)"

definition readIntentAfterPostCollateral ::
  "nat \<Rightarrow> 'e os \<Rightarrow> arb_config \<Rightarrow> 'e deps \<Rightarrow> string \<Rightarrow> ('e world, on_chain_intent) js" where
  "readIntentAfterPostCollateral fuel S cfg deps intentId =
     bnd (d_readIntent deps intentId) (\<lambda>onChain. reread_while_stale fuel S cfg deps intentId 1 onChain)"

section \<open>Records and display\<close>

definition mirrorDisplay :: "'e os \<Rightarrow> string \<Rightarrow> arb_status_patch \<Rightarrow> ('e world, unit) js" where
  "mirrorDisplay S intentId patch = setArbitrumSettlement S intentId patch"

text \<open>The routing fields a ledger patch carries; without a reason nothing is mirrored.\<close>

definition mirrorRouting :: "'e os \<Rightarrow> string \<Rightarrow> routing_fields option \<Rightarrow> ('e world, unit) js" where
  "mirrorRouting S intentId routing = (case routing of
       None \<Rightarrow> js_ret ()
     | Some r \<Rightarrow> setSolverRouting S intentId
         \<lparr>sr_solver = rf_selectedSolver r, sr_tier = rf_tierAtSelection r, sr_reason = rf_routingReason r\<rparr>)"

text \<open>\<^verbatim>\<open>...deps.routing\<close>: \<^verbatim>\<open>collateralWei\<close> is an optional property.\<close>

definition with_routing :: "routing_fields option \<Rightarrow> arb_patch \<Rightarrow> arb_patch" where
  "with_routing routing patch = (case routing of
       None \<Rightarrow> patch
     | Some r \<Rightarrow> patch\<lparr>ap_selectedSolver := Val (rf_selectedSolver r),
         ap_tierAtSelection := Val (rf_tierAtSelection r),
         ap_routingReason := Val (rf_routingReason r),
         ap_collateralWei := (case rf_collateralWei r of None \<Rightarrow> ap_collateralWei patch | Some v \<Rightarrow> Val v)\<rparr>)"

definition hex_id :: "string \<Rightarrow> string" where
  "hex_id intentId = toLowerCase (strip0x intentId)"

definition alert_and_record :: "'e os \<Rightarrow> string \<Rightarrow> string \<Rightarrow> jstext \<Rightarrow> ('e world, unit) js" where
  "alert_and_record S shown intentId reason =
     sq (alert_intent S shown reason) (recordAlertReason S intentId reason)"

definition refuseArbitrumSettlement ::
  "'e os \<Rightarrow> string \<Rightarrow> proof_json \<Rightarrow> jstext \<Rightarrow> routing_fields option \<Rightarrow> ('e world, unit) js" where
  "refuseArbitrumSettlement S intentId json reason ledgerPatch =
     sq (alert_and_record S (''0x'' @ hex_id intentId) intentId reason)
     (sq (setArbitrumStage S intentId Collateral_failed
           ((with_routing ledgerPatch no_patch)\<lparr>ap_expiry := Val (pj_expiry json)\<rparr>))
     (sq (mirrorRouting S intentId ledgerPatch)
         (mirrorDisplay S intentId ((stage_patch Collateral_failed)\<lparr>asp_reason := Val reason\<rparr>))))"

definition computeZkProofHash :: "'e os \<Rightarrow> string \<Rightarrow> ('e world, string) js" where
  "computeZkProofHash S intentIdHex =
     bnd (js_get (\<lambda>w. os_proofBin S intentIdHex (w_env w))) (\<lambda>bytes.
     bnd (js_lift bytes) (\<lambda>b. js_ret (''0x'' @ os_sha256 S b)))"

definition error_or_unknown :: "jstext option \<Rightarrow> jstext" where
  "error_or_unknown e = (case e of None \<Rightarrow> js ''unknown'' | Some m \<Rightarrow> m)"

section \<open>Confirming, with retries\<close>

text \<open>
  \<^verbatim>\<open>CONFIRM_RETRY_BACKOFF_MS[Math.min(attempt - 1, length - 1)]\<close>; of an empty list that is
  \<^verbatim>\<open>undefined\<close>, which \<^verbatim>\<open>setTimeout\<close> takes like NaN.
\<close>

definition confirm_backoff :: "arb_config \<Rightarrow> nat \<Rightarrow> jsnum" where
  "confirm_backoff cfg attempt = (let b = cg_confirmBackoffMs cfg in
     if b = [] then NaN else b ! min (attempt - 1) (length b - 1))"

definition num_text :: "jsnum \<Rightarrow> jstext" where
  "num_text n = (case n of NaN \<Rightarrow> js ''NaN'' | PosInf \<Rightarrow> js ''Infinity'' | NegInf \<Rightarrow> js ''-Infinity''
     | Num q \<Rightarrow> js (bigint_toString \<lfloor>q\<rfloor>))"

definition confirm_stuck_reason :: "arb_config \<Rightarrow> nat \<Rightarrow> jstext option \<Rightarrow> jstext" where
  "confirm_stuck_reason cfg attempt e =
     js (''confirmSettlement failed '' @ show_nat attempt @ '' time(s) (last: '') @ error_or_unknown e @
     js '') and the retry deadline (expiry + '' @ num_text (cg_confirmMaxSecAfterExpiry cfg) @
     js ''s) has passed '' @ emdash @
     js '' escrow + collateral STUCK, needs manual review before the 24h claimRefund window''"

definition confirm_resolved_reason :: "int \<Rightarrow> jstext" where
  "confirm_resolved_reason status =
     js (''intent was '' @ (if status = INTENT_STATUS_SLASHED then ''Slashed'' else ''Refunded'') @
         '' on-chain while confirmSettlement was retrying '') @ emdash @ js '' stopping''"

text \<open>The record made of the confirmation between signing and broadcast.\<close>

definition record_confirming :: "'e os \<Rightarrow> string \<Rightarrow> proof_json \<Rightarrow> string \<Rightarrow> ('e world, unit) js" where
  "record_confirming S intentId json hash =
     sq (setArbitrumStage S intentId Confirming
          (no_patch\<lparr>ap_confirmTxHash := Val hash, ap_expiry := Val (pj_expiry json)\<rparr>))
        (mirrorDisplay S intentId ((stage_patch Confirming)\<lparr>asp_confirmTxHash := Val hash\<rparr>))"

fun confirm_attempts ::
  "nat \<Rightarrow> 'e os \<Rightarrow> arb_config \<Rightarrow> 'e deps \<Rightarrow> string \<Rightarrow> proof_json \<Rightarrow> string \<Rightarrow> nat \<Rightarrow> ('e world, unit) js"
  where
  "confirm_attempts 0 S cfg deps intentId json zkProofHash attempt = js_stop"
| "confirm_attempts (Suc fuel) S cfg deps intentId json zkProofHash attempt =
     bnd (d_readIntent deps intentId) (\<lambda>onChain.
     if oi_status onChain = INTENT_STATUS_SETTLED then
       sq (setArbitrumStage S intentId Confirmed (no_patch\<lparr>ap_expiry := Val (pj_expiry json)\<rparr>))
          (mirrorDisplay S intentId (stage_patch Confirmed))
     else if oi_status onChain = INTENT_STATUS_SLASHED \<or> oi_status onChain = INTENT_STATUS_REFUNDED then
       alert_and_record S (''0x'' @ hex_id intentId) intentId (confirm_resolved_reason (oi_status onChain))
     else
       bnd (d_confirmSettlement deps intentId zkProofHash (record_confirming S intentId json)) (\<lambda>outcome.
       if to_ok outcome then
         sq (setArbitrumStage S intentId Confirmed
              (no_patch\<lparr>ap_confirmTxHash := fld_of (to_txHash outcome), ap_expiry := Val (pj_expiry json)\<rparr>))
            (mirrorDisplay S intentId
              ((stage_patch Confirmed)\<lparr>asp_confirmTxHash := fld_of (to_txHash outcome)\<rparr>))
       else
         bnd (d_nowSec deps) (\<lambda>nowSec.
         if js_le (js_add (num_of_int (pj_expiry json)) (cg_confirmMaxSecAfterExpiry cfg)) (num_of_int nowSec) then
           sq (alert_and_record S (''0x'' @ hex_id intentId) intentId
                (confirm_stuck_reason cfg attempt (to_error outcome)))
              (mirrorDisplay S intentId
                ((stage_patch Confirming)\<lparr>asp_confirmTxHash := fld_of (to_txHash outcome),
                   asp_reason := Val (confirm_stuck_reason cfg attempt (to_error outcome))\<rparr>))
         else
           sq (sleep S (confirm_backoff cfg attempt))
              (confirm_attempts fuel S cfg deps intentId json zkProofHash (attempt + 1)))))"

definition confirmSettlementWithRetry ::
  "nat \<Rightarrow> 'e os \<Rightarrow> arb_config \<Rightarrow> 'e deps \<Rightarrow> string \<Rightarrow> proof_json \<Rightarrow> string \<Rightarrow> ('e world, unit) js" where
  "confirmSettlementWithRetry fuel S cfg deps intentId json zkProofHash =
     confirm_attempts fuel S cfg deps intentId json zkProofHash 1"

section \<open>From posted collateral to the end\<close>

definition before_payout_deadline :: "arb_config \<Rightarrow> proof_json \<Rightarrow> int \<Rightarrow> bool" where
  "before_payout_deadline cfg json nowSec \<longleftrightarrow>
     js_lt (num_of_int nowSec) (js_sub (num_of_int (pj_expiry json)) (cg_deliveryMarginSec cfg))"

fun payout_attempts ::
  "nat \<Rightarrow> 'e os \<Rightarrow> arb_config \<Rightarrow> 'e deps \<Rightarrow> proof_json \<Rightarrow> string \<Rightarrow> payout_result \<Rightarrow> ('e world, payout_result) js"
  where
  "payout_attempts 0 S cfg deps json zkProofHash result = js_stop"
| "payout_attempts (Suc fuel) S cfg deps json zkProofHash result =
     (if pr_ok result then js_ret result
      else bnd (d_nowSec deps) (\<lambda>nowSec.
        if before_payout_deadline cfg json nowSec then
          sq (sleep S (cg_payoutRetryMs cfg))
          (bnd (d_runSolanaPayout deps zkProofHash) (\<lambda>result'.
             payout_attempts fuel S cfg deps json zkProofHash result'))
        else js_ret result))"

definition check_failed_after_post :: "on_chain_intent \<Rightarrow> jstext" where
  "check_failed_after_post onChain =
     js (''on-chain check after postCollateral failed (solver='' @ oi_solver onChain @ '', status='' @
         bigint_toString (oi_status onChain) @ '') '') @ emdash @ js '' stopping, will NOT pay on Solana''"

definition payout_failed_reason :: "jstext option \<Rightarrow> jstext" where
  "payout_failed_reason e =
     js ''Solana payout never succeeded before expiry - DELIVERY_MARGIN_SEC (last error: '' @
     error_or_unknown e @ js '') '' @ emdash @ js '' awaiting expiry to slash the solver''"

definition resumeFromCollateralPosted ::
  "nat \<Rightarrow> 'e os \<Rightarrow> arb_config \<Rightarrow> 'e deps \<Rightarrow> string \<Rightarrow> proof_json \<Rightarrow> ('e world, unit) js" where
  "resumeFromCollateralPosted fuel S cfg deps intentId json =
     bnd (readIntentAfterPostCollateral fuel S cfg deps intentId) (\<lambda>onChain.
     if toLowerCase (oi_solver onChain) \<noteq> toLowerCase (d_solverAddress deps) \<or>
        oi_status onChain \<noteq> INTENT_STATUS_PENDING then
       alert_and_record S (''0x'' @ hex_id intentId) intentId (check_failed_after_post onChain)
     else
       bnd (computeZkProofHash S (hex_id intentId)) (\<lambda>zkProofHash.
       bnd (d_runSolanaPayout deps zkProofHash) (\<lambda>first.
       bnd (payout_attempts fuel S cfg deps json zkProofHash first) (\<lambda>result.
         if \<not> pr_ok result then
           sq (alert_and_record S (''0x'' @ hex_id intentId) intentId (payout_failed_reason (pr_error result)))
           (sq (setArbitrumStage S intentId Awaiting_expiry_slash (no_patch\<lparr>ap_expiry := Val (pj_expiry json)\<rparr>))
               (mirrorDisplay S intentId ((stage_patch Awaiting_expiry_slash)
                  \<lparr>asp_reason := Val (payout_failed_reason (pr_error result))\<rparr>)))
         else confirmSettlementWithRetry fuel S cfg deps intentId json zkProofHash))))"

section \<open>The whole sequence\<close>

definition in_progress_reason :: "arb_stage \<Rightarrow> jstext" where
  "in_progress_reason stage =
     js (''Arbitrum settlement already in progress or done (stage: '' @ stage_name stage @ '') '') @
     emdash @ js '' refusing to restart the sequence''"

definition gate_refused_reason :: "string list \<Rightarrow> jstext" where
  "gate_refused_reason failed =
     js (''Arbitrum settle gate REFUSED (failed: '' @ join_with '', '' failed @ '') '') @ emdash @
     js ('' not settled; user can reclaim on the source chain via cancelIntent after expiry (no solver '' @
         ''collateral) or claimRefund 24h after expiry (solver collateral posted)'')"

definition post_failed_reason :: "jstext option \<Rightarrow> jstext" where
  "post_failed_reason e = js ''postCollateral failed: '' @ error_or_unknown e"

text \<open>The record made of the collateral transaction between signing and broadcast.\<close>

definition record_posting :: "'e os \<Rightarrow> 'e deps \<Rightarrow> string \<Rightarrow> proof_json \<Rightarrow> string \<Rightarrow> ('e world, unit) js" where
  "record_posting S deps intentId json hash =
     sq (setArbitrumStage S intentId Posting_collateral (with_routing (d_routing deps)
          (no_patch\<lparr>ap_collateralTxHash := Val hash, ap_expiry := Val (pj_expiry json),
             ap_solver := Val (d_solverAddress deps)\<rparr>)))
     (sq (mirrorRouting S intentId (d_routing deps))
         (mirrorDisplay S intentId ((stage_patch Posting_collateral)\<lparr>asp_collateralTxHash := Val hash\<rparr>)))"

definition post_and_resume ::
  "nat \<Rightarrow> 'e os \<Rightarrow> arb_config \<Rightarrow> 'e deps \<Rightarrow> string \<Rightarrow> proof_json \<Rightarrow> ('e world, unit) js" where
  "post_and_resume fuel S cfg deps intentId json =
     bnd (js_lift (js_BigInt (pj_amount json))) (\<lambda>amount.
     bnd (d_postCollateral deps intentId (collateral_for amount) (record_posting S deps intentId json)) (\<lambda>outcome.
     if \<not> to_ok outcome then
       sq (alert_and_record S (''0x'' @ hex_id intentId) intentId (post_failed_reason (to_error outcome)))
       (sq (setArbitrumStage S intentId Collateral_failed ((with_routing (d_routing deps) no_patch)
             \<lparr>ap_collateralTxHash := fld_of (to_txHash outcome), ap_expiry := Val (pj_expiry json)\<rparr>))
       (sq (mirrorRouting S intentId (d_routing deps))
           (mirrorDisplay S intentId ((stage_patch Collateral_failed)
             \<lparr>asp_collateralTxHash := fld_of (to_txHash outcome),
              asp_reason := Val (post_failed_reason (to_error outcome))\<rparr>))))
     else
       sq (setArbitrumStage S intentId Collateral_posted
            (no_patch\<lparr>ap_collateralTxHash := fld_of (to_txHash outcome), ap_expiry := Val (pj_expiry json)\<rparr>))
       (sq (mirrorDisplay S intentId
             ((stage_patch Collateral_posted)\<lparr>asp_collateralTxHash := fld_of (to_txHash outcome)\<rparr>))
           (resumeFromCollateralPosted fuel S cfg deps intentId json))))"

definition start_sequence ::
  "nat \<Rightarrow> 'e os \<Rightarrow> arb_config \<Rightarrow> 'e deps \<Rightarrow> string \<Rightarrow> proof_json \<Rightarrow> ('e world, unit) js" where
  "start_sequence fuel S cfg deps intentId json =
     bnd (d_getSolverBalanceWei deps) (\<lambda>solverBalanceWei.
     bnd (d_nowSec deps) (\<lambda>nowSec.
     bnd (js_lift (evaluateArbitrumGate json
           \<lparr>gp_maxTransferWei = cg_maxTransferWei cfg, gp_solverBalanceWei = solverBalanceWei,
            gp_gasBufferWei = cg_gasBufferWei cfg, gp_nowSec = nowSec,
            gp_deliveryMarginSec = cg_deliveryMarginSec cfg\<rparr>)) (\<lambda>gate.
     if \<not> ag_ok gate then
       refuseArbitrumSettlement S intentId json (gate_refused_reason (ag_failedChecks gate)) (d_routing deps)
     else post_and_resume fuel S cfg deps intentId json)))"

definition runArbitrumSettlementSequence ::
  "nat \<Rightarrow> 'e os \<Rightarrow> arb_config \<Rightarrow> 'e deps \<Rightarrow> string \<Rightarrow> proof_json \<Rightarrow> ('e world, unit) js" where
  "runArbitrumSettlementSequence fuel S cfg deps intentId json =
     bnd (getArbitrumLedgerEntry intentId) (\<lambda>existing.
     case existing of Some entry \<Rightarrow>
       if ae_stage entry \<noteq> Collateral_failed then
         alert_and_record S (''0x'' @ hex_id intentId) intentId (in_progress_reason (ae_stage entry))
       else start_sequence fuel S cfg deps intentId json
     | None \<Rightarrow> start_sequence fuel S cfg deps intentId json)"

section \<open>The slash poller\<close>

definition landed_no_proof_reason :: "string option \<Rightarrow> string \<Rightarrow> jstext" where
  "landed_no_proof_reason sig intentIdHex =
     js (''awaiting_expiry_slash, but the Solana payout (sig '' @ (case sig of None \<Rightarrow> ''unknown'' | Some g \<Rightarrow> g) @
         '') is confirmed on Solana right now '') @ emdash @
     js '' refusing to slash a solver who delivered '' @ emdash @
     js ('' but proof_'' @ intentIdHex @ ''.json is missing/invalid, so confirmSettlement cannot be resumed automatically either '') @
     emdash @ js '' needs manual review.''"

text \<open>An optional text that is truthy.\<close>

definition truthy :: "string option \<Rightarrow> bool" where
  "truthy s \<longleftrightarrow> s \<noteq> None \<and> s \<noteq> Some []"

text \<open>The fresh check: the ledger's word when it says settled, else Solana's, if a signature is known.\<close>

definition solana_landed :: "'e deps \<Rightarrow> ledger_entry \<Rightarrow> ('e world, bool) js" where
  "solana_landed deps entry =
     (if le_status entry = L_settled then js_ret True
      else case le_solanaSig entry of
          Some sig \<Rightarrow> (if sig = [] then js_ret False else d_checkSolanaSignatureLanded deps sig)
        | None \<Rightarrow> js_ret False)"

text \<open>The ledger catches up with what the fresh check found.\<close>

definition mark_landed :: "'e os \<Rightarrow> string \<Rightarrow> ledger_entry \<Rightarrow> ('e world, unit) js" where
  "mark_landed S iid entry =
     (case le_solanaSig entry of
        Some sig \<Rightarrow> (if le_status entry \<noteq> L_settled \<and> sig \<noteq> []
          then sq (markSettled S iid) (setSettled S iid sig) else js_ret ())
      | None \<Rightarrow> js_ret ())"

definition resumeConfirmIfSolanaLanded ::
  "nat \<Rightarrow> 'e os \<Rightarrow> arb_config \<Rightarrow> 'e deps \<Rightarrow> string \<Rightarrow> string \<Rightarrow> ('e world, bool) js" where
  "resumeConfirmIfSolanaLanded fuel S cfg deps iid intentIdHex =
     bnd (getLedgerEntry iid) (\<lambda>ledgerEntry. case ledgerEntry of None \<Rightarrow> js_ret False
       | Some entry \<Rightarrow>
     bnd (solana_landed deps entry) (\<lambda>landed.
     if \<not> landed then js_ret False
     else
       sq (mark_landed S iid entry)
       (bnd (readProofJson S intentIdHex) (\<lambda>found. case found of
          None \<Rightarrow>
            sq (alert_and_record S iid iid (landed_no_proof_reason (le_solanaSig entry) intentIdHex)) (js_ret True)
        | Some json \<Rightarrow>
            bnd (computeZkProofHash S intentIdHex) (\<lambda>zkProofHash.
            sq (confirmSettlementWithRetry fuel S cfg deps iid json zkProofHash) (js_ret True))))))"

definition slash_failed_reason :: "jstext option \<Rightarrow> jstext" where
  "slash_failed_reason e = js ''slashSolver failed: '' @ error_or_unknown e"

definition record_slashing :: "'e os \<Rightarrow> string \<Rightarrow> string \<Rightarrow> ('e world, unit) js" where
  "record_slashing S iid hash =
     sq (setArbitrumStage S iid Slashing (no_patch\<lparr>ap_slashTxHash := Val hash\<rparr>))
        (mirrorDisplay S iid ((stage_patch Slashing)\<lparr>asp_slashTxHash := Val hash\<rparr>))"

definition slash_now :: "'e os \<Rightarrow> 'e deps \<Rightarrow> string \<Rightarrow> ('e world, unit) js" where
  "slash_now S deps iid =
     bnd (d_slashSolver deps iid (record_slashing S iid)) (\<lambda>outcome.
     if \<not> to_ok outcome then
       sq (alert_and_record S iid iid (slash_failed_reason (to_error outcome)))
          (mirrorDisplay S iid ((stage_patch Slashing)
             \<lparr>asp_slashTxHash := fld_of (to_txHash outcome),
              asp_reason := Val (slash_failed_reason (to_error outcome))\<rparr>))
     else
       sq (setArbitrumStage S iid Slashed (no_patch\<lparr>ap_slashTxHash := fld_of (to_txHash outcome)\<rparr>))
          (mirrorDisplay S iid ((stage_patch Slashed)\<lparr>asp_slashTxHash := fld_of (to_txHash outcome)\<rparr>)))"

text \<open>One entry of the poll, and the poll over the entries found when it starts.\<close>

definition poll_one ::
  "nat \<Rightarrow> 'e os \<Rightarrow> arb_config \<Rightarrow> 'e deps \<Rightarrow> string \<times> arb_entry \<Rightarrow> ('e world, unit) js" where
  "poll_one fuel S cfg deps = (\<lambda>(intentId, entry).
     case ae_expiry entry of None \<Rightarrow> js_ret ()
     | Some expiry \<Rightarrow>
       bnd (d_nowSec deps) (\<lambda>nowSec.
       if nowSec < expiry then js_ret ()
       else
         (let iid = ''0x'' @ intentId in
          bnd (resumeConfirmIfSolanaLanded fuel S cfg deps iid intentId) (\<lambda>averted.
            if averted then js_ret () else slash_now S deps iid))))"

definition pollAwaitingSlash :: "nat \<Rightarrow> 'e os \<Rightarrow> arb_config \<Rightarrow> 'e deps \<Rightarrow> ('e world, unit) js" where
  "pollAwaitingSlash fuel S cfg deps =
     bnd getAwaitingExpirySlashEntries (\<lambda>entries. js_for entries (poll_one fuel S cfg deps))"

section \<open>Resuming one intent\<close>

definition tx_text :: "string option \<Rightarrow> string" where
  "tx_text h = (case h of None \<Rightarrow> ''undefined'' | Some x \<Rightarrow> x)"

definition no_json_reason :: "bool \<Rightarrow> arb_entry \<Rightarrow> string \<Rightarrow> jstext" where
  "no_json_reason alreadySettled entry intentIdHex =
     js (''collateral posted (tx '' @ tx_text (ae_collateralTxHash entry) @ '')'' @
         (if alreadySettled then '' and the Solana payout already succeeded, but'' else '' but'') @
         '' proof_'' @ intentIdHex @ ''.json is missing/invalid '') @ emdash @
     js (if alreadySettled then '' cannot resume confirmSettlement automatically, needs manual review''
         else '' cannot resume the settlement sequence automatically, needs manual review'')"

definition no_payout_reason :: "arb_entry \<Rightarrow> jstext" where
  "no_payout_reason entry =
     js (''collateral posted (tx '' @ tx_text (ae_collateralTxHash entry) @ '') but the Solana leg was never started, '' @
         ''and this reconciliation pass has no way to run it (no buildRunSolanaPayout provided) '') @ emdash @
     js '' needs manual review''"

definition resume_threw_reason :: "bool \<Rightarrow> arb_entry \<Rightarrow> jstext \<Rightarrow> jstext" where
  "resume_threw_reason alreadySettled entry e =
     js (''collateral posted (tx '' @ tx_text (ae_collateralTxHash entry) @ '')'' @
         (if alreadySettled then '' and the Solana payout already succeeded, but resuming confirmSettlement threw unexpectedly (''
          else '', but resuming the settlement sequence threw unexpectedly ('')) @ e @ js '') '' @ emdash @
     js '' needs manual review; other intents' reconciliation is unaffected''"

definition resume_posted ::
  "nat \<Rightarrow> 'e os \<Rightarrow> arb_config \<Rightarrow> 'e deps \<Rightarrow> string \<Rightarrow>
   (string \<Rightarrow> proof_json \<Rightarrow> jstext + (string \<Rightarrow> ('e world, payout_result) js)) option \<Rightarrow>
   arb_entry \<Rightarrow> bool \<Rightarrow> ('e world, unit) js" where
  "resume_posted fuel S cfg deps intentIdHex buildRunSolanaPayout entry alreadySettled =
     (let iid = ''0x'' @ intentIdHex in
      bnd (readProofJson S intentIdHex) (\<lambda>found. case found of
        None \<Rightarrow> alert_and_record S iid iid (no_json_reason alreadySettled entry intentIdHex)
      | Some json \<Rightarrow>
          if alreadySettled then
            bnd (computeZkProofHash S intentIdHex) (\<lambda>zkProofHash.
              confirmSettlementWithRetry fuel S cfg deps iid json zkProofHash)
          else (case buildRunSolanaPayout of
              Some build \<Rightarrow>
                bnd (js_lift (build iid json)) (\<lambda>payout.
                resumeFromCollateralPosted fuel S cfg
                  (deps\<lparr>d_solverAddress := (case ae_solver entry of None \<Rightarrow> d_solverAddress deps | Some a \<Rightarrow> a),
                     d_runSolanaPayout := payout\<rparr>) iid json)
            | None \<Rightarrow> alert_and_record S iid iid (no_payout_reason entry))))"

definition resumeCollateralPostedIntent ::
  "nat \<Rightarrow> 'e os \<Rightarrow> arb_config \<Rightarrow> 'e deps \<Rightarrow> string \<Rightarrow>
   (string \<Rightarrow> proof_json \<Rightarrow> jstext + (string \<Rightarrow> ('e world, payout_result) js)) option \<Rightarrow> ('e world, unit) js" where
  "resumeCollateralPostedIntent fuel S cfg deps intentId buildRunSolanaPayout =
     (let intentIdHex = hex_id intentId; iid = ''0x'' @ intentIdHex in
      bnd (getArbitrumLedgerEntry intentIdHex) (\<lambda>found. case found of None \<Rightarrow> js_ret ()
        | Some entry \<Rightarrow>
          if ae_stage entry \<noteq> Collateral_posted then js_ret ()
          else
            bnd (isAlreadySettled iid) (\<lambda>alreadySettled.
              js_catch (resume_posted fuel S cfg deps intentIdHex buildRunSolanaPayout entry alreadySettled)
                (\<lambda>e. alert_and_record S iid iid (resume_threw_reason alreadySettled entry e)))))"

section \<open>Reconciliation at start-up\<close>

datatype receipt_status = R_success | R_reverted | R_pending

definition recorded_tx :: "arb_entry \<Rightarrow> string option" where
  "recorded_tx entry = (if ae_stage entry = Posting_collateral then ae_collateralTxHash entry
     else if ae_stage entry = Confirming then ae_confirmTxHash entry else ae_slashTxHash entry)"

text \<open>A receipt that cannot be had, for whatever reason, counts as pending.\<close>

definition receipt_of :: "'e os \<Rightarrow> string option \<Rightarrow> ('e world, receipt_status) js" where
  "receipt_of S txHash = (if truthy txHash then
       js_catch (bnd (ext (os_getReceipt S (the txHash))) (\<lambda>ok. js_ret (if ok then R_success else R_reverted)))
         (\<lambda>_. js_ret R_pending)
     else js_ret R_pending)"

definition or_else :: "string option \<Rightarrow> string option \<Rightarrow> string option" where
  "or_else a b = (case a of None \<Rightarrow> b | Some x \<Rightarrow> Some x)"

definition refunded_reason :: jstext where
  "refunded_reason = js ''intent was Refunded on-chain (claimRefund) while mid-sequence '' @ emdash @
     js '' needs manual review''"

definition pending_reason :: "string \<Rightarrow> string option \<Rightarrow> jstext" where
  "pending_reason fn txHash = js (fn @ '' tx '' @ tx_text txHash @ '' still pending after a restart '') @
     emdash @ js '' needs manual review, NOT auto-resubmitting''"

definition confirm_reverted_reason :: jstext where
  "confirm_reverted_reason =
     js ''confirmSettlement tx reverted (discovered on boot reconciliation) '' @ emdash @
     js '' escrow + collateral status unclear, needs manual review''"

definition slash_reverted_reason :: jstext where
  "slash_reverted_reason = js ''slashSolver tx reverted (discovered on boot reconciliation) '' @ emdash @
     js '' needs manual review''"

definition post_reverted_reason :: jstext where
  "post_reverted_reason = js ''postCollateral tx reverted (discovered on boot reconciliation)''"

definition reconcile_by_receipt ::
  "'e os \<Rightarrow> string \<Rightarrow> arb_entry \<Rightarrow> receipt_status \<Rightarrow> ('e world, unit) js" where
  "reconcile_by_receipt S iid entry receiptStatus =
     (let txHash = recorded_tx entry in
      if ae_stage entry = Posting_collateral then
        (case receiptStatus of
           R_success \<Rightarrow>
             sq (setArbitrumStage S iid Collateral_posted (no_patch\<lparr>ap_collateralTxHash := fld_of txHash\<rparr>))
                (mirrorDisplay S iid ((stage_patch Collateral_posted)\<lparr>asp_collateralTxHash := fld_of txHash\<rparr>))
         | R_reverted \<Rightarrow>
             sq (setArbitrumStage S iid Collateral_failed (no_patch\<lparr>ap_collateralTxHash := fld_of txHash\<rparr>))
                (mirrorDisplay S iid ((stage_patch Collateral_failed)\<lparr>asp_collateralTxHash := fld_of txHash,
                   asp_reason := Val post_reverted_reason\<rparr>))
         | R_pending \<Rightarrow> alert_and_record S iid iid (pending_reason ''postCollateral'' txHash))
      else if ae_stage entry = Confirming then
        (case receiptStatus of
           R_reverted \<Rightarrow> alert_and_record S iid iid confirm_reverted_reason
         | R_pending \<Rightarrow> alert_and_record S iid iid (pending_reason ''confirmSettlement'' txHash)
         | R_success \<Rightarrow> js_ret ())
      else if ae_stage entry = Slashing then
        (case receiptStatus of
           R_reverted \<Rightarrow> alert_and_record S iid iid slash_reverted_reason
         | R_pending \<Rightarrow> alert_and_record S iid iid (pending_reason ''slashSolver'' txHash)
         | R_success \<Rightarrow> js_ret ())
      else js_ret ())"

definition reconcile_mid_sequence ::
  "'e os \<Rightarrow> 'e deps \<Rightarrow> string \<times> arb_entry \<Rightarrow> ('e world, unit) js" where
  "reconcile_mid_sequence S deps = (\<lambda>(intentId, entry).
     let iid = ''0x'' @ intentId; txHash = recorded_tx entry in
     bnd (receipt_of S txHash) (\<lambda>receiptStatus.
     bnd (d_readIntent deps iid) (\<lambda>onChain.
     if oi_status onChain = INTENT_STATUS_SETTLED then
       sq (setArbitrumStage S iid Confirmed
            (no_patch\<lparr>ap_confirmTxHash := fld_of (or_else (ae_confirmTxHash entry) txHash)\<rparr>))
          (mirrorDisplay S iid
            ((stage_patch Confirmed)\<lparr>asp_confirmTxHash := fld_of (or_else (ae_confirmTxHash entry) txHash)\<rparr>))
     else if oi_status onChain = INTENT_STATUS_SLASHED then
       sq (setArbitrumStage S iid Slashed
            (no_patch\<lparr>ap_slashTxHash := fld_of (or_else (ae_slashTxHash entry) txHash)\<rparr>))
          (mirrorDisplay S iid
            ((stage_patch Slashed)\<lparr>asp_slashTxHash := fld_of (or_else (ae_slashTxHash entry) txHash)\<rparr>))
     else if oi_status onChain = INTENT_STATUS_REFUNDED then
       alert_and_record S iid iid refunded_reason
     else reconcile_by_receipt S iid entry receiptStatus)))"

definition reconcileArbitrumLedger ::
  "nat \<Rightarrow> 'e os \<Rightarrow> arb_config \<Rightarrow> 'e deps \<Rightarrow>
   (string \<Rightarrow> proof_json \<Rightarrow> jstext + (string \<Rightarrow> ('e world, payout_result) js)) option \<Rightarrow> ('e world, unit) js" where
  "reconcileArbitrumLedger fuel S cfg deps buildRunSolanaPayout =
     sq (bnd getMidSequenceEntries (\<lambda>entries. js_for entries (reconcile_mid_sequence S deps)))
     (bnd getCollateralPostedEntries (\<lambda>entries. js_for entries (\<lambda>(intentId, _).
        resumeCollateralPostedIntent fuel S cfg deps (''0x'' @ intentId) buildRunSolanaPayout)))"

end
