(* ===== verification/Arb_Invariants.thy ===== *)
theory Arb_Invariants
  imports Arb_Settlement
begin

text \<open>
  What every handler of the Arbitrum side keeps. The locale collects what an invariant must
  tolerate (the injected operations with the records made before a broadcast, stage changes, and
  everything outside the core); inside it each handler is shown, once, to keep the invariant at
  every point where it can end.
\<close>

section \<open>The displays of the sequence\<close>

lemma display_only_mirrors [simp, intro]:
  "display_only (mirrorDisplay S iid p)" "display_only (mirrorRouting S iid q)"
  "display_only (alert_and_record S shown iid r)"
  by (auto simp: mirrorDisplay_def mirrorRouting_def alert_and_record_def split: option.split)

lemma display_only_reads [simp, intro]:
  "display_only (computeZkProofHash S i)" "display_only (readProofJson S i)"
  "display_only (getLedgerEntry i)" "display_only (isAlreadySettled i)"
  "display_only (getArbitrumLedgerEntry i)" "display_only (js_lift q)"
  by (auto simp: computeZkProofHash_def readProofJson_def getLedgerEntry_def isAlreadySettled_def
      getArbitrumLedgerEntry_def js_lift_def intro!: display_only_bnd split: sum.split)

section \<open>What the invariant must tolerate everywhere\<close>

locale quiet_invariant =
  fixes S :: "'e os" and I :: "'e world \<Rightarrow> bool"
  assumes env: "I (w\<lparr>w_env := e\<rparr>) = I w"
    and alerted: "I (w\<lparr>w_alerted := l\<rparr>) = I w"
    and cache: "I (w\<lparr>w_cache := c\<rparr>) = I w"
    and alert: "preserves I (alert S m)"
    and upsert: "good_patch i patch \<Longrightarrow> preserves I (upsert S i patch)"
begin

lemma ext: "preserves I (ext f)"
  by (rule preservesI) (simp add: wp_simps env split: prod.split)

lemma pure:
  "preserves I (ext_do g)" "preserves I (sleep S ms)" "preserves I (now_ms S)" "preserves I (now_sec S)"
  "preserves I (js_mod (\<lambda>w. w\<lparr>w_alerted := l w\<rparr>))" "preserves I (js_mod (\<lambda>w. w\<lparr>w_cache := c w\<rparr>))"
  "preserves I (try_write S file)"
  by (rule preservesI; simp add: wp_simps env alerted cache sleep_def split: prod.split)+

lemmas setters = setters_by_patch [OF upsert]

lemmas steps = preserves_ret preserves_throw preserves_stop preserves_get preserves_lift preserves_bnd
  preserves_sq preserves_if preserves_catch preserves_option preserves_Let

lemma mirrors:
  "preserves I (mirrorDisplay S iid p)" "preserves I (mirrorRouting S iid q)"
  "preserves I (alert_intent S shown r)" "preserves I (alert_and_record S shown iid r)"
  unfolding mirrorDisplay_def mirrorRouting_def alert_and_record_def alert_intent_def
  by (auto intro!: setters alert split: option.split)

lemma readings:
  "preserves I (computeZkProofHash S i)" "preserves I (readProofJson S i)"
  "preserves I (getLedgerEntry i)" "preserves I (isAlreadySettled i)"
  "preserves I (getArbitrumLedgerEntry i)" "preserves I (readState i)"
  unfolding computeZkProofHash_def readProofJson_def getLedgerEntry_def isAlreadySettled_def
    getArbitrumLedgerEntry_def readState_def
  by (intro steps)+

lemmas quiet = mirrors readings setters pure alert ext preserves_lift

end

lemma core_only_quiet:
  assumes "\<And>w w'. core w = core w' \<Longrightarrow> I w = I w'"
  shows "quiet_invariant S I"
proof
  show "preserves I (alert S m)" "preserves I (upsert S i patch)" for m i patch
    by (rule display_only_preserves, simp, erule assms)+
qed (rule assms, simp)+

section \<open>The operations keep it, so the handlers keep it\<close>

text \<open>The part that the steps after the collateral need.\<close>

locale confirm_invariant = quiet_invariant S I for S :: "'e os" and I :: "'e world \<Rightarrow> bool" +
  fixes deps :: "'e deps"
  assumes stages: "preserves I (setArbitrumStage S iid st p)"
    and reads: "preserves I (d_readIntent deps iid)"
    and clock: "preserves I (d_nowSec deps)"
    and confirm: "preserves I (d_confirmSettlement deps iid h (record_confirming S iid json))"
begin

lemmas keeps = quiet stages reads clock confirm

lemma reread: "preserves I (reread_while_stale fuel S cfg deps iid n oc)"
  by (induction fuel arbitrary: n oc) (auto intro!: steps keeps)

lemma read_after_post: "preserves I (readIntentAfterPostCollateral fuel S cfg deps iid)"
  unfolding readIntentAfterPostCollateral_def by (intro preserves_bnd reads reread)

lemma confirm_loop: "preserves I (confirm_attempts fuel S cfg deps iid json h attempt)"
  by (induction fuel arbitrary: attempt)
    (auto intro!: steps keeps)

lemma confirm_all: "preserves I (confirmSettlementWithRetry fuel S cfg deps iid json h)"
  unfolding confirmSettlementWithRetry_def by (rule confirm_loop)

lemma payout_loop:
  "(\<And>h. preserves I (d_runSolanaPayout deps h)) \<Longrightarrow> preserves I (payout_attempts fuel S cfg deps json h r)"
  by (induction fuel arbitrary: r) (auto intro!: steps keeps)

lemma resume:
  "(\<And>h. preserves I (d_runSolanaPayout deps h)) \<Longrightarrow>
   preserves I (resumeFromCollateralPosted fuel S cfg deps iid json)"
  unfolding resumeFromCollateralPosted_def
  by (intro steps keeps read_after_post payout_loop confirm_all)

lemma refuse: "preserves I (refuseArbitrumSettlement S iid json r q)"
  unfolding refuseArbitrumSettlement_def by (intro steps keeps)

text \<open>A resumed intent runs with the solver its entry names and a payout of its own.\<close>

lemma other_solver:
  "confirm_invariant S I (deps\<lparr>d_solverAddress := a, d_runSolanaPayout := p\<rparr>)"
  by (unfold_locales) (simp_all add: stages reads clock confirm)

end

text \<open>The part that a payout found on Solana needs.\<close>

locale landed_invariant = confirm_invariant +
  assumes marks: "preserves I (markSettled S iid)"
    and check: "preserves I (d_checkSolanaSignatureLanded deps sig)"
begin

lemma resume_confirm: "preserves I (resumeConfirmIfSolanaLanded fuel S cfg deps iid hx)"
  unfolding resumeConfirmIfSolanaLanded_def solana_landed_def mark_landed_def
  by (intro steps keeps marks check confirm_all)

end

locale deps_invariant = landed_invariant +
  assumes balance: "preserves I (d_getSolverBalanceWei deps)"
    and post: "preserves I (d_postCollateral deps iid v (record_posting S deps iid json))"
    and slash: "preserves I (d_slashSolver deps iid (record_slashing S iid))"
begin

lemmas keeps_all = keeps marks balance check post slash

lemma sequence:
  assumes "\<And>h. preserves I (d_runSolanaPayout deps h)"
  shows "preserves I (runArbitrumSettlementSequence fuel S cfg deps iid json)"
proof -
  have "preserves I (post_and_resume fuel S cfg deps iid json)"
    unfolding post_and_resume_def
    by (intro steps keeps_all resume assms)
  then have "preserves I (start_sequence fuel S cfg deps iid json)"
    unfolding start_sequence_def by (intro steps keeps_all refuse)
  then show ?thesis
    unfolding runArbitrumSettlementSequence_def
    by (intro steps keeps_all) (auto split: option.split intro!: keeps)
qed

lemma poll: "preserves I (pollAwaitingSlash fuel S cfg deps)"
proof -
  have "preserves I (slash_now S deps iid)" for iid
    unfolding slash_now_def by (intro steps keeps_all)
  then have "preserves I (poll_one fuel S cfg deps x)" for x
    unfolding poll_one_def
    by (cases x) (auto intro!: steps keeps_all resume_confirm simp: Let_def)
  then show ?thesis
    unfolding pollAwaitingSlash_def getAwaitingExpirySlashEntries_def
    by (intro preserves_bnd preserves_get preserves_for)
qed

lemma reconcile_mid: "preserves I (reconcile_mid_sequence S deps x)"
proof -
  have "preserves I (reconcile_by_receipt S iid e r)" for iid e r
    unfolding reconcile_by_receipt_def
    by (auto simp: Let_def intro!: steps keeps_all split: receipt_status.split)
  moreover have "preserves I (receipt_of S h)" for h
    unfolding receipt_of_def by (intro steps keeps_all)
  ultimately show ?thesis
    unfolding reconcile_mid_sequence_def
    by (cases x) (auto simp: Let_def intro!: steps keeps_all)
qed

lemma resume_intent:
  assumes build: "\<And>b id' json p h. build = Some b \<Longrightarrow> b id' json = Inr p \<Longrightarrow> preserves I (p h)"
  shows "preserves I (resumeCollateralPostedIntent fuel S cfg deps iid build)"
proof -
  have from_build: "preserves I (case build of
        Some b \<Rightarrow> bnd (js_lift (b iid' json)) (\<lambda>payout. resumeFromCollateralPosted fuel S cfg
          (deps\<lparr>d_solverAddress := a, d_runSolanaPayout := payout\<rparr>) iid' json)
      | None \<Rightarrow> alert_and_record S iid' iid' r)" for a iid' json r
  proof (cases build)
    case None
    then show ?thesis by (simp add: quiet)
  next
    case (Some b)
    have "preserves I (bnd (js_lift (b iid' json)) (\<lambda>payout. resumeFromCollateralPosted fuel S cfg
        (deps\<lparr>d_solverAddress := a, d_runSolanaPayout := payout\<rparr>) iid' json))"
    proof (cases "b iid' json")
      case (Inl e)
      then show ?thesis by (simp add: js_lift_def preserves_def bnd_def js_throw_def)
    next
      case (Inr p)
      have "preserves I (resumeFromCollateralPosted fuel S cfg
          (deps\<lparr>d_solverAddress := a, d_runSolanaPayout := p\<rparr>) iid' json)"
        by (rule confirm_invariant.resume [OF other_solver]) (simp add: build [OF Some Inr])
      with Inr show ?thesis by (simp add: js_lift_def preserves_def bnd_def js_ret_def)
    qed
    with Some show ?thesis by simp
  qed
  have "preserves I (resume_posted fuel S cfg deps hx build entry settled)" for hx entry settled
    unfolding resume_posted_def Let_def by (intro steps keeps_all confirm_all from_build)
  then show ?thesis
    unfolding resumeCollateralPostedIntent_def Let_def by (intro steps keeps_all)
qed

lemma reconcile:
  assumes "\<And>b id' json p h. build = Some b \<Longrightarrow> b id' json = Inr p \<Longrightarrow> preserves I (p h)"
  shows "preserves I (reconcileArbitrumLedger fuel S cfg deps build)"
  unfolding reconcileArbitrumLedger_def getMidSequenceEntries_def getCollateralPostedEntries_def
  by (intro steps preserves_get preserves_for reconcile_mid)
    (auto intro!: resume_intent assms split: prod.split)

end

end
