(* ===== verification/Write_Ahead.thy ===== *)
theory Write_Ahead
  imports Arb_Invariants
begin

text \<open>
  The write-ahead discipline: in the trace of effects, every transaction handed to the RPC node
  comes directly after a completed write of the ledger whose entry for the same intent names the
  transaction's hash, the stage it begins and, for collateral, the account that signed. Nothing
  the process does between two such points, and no way of cutting it off, breaks it.
\<close>

section \<open>The discipline\<close>

definition announces :: "event option \<Rightarrow> tx_req \<Rightarrow> string \<Rightarrow> bool" where
  "announces prev req hash = (case prev of
       Some (Ev_arb key en) \<Rightarrow> key = keyOf (tr_intentId req) \<and>
         (case tr_fn req of
            PostCollateral \<Rightarrow> ae_stage en = Posting_collateral \<and> ae_collateralTxHash en = Some hash \<and>
              ae_solver en = Some (tr_account req)
          | ConfirmSettlement \<Rightarrow> ae_stage en = Confirming \<and> ae_confirmTxHash en = Some hash
          | SlashSolver \<Rightarrow> ae_stage en = Slashing \<and> ae_slashTxHash en = Some hash)
     | _ \<Rightarrow> False)"

fun write_ahead_from :: "event option \<Rightarrow> event list \<Rightarrow> bool" where
  "write_ahead_from prev [] = True"
| "write_ahead_from prev (Ev_send req hash # vs) =
     (announces prev req hash \<and> write_ahead_from (Some (Ev_send req hash)) vs)"
| "write_ahead_from prev (v # vs) = write_ahead_from (Some v) vs"

definition write_ahead :: "event list \<Rightarrow> bool" where
  "write_ahead vs = write_ahead_from None vs"

definition wal :: "'e world \<Rightarrow> bool" where
  "wal w = write_ahead (w_events w)"

lemma write_ahead_from_append:
  "write_ahead_from p (xs @ ys) \<longleftrightarrow>
   write_ahead_from p xs \<and> write_ahead_from (if xs = [] then p else Some (last xs)) ys"
proof (induction xs arbitrary: p)
  case (Cons v vs)
  then show ?case by (cases v) auto
qed simp

lemma write_ahead_quiet:
  assumes "\<And>req h. v \<noteq> Ev_send req h"
  shows "write_ahead (vs @ [v]) = write_ahead vs"
proof (cases v)
  case (Ev_send req h)
  with assms [of req h] show ?thesis by simp
qed (simp_all add: write_ahead_def write_ahead_from_append)

lemma write_ahead_snoc:
  "write_ahead (vs @ [Ev_arb k en, Ev_send req h]) \<longleftrightarrow>
   write_ahead vs \<and> announces (Some (Ev_arb k en)) req h"
  by (simp add: write_ahead_def write_ahead_from_append)

text \<open>The same, by position.\<close>

lemma write_ahead_nth:
  "write_ahead_from p vs \<Longrightarrow> i < length vs \<Longrightarrow> vs ! i = Ev_send req h \<Longrightarrow>
   announces (if i = 0 then p else Some (vs ! (i - 1))) req h"
proof -
  assume "write_ahead_from p vs" and i: "i < length vs" "vs ! i = Ev_send req h"
  then have "write_ahead_from p (take i vs @ Ev_send req h # drop (Suc i) vs)"
    using id_take_nth_drop [OF i(1)] by simp
  moreover have "take i vs \<noteq> [] \<Longrightarrow> last (take i vs) = vs ! (i - 1)"
    using i(1) by (simp add: last_conv_nth)
  ultimately show ?thesis
    using i by (auto simp: write_ahead_from_append split: if_splits)
qed

section \<open>Each operation keeps it\<close>

lemma wal_stage: "preserves wal (setArbitrumStage S iid st p)"
  by (rule preservesI, rule wp_setArbitrumStage)
    (auto simp: wal_def arb_stored_frame arb_unstored_frame write_ahead_quiet)

lemma wal_marks: "preserves wal (markSettled S iid)" "preserves wal (markSettling S iid sig)"
  unfolding markSettled_def markSettling_def
  by (rule preservesI; auto simp: wp_simps wal_def settled_put_def write_ahead_quiet
      intro!: wp_put_settled)+

text \<open>A record made between signing and broadcast: it either throws or ends with its entry on disk.\<close>

definition announcing :: "tx_req \<Rightarrow> (string \<Rightarrow> ('e world, unit) js) \<Rightarrow> bool" where
  "announcing req onSigned \<longleftrightarrow> (\<forall>hash w. wp (onSigned hash) (\<lambda>r w'.
      (\<exists>k en. w_events w' = w_events w @ [Ev_arb k en] \<and> announces (Some (Ev_arb k en)) req hash) \<or>
      (w_events w' = w_events w \<and> r \<noteq> Ok ())) w)"

lemma announcing_stage:
  assumes entry: "\<And>prev now. announces (Some (Ev_arb (keyOf iid) (merge_entry prev st (p hash) now))) req hash"
    and quiet: "display_only (d hash)"
  shows "wp (sq (setArbitrumStage S iid st (p hash)) (d hash)) (\<lambda>r w'.
      (\<exists>k en. w_events w' = w_events w @ [Ev_arb k en] \<and> announces (Some (Ev_arb k en)) req hash) \<or>
      (w_events w' = w_events w \<and> r \<noteq> Ok ())) w" (is "wp _ ?Q w")
proof (rule wp_sqI [OF setArbitrumStage_cases])
  fix w' :: "'a world"
  assume "Ok () = (Ok () :: unit outcome) \<and> arb_stored S iid st (p hash) w w' \<or>
      Ok () \<noteq> (Ok () :: unit outcome) \<and> arb_unstored S iid st (p hash) w w'"
  then have "arb_stored S iid st (p hash) w w'" by simp
  then have "?Q r w''" if "core w'' = core w'" for r w''
    using that entry by (auto simp: core_eq arb_stored_frame)
  then show "wp (d hash) ?Q w'"
    by (rule display_only_wp [OF quiet])
qed (auto simp: arb_unstored_frame)

lemma record_posting_announces:
  assumes "tr_fn req = PostCollateral" "tr_intentId req = iid" "tr_account req = d_solverAddress deps"
  shows "announcing req (record_posting S deps iid json)"
  unfolding announcing_def record_posting_def
  by (intro allI announcing_stage display_only_sq display_only_mirrors)
    (simp_all add: assms announces_def merge_entry_def with_routing_def no_patch_def split: option.split)

lemma record_confirming_announces:
  assumes "tr_fn req = ConfirmSettlement" "tr_intentId req = iid"
  shows "announcing req (record_confirming S iid json)"
  unfolding announcing_def record_confirming_def
  by (intro allI announcing_stage display_only_mirrors)
    (simp_all add: assms announces_def merge_entry_def no_patch_def)

lemma record_slashing_announces:
  assumes "tr_fn req = SlashSolver" "tr_intentId req = iid"
  shows "announcing req (record_slashing S iid)"
  unfolding announcing_def record_slashing_def
  by (intro allI announcing_stage display_only_mirrors)
    (simp_all add: assms announces_def merge_entry_def no_patch_def)

lemma signAndSend_wal:
  assumes "announcing req onSigned"
  shows "preserves wal (signAndSend S req onSigned)"
proof (rule preservesI)
  fix w :: "'a world" assume w: "wal w"
  have tail: "preserves wal (sq (ext (os_sendRaw S tx)) (bnd (ext (os_waitReceipt S h)) (\<lambda>ok.
      js_ret (f ok))))" for tx h f
    by (rule display_only_preserves) (auto intro!: display_only_sq display_only_bnd simp: wal_def core_eq)
  have send: "wp (sq (onSigned h) (sq (emit (Ev_send req h)) (sq (ext (os_sendRaw S tx))
      (bnd (ext (os_waitReceipt S h)) (\<lambda>ok. js_ret (f ok)))))) (\<lambda>_. wal) w1"
    if "wal w1" for h tx f and w1 :: "'a world"
  proof (rule wp_sqI)
    show "wp (onSigned h) (\<lambda>r w'.
      (\<exists>k en. w_events w' = w_events w1 @ [Ev_arb k en] \<and> announces (Some (Ev_arb k en)) req h) \<or>
      (w_events w' = w_events w1 \<and> r \<noteq> Ok ())) w1"
      using assms by (simp add: announcing_def)
  next
    fix w2 :: "'a world"
    assume "(\<exists>k en. w_events w2 = w_events w1 @ [Ev_arb k en] \<and> announces (Some (Ev_arb k en)) req h) \<or>
      (w_events w2 = w_events w1 \<and> Ok () \<noteq> (Ok () :: unit outcome))"
    then have "wal (w2\<lparr>w_events := w_events w2 @ [Ev_send req h]\<rparr>)"
      using \<open>wal w1\<close> by (auto simp: wal_def write_ahead_snoc)
    then show "wp (sq (emit (Ev_send req h)) (sq (ext (os_sendRaw S tx))
        (bnd (ext (os_waitReceipt S h)) (\<lambda>ok. js_ret (f ok))))) (\<lambda>_. wal) w2"
      unfolding wp_sq [of "emit _"] wp_emit on_ok_simps by (rule preservesD [OF tail])
  qed (use \<open>wal w1\<close> in \<open>auto simp: wal_def write_ahead_quiet\<close>)
  have env: "wal (w\<lparr>w_env := e\<rparr>)" for e
    using w by (simp add: wal_def)
  show "wp (signAndSend S req onSigned) (\<lambda>_. wal) w"
    unfolding signAndSend_def Let_def
    by (rule wp_catchI [where M = "\<lambda>_. wal"])
      (auto simp: wp_sq [of "ext _"] wp_bnd [of "ext (os_sign _ _)"] wp_ext wp_ret on_ok_def env
        intro!: send split: prod.split outcome.split)
qed

section \<open>The handlers keep it\<close>

lemma wal_core: "core w = core w' \<Longrightarrow> wal w = wal w'"
  by (simp add: wal_def core_eq)

interpretation wal_deps: deps_invariant S wal
  "settlement_deps S orchestrator manager payout (checkSolanaSignatureLanded S) solver"
  for S :: "'e os" and orchestrator manager payout solver
proof (intro deps_invariant.intro landed_invariant.intro confirm_invariant.intro core_only_quiet wal_core, assumption,
    unfold_locales)
  fix iid v json h sig st p
  let ?d = "settlement_deps S orchestrator manager payout (checkSolanaSignatureLanded S) solver"
  show "preserves wal (d_postCollateral ?d iid v (record_posting S ?d iid json))"
    unfolding settlement_deps_def deps.simps
    by (rule signAndSend_wal, rule record_posting_announces) (simp_all add: tx_for_def)
  show "preserves wal (d_confirmSettlement ?d iid h (record_confirming S iid json))"
    unfolding settlement_deps_def deps.simps
    by (rule signAndSend_wal, rule record_confirming_announces) (simp_all add: tx_for_def)
  show "preserves wal (d_slashSolver ?d iid (record_slashing S iid))"
    unfolding settlement_deps_def deps.simps
    by (rule signAndSend_wal, rule record_slashing_announces) (simp_all add: tx_for_def)
qed (auto simp: settlement_deps_def wal_stage wal_marks intro!: display_only_preserves wal_core)

end
