(* ===== verification/Solver_Stats.thy ===== *)
theory Solver_Stats
  imports Arb_Ledger Intent_State
begin

text \<open>
  \<^verbatim>\<open>solver_stats.ts\<close>: the track record of the solvers, counted from the terminal states of the
  known intents, and the credit tier and cap it gives. A terminal state read from the chain is
  cached; \<open>w_cache\<close> is what \<^verbatim>\<open>loadCache\<close> makes of the cache file. Rates are exact fractions.
\<close>

section \<open>Known intents\<close>

definition stats_ledger_path :: "env_vars \<Rightarrow> string \<Rightarrow> string" where
  "stats_ledger_path env dflt = falsy_or (map_of env ''ARBITRUM_LEDGER_PATH'') dflt"

text \<open>The directory's names, foreign files skipped, and the keys of the ledger file.\<close>

definition listStateFileIntentIds :: "'e os \<Rightarrow> ('e world, string list) js" where
  "listStateFileIntentIds S =
     js_catch
       (bnd (js_get w_states) (\<lambda>files.
        bnd (ext (os_readdir S (map (\<lambda>k. k @ json_suffix) (jkeys files)))) (\<lambda>names.
          js_ret (List.map_filter state_file_of names))))
       (\<lambda>_. js_ret [])"

definition listArbitrumLedgerIntentIds :: "('e world, string list) js" where
  "listArbitrumLedgerIntentIds = js_get (\<lambda>w. jkeys (w_arb_disk w))"

definition listKnownIntentIds :: "'e os \<Rightarrow> ('e world, string list) js" where
  "listKnownIntentIds S =
     bnd (listStateFileIntentIds S) (\<lambda>fromStates.
     bnd listArbitrumLedgerIntentIds (\<lambda>fromLedger.
       js_ret (uniq (map keyOf fromStates @ map keyOf fromLedger))))"

section \<open>The record of each solver\<close>

record solver_counts =
  n_settled :: nat
  n_slashed :: nat
  n_refunded :: nat
  n_expired :: nat
  n_excluded :: nat

definition emptyRecordAccumulator :: solver_counts where
  "emptyRecordAccumulator = \<lparr>n_settled = 0, n_slashed = 0, n_refunded = 0, n_expired = 0, n_excluded = 0\<rparr>"

record solver_record =
  sr_counts :: solver_counts
  sr_resolved :: nat
  sr_successRate :: "rat option"

record stats_result =
  st_records :: "(string, solver_record) jmap"
  st_errors :: "(string \<times> jstext) list"
  st_complete :: bool

definition isTerminalStatus :: "int \<Rightarrow> bool" where
  "isTerminalStatus status \<longleftrightarrow> status = INTENT_STATUS_SETTLED \<or> status = INTENT_STATUS_SLASHED \<or>
     status = INTENT_STATUS_REFUNDED \<or> status = INTENT_STATUS_EXPIRED"

text \<open>What the loop carries from intent to intent.\<close>

record scan =
  sn_cache :: "(string, cached_intent) jmap"
  sn_accs :: "(string, solver_counts) jmap"
  sn_errors :: "(string \<times> jstext) list"
  sn_dirty :: bool

text \<open>The first exclusion entry for the intent applies only if it names the on-chain solver.\<close>

definition is_excluded :: "exclusion list \<Rightarrow> string \<Rightarrow> cached_intent \<Rightarrow> bool" where
  "is_excluded exclusions idHex cached =
     (case List.find (\<lambda>e. keyOf (ex_intentId e) = idHex) exclusions of
        None \<Rightarrow> False | Some e \<Rightarrow> toLowerCase (ex_solver e) = ci_solver cached)"

definition bump :: "bool \<Rightarrow> int \<Rightarrow> solver_counts \<Rightarrow> solver_counts" where
  "bump excluded status acc =
     (if excluded then acc\<lparr>n_excluded := n_excluded acc + 1\<rparr>
      else if status = INTENT_STATUS_SETTLED then acc\<lparr>n_settled := n_settled acc + 1\<rparr>
      else if status = INTENT_STATUS_SLASHED then acc\<lparr>n_slashed := n_slashed acc + 1\<rparr>
      else if status = INTENT_STATUS_REFUNDED then acc\<lparr>n_refunded := n_refunded acc + 1\<rparr>
      else if status = INTENT_STATUS_EXPIRED then acc\<lparr>n_expired := n_expired acc + 1\<rparr>
      else acc)"

definition acc_of :: "(string, solver_counts) jmap \<Rightarrow> string \<Rightarrow> solver_counts" where
  "acc_of accs solver = (case jget accs solver of None \<Rightarrow> emptyRecordAccumulator | Some a \<Rightarrow> a)"

definition count_cached :: "exclusion list \<Rightarrow> string \<Rightarrow> cached_intent \<Rightarrow> scan \<Rightarrow> scan" where
  "count_cached exclusions idHex cached st =
     (if ci_solver cached = ZERO_ADDRESS then st
      else st\<lparr>sn_accs := jput (ci_solver cached)
        (bump (is_excluded exclusions idHex cached) (ci_status cached) (acc_of (sn_accs st) (ci_solver cached)))
        (sn_accs st)\<rparr>)"

text \<open>What a successful read of an intent that was not cached does.\<close>

definition count_read :: "exclusion list \<Rightarrow> string \<Rightarrow> on_chain_intent \<Rightarrow> scan \<Rightarrow> scan" where
  "count_read exclusions idHex onChain st =
     (if \<not> isTerminalStatus (oi_status onChain) then st
      else if toLowerCase (oi_owner onChain) = ZERO_ADDRESS then st
      else (let cached = \<lparr>ci_status = oi_status onChain, ci_solver = toLowerCase (oi_solver onChain)\<rparr>
            in count_cached exclusions idHex cached
                 (st\<lparr>sn_cache := jput idHex cached (sn_cache st), sn_dirty := True\<rparr>)))"

definition scan_one ::
  "(string \<Rightarrow> ('w, on_chain_intent) js) \<Rightarrow> exclusion list \<Rightarrow> string \<Rightarrow> scan \<Rightarrow> ('w, scan) js" where
  "scan_one readIntent exclusions idHex st =
     (case jget (sn_cache st) idHex of
        Some cached \<Rightarrow> js_ret (count_cached exclusions idHex cached st)
      | None \<Rightarrow>
          js_catch (bnd (readIntent (''0x'' @ idHex)) (\<lambda>onChain.
              js_ret (count_read exclusions idHex onChain st)))
            (\<lambda>e. js_ret (st\<lparr>sn_errors := sn_errors st @ [(''0x'' @ idHex, e)]\<rparr>)))"

fun scan_all ::
  "(string \<Rightarrow> ('w, on_chain_intent) js) \<Rightarrow> exclusion list \<Rightarrow> string list \<Rightarrow> scan \<Rightarrow> ('w, scan) js" where
  "scan_all readIntent exclusions [] st = js_ret st"
| "scan_all readIntent exclusions (idHex # ids) st =
     bnd (scan_one readIntent exclusions idHex st) (\<lambda>st'. scan_all readIntent exclusions ids st')"

definition record_of :: "solver_counts \<Rightarrow> solver_record" where
  "record_of acc =
     (let resolved = n_settled acc + n_slashed acc in
      \<lparr>sr_counts = acc, sr_resolved = resolved,
       sr_successRate = (if resolved = 0 then None else Some (of_nat (n_settled acc) / of_nat resolved))\<rparr>)"

definition saveCache :: "'e os \<Rightarrow> (string, cached_intent) jmap \<Rightarrow> ('e world, unit) js" where
  "saveCache S cache =
     js_catch (save_file S Stats_cache_file (\<lambda>w. w\<lparr>w_cache := cache\<rparr>) (\<lambda>w. w)) (\<lambda>_. js_ret ())"

definition loadExclusions :: "'e os \<Rightarrow> ('e world, exclusion list) js" where
  "loadExclusions S = js_get (\<lambda>w. case os_exclusions S (w_env w) of None \<Rightarrow> [] | Some es \<Rightarrow> es)"

definition fresh_scan :: "(string, cached_intent) jmap \<Rightarrow> scan" where
  "fresh_scan cache = \<lparr>sn_cache = cache, sn_accs = [], sn_errors = [], sn_dirty = False\<rparr>"

definition stats_of :: "scan \<Rightarrow> stats_result" where
  "stats_of st = \<lparr>st_records = map (\<lambda>(solver, acc). (solver, record_of acc)) (sn_accs st),
     st_errors = sn_errors st, st_complete = (sn_errors st = [])\<rparr>"

definition readSolverRecord ::
  "'e os \<Rightarrow> (string \<Rightarrow> ('e world, on_chain_intent) js) \<Rightarrow> string list \<Rightarrow> ('e world, stats_result) js" where
  "readSolverRecord S readIntent intentIds =
     bnd (js_get w_cache) (\<lambda>cache.
     bnd (loadExclusions S) (\<lambda>exclusions.
     bnd (scan_all readIntent exclusions (uniq (map keyOf intentIds)) (fresh_scan cache)) (\<lambda>st.
     sq (if sn_dirty st then saveCache S (sn_cache st) else js_ret ())
        (js_ret (stats_of st)))))"

section \<open>Tiers\<close>

record tier_config =
  tg_promoteMinResolved :: jsnum
  tg_promoteMinSuccess :: jsnum
  tg_demoteMinResolved :: jsnum
  tg_demoteMaxSuccess :: jsnum

definition defaultTierConfig :: "env_vars \<Rightarrow> tier_config" where
  "defaultTierConfig env =
     \<lparr>tg_promoteMinResolved = js_Number (nullish (map_of env ''SOLVER_PROMOTE_MIN_RESOLVED'') ''10''),
      tg_promoteMinSuccess = js_Number (nullish (map_of env ''SOLVER_PROMOTE_MIN_SUCCESS'') ''0.95''),
      tg_demoteMinResolved = js_Number (nullish (map_of env ''SOLVER_DEMOTE_MIN_RESOLVED'') ''3''),
      tg_demoteMaxSuccess = js_Number (nullish (map_of env ''SOLVER_DEMOTE_MAX_SUCCESS'') ''0.8'')\<rparr>"

definition computeTier :: "int \<Rightarrow> solver_record \<Rightarrow> tier_config \<Rightarrow> bool \<Rightarrow> int" where
  "computeTier onboardingTier r config allRead =
     (case sr_successRate r of None \<Rightarrow> onboardingTier
      | Some rate \<Rightarrow>
          if sr_resolved r = 0 then onboardingTier
          else
            (let resolved = num_of_int (int (sr_resolved r));
                 tier = (if allRead \<and> js_le (tg_promoteMinResolved config) resolved \<and>
                            js_le (tg_promoteMinSuccess config) (Num rate) then onboardingTier - 1
                         else if js_le (tg_demoteMinResolved config) resolved \<and>
                            js_lt (Num rate) (tg_demoteMaxSuccess config) then onboardingTier + 1
                         else onboardingTier)
             in min 3 (max 1 tier)))"

record tier_cap_pct =
  cp_1 :: jsnum
  cp_2 :: jsnum
  cp_3 :: jsnum

definition defaultTierCapPct :: "env_vars \<Rightarrow> tier_cap_pct" where
  "defaultTierCapPct env =
     \<lparr>cp_1 = js_Number (nullish (map_of env ''SOLVER_TIER_CAP_PCT_1'') ''100''),
      cp_2 = js_Number (nullish (map_of env ''SOLVER_TIER_CAP_PCT_2'') ''30''),
      cp_3 = js_Number (nullish (map_of env ''SOLVER_TIER_CAP_PCT_3'') ''5'')\<rparr>"

definition pct_of :: "tier_cap_pct \<Rightarrow> int \<Rightarrow> jsnum" where
  "pct_of capPct tier =
     (if tier = 1 then cp_1 capPct else if tier = 2 then cp_2 capPct
      else if tier = 3 then cp_3 capPct else NaN)"

definition tierCapWei :: "int \<Rightarrow> int \<Rightarrow> tier_cap_pct \<Rightarrow> jstext + int" where
  "tierCapWei tier maxTransferWei capPct =
     (case bigint_of_num (js_round (pct_of capPct tier)) of
        Inl e \<Rightarrow> Inl e | Inr pct \<Rightarrow> Inr (bigdiv (maxTransferWei * pct) 100))"

section \<open>The counts are those of the cache\<close>

text \<open>
  The abstract count: how many of the given intents the cache has in a given state under a given
  solver. What the loop accumulates, in one pass and while it fills the cache, is exactly this
  count over the cache it ends with.
\<close>

definition has_status :: "exclusion list \<Rightarrow> (string, cached_intent) jmap \<Rightarrow> string \<Rightarrow> int \<Rightarrow> string \<Rightarrow> bool" where
  "has_status exclusions cache solver status i = (case jget cache i of None \<Rightarrow> False
     | Some c \<Rightarrow> ci_solver c = solver \<and> ci_status c = status \<and> \<not> is_excluded exclusions i c)"

definition was_excluded :: "exclusion list \<Rightarrow> (string, cached_intent) jmap \<Rightarrow> string \<Rightarrow> string \<Rightarrow> bool" where
  "was_excluded exclusions cache solver i = (case jget cache i of None \<Rightarrow> False
     | Some c \<Rightarrow> ci_solver c = solver \<and> is_excluded exclusions i c)"

definition tally :: "exclusion list \<Rightarrow> (string, cached_intent) jmap \<Rightarrow> string \<Rightarrow> string list \<Rightarrow> solver_counts" where
  "tally exclusions cache solver ids =
     \<lparr>n_settled = length (filter (has_status exclusions cache solver INTENT_STATUS_SETTLED) ids),
      n_slashed = length (filter (has_status exclusions cache solver INTENT_STATUS_SLASHED) ids),
      n_refunded = length (filter (has_status exclusions cache solver INTENT_STATUS_REFUNDED) ids),
      n_expired = length (filter (has_status exclusions cache solver INTENT_STATUS_EXPIRED) ids),
      n_excluded = length (filter (was_excluded exclusions cache solver) ids)\<rparr>"

definition scan_inv :: "exclusion list \<Rightarrow> string list \<Rightarrow> scan \<Rightarrow> bool" where
  "scan_inv exclusions ids st \<longleftrightarrow> jget (sn_accs st) ZERO_ADDRESS = None \<and>
     (\<forall>s. s \<noteq> ZERO_ADDRESS \<longrightarrow> acc_of (sn_accs st) s = tally exclusions (sn_cache st) s ids)"

lemma tally_snoc:
  "tally exclusions cache s (ids @ [i]) = (case jget cache i of None \<Rightarrow> tally exclusions cache s ids
     | Some c \<Rightarrow> if ci_solver c = s
         then bump (is_excluded exclusions i c) (ci_status c) (tally exclusions cache s ids)
         else tally exclusions cache s ids)"
  by (auto simp: tally_def has_status_def was_excluded_def bump_def status_defs split: option.split)

lemma status_other:
  "x \<noteq> i \<Longrightarrow> has_status exclusions (jput i c cache) s k x = has_status exclusions cache s k x"
  "x \<noteq> i \<Longrightarrow> was_excluded exclusions (jput i c cache) s x = was_excluded exclusions cache s x"
  by (simp_all add: has_status_def was_excluded_def)

lemma tally_other:
  assumes "i \<notin> set ids"
  shows "tally exclusions (jput i c cache) s ids = tally exclusions cache s ids"
proof -
  have "x \<noteq> i" if "x \<in> set ids" for x
    using assms that by auto
  then show ?thesis
    unfolding tally_def by (simp add: status_other cong: filter_cong)
qed

lemma count_cached_inv:
  assumes "scan_inv exclusions ids st" "jget (sn_cache st) i = Some c"
  shows "scan_inv exclusions (ids @ [i]) (count_cached exclusions i c st)"
  using assms
  by (auto simp: scan_inv_def count_cached_def tally_snoc acc_of_def split: option.splits)

lemma scan_inv_skip:
  "scan_inv exclusions ids st \<Longrightarrow> jget (sn_cache st) i = None \<Longrightarrow> scan_inv exclusions (ids @ [i]) st"
  by (simp add: scan_inv_def tally_snoc)

lemma count_read_inv:
  assumes "scan_inv exclusions ids st" "jget (sn_cache st) i = None" "i \<notin> set ids"
  shows "scan_inv exclusions (ids @ [i]) (count_read exclusions i oc st)"
proof -
  have "scan_inv exclusions ids (st\<lparr>sn_cache := jput i c (sn_cache st), sn_dirty := b\<rparr>)" for c b
    using assms by (simp add: scan_inv_def tally_other)
  then show ?thesis
    using assms by (simp add: count_read_def Let_def count_cached_inv scan_inv_skip)
qed

section \<open>What is read\<close>

text \<open>
  The readings of a pass, in order and each once, with what the reader answered; a reading at which
  the process ends is the last one. \<open>learned_from\<close> is what they add to the cache: terminal states of
  intents that have an owner. \<open>failed_reads\<close> are the errors they leave.
\<close>

fun readings_of :: "(string \<Rightarrow> 'e \<Rightarrow> on_chain_intent outcome \<times> 'e) \<Rightarrow> string list \<Rightarrow> 'e \<Rightarrow>
    (string \<times> on_chain_intent outcome) list \<times> 'e" where
  "readings_of ask [] e = ([], e)"
| "readings_of ask (i # ids) e = (case ask (''0x'' @ i) e of (r, e1) \<Rightarrow>
     if r = Stop then ([(i, Stop)], e1)
     else (case readings_of ask ids e1 of (rs, e2) \<Rightarrow> ((i, r) # rs, e2)))"

fun learned_from :: "(string \<times> on_chain_intent outcome) list \<Rightarrow> (string, cached_intent) jmap" where
  "learned_from [] = []"
| "learned_from ((i, Ok oc) # rs) =
     (if isTerminalStatus (oi_status oc) \<and> toLowerCase (oi_owner oc) \<noteq> ZERO_ADDRESS
      then (i, \<lparr>ci_status = oi_status oc, ci_solver = toLowerCase (oi_solver oc)\<rparr>) # learned_from rs else learned_from rs)"
| "learned_from ((i, r) # rs) = learned_from rs"

fun failed_reads :: "(string \<times> on_chain_intent outcome) list \<Rightarrow> (string \<times> jstext) list" where
  "failed_reads [] = []"
| "failed_reads ((i, Throw e) # rs) = (''0x'' @ i, e) # failed_reads rs"
| "failed_reads ((i, r) # rs) = failed_reads rs"

definition cut_off :: "(string \<times> on_chain_intent outcome) list \<Rightarrow> bool" where
  "cut_off rs \<longleftrightarrow> Stop \<in> snd ` set rs"

definition unknown_ids :: "(string, cached_intent) jmap \<Rightarrow> string list \<Rightarrow> string list" where
  "unknown_ids cache ids = filter (\<lambda>i. jget cache i = None) ids"

lemma cut_off_simps [simp]: "\<not> cut_off []" "cut_off (x # rs) \<longleftrightarrow> snd x = Stop \<or> cut_off rs"
  by (auto simp: cut_off_def)

lemma cut_off_append [simp]: "cut_off (rs @ rs') \<longleftrightarrow> cut_off rs \<or> cut_off rs'"
  by (auto simp: cut_off_def)

lemma jget_append: "jget (m @ m') k = (case jget m k of None \<Rightarrow> jget m' k | Some v \<Rightarrow> Some v)"
  by (induction m) auto

lemma count_cached_scan [simp]:
  "sn_cache (count_cached exclusions i c st) = sn_cache st"
  "sn_dirty (count_cached exclusions i c st) = sn_dirty st"
  "sn_errors (count_cached exclusions i c st) = sn_errors st"
  by (simp_all add: count_cached_def)

lemma count_read_scan:
  assumes "jget (sn_cache st) i = None"
  shows "sn_cache (count_read exclusions i oc st) = sn_cache st @ learned_from [(i, Ok oc)]"
    and "sn_dirty (count_read exclusions i oc st) \<longleftrightarrow> sn_dirty st \<or> learned_from [(i, Ok oc)] \<noteq> []"
    and "sn_errors (count_read exclusions i oc st) = sn_errors st"
  using assms by (auto simp: count_read_def Let_def jput_new)

text \<open>The state of the loop after the given readings.\<close>

definition scanned_to :: "exclusion list \<Rightarrow> string list \<Rightarrow> (string \<times> on_chain_intent outcome) list \<Rightarrow> scan \<Rightarrow> scan \<Rightarrow> bool" where
  "scanned_to exclusions ids rs st st' \<longleftrightarrow> scan_inv exclusions ids st' \<and>
     sn_cache st' = sn_cache st @ learned_from rs \<and> sn_errors st' = sn_errors st @ failed_reads rs \<and>
     (sn_dirty st' \<longleftrightarrow> sn_dirty st \<or> learned_from rs \<noteq> [])"

lemma learned_from_append: "learned_from (rs @ rs') = learned_from rs @ learned_from rs'"
  by (induction rs rule: learned_from.induct) auto

lemma failed_reads_append: "failed_reads (rs @ rs') = failed_reads rs @ failed_reads rs'"
  by (induction rs rule: failed_reads.induct) auto

lemma scanned_to_trans:
  "scanned_to exclusions ids rs st st1 \<Longrightarrow> scanned_to exclusions ids' rs' st1 st2 \<Longrightarrow> scanned_to exclusions ids' (rs @ rs') st st2"
  by (auto simp: scanned_to_def learned_from_append failed_reads_append)

text \<open>
  The contract of the reader: a reading is a question to the outside and leaves the process as it is.
\<close>

locale chain_reader =
  fixes read :: "string \<Rightarrow> ('e world, on_chain_intent) js"
    and ask :: "string \<Rightarrow> 'e \<Rightarrow> on_chain_intent outcome \<times> 'e"
  assumes asks: "wp (read i) Q w = (case ask i (w_env w) of (r, e) \<Rightarrow> Q r (w\<lparr>w_env := e\<rparr>))"
begin

lemma scan_all_ok:
  assumes "distinct (before @ ids)" "scan_inv exclusions before st"
    and "readings_of ask (unknown_ids (sn_cache st) ids) (w_env w) = (rs, e)"
  shows "wp (scan_all read exclusions ids st) (\<lambda>r w'. w' = w\<lparr>w_env := e\<rparr> \<and>
     (cut_off rs \<longrightarrow> r = Stop) \<and> (\<not> cut_off rs \<longrightarrow> (\<exists>st'. r = Ok st' \<and> scanned_to exclusions (before @ ids) rs st st'))) w"
  using assms
proof (induction ids arbitrary: before st w rs)
  case Nil
  then show ?case by (auto simp: wp_ret unknown_ids_def scanned_to_def)
next
  case (Cons i ids)
  have i: "i \<notin> set before" "i \<notin> set ids" "distinct ((before @ [i]) @ ids)"
    using Cons.prems(1) by auto
  have rest: "wp (scan_all read exclusions ids st1) (\<lambda>r w'. w' = w\<lparr>w_env := e\<rparr> \<and>
      (cut_off (qs @ rs1) \<longrightarrow> r = Stop) \<and> (\<not> cut_off (qs @ rs1) \<longrightarrow> (\<exists>st'. r = Ok st' \<and> scanned_to exclusions (before @ i # ids) (qs @ rs1) st st')))
      (w\<lparr>w_env := e1\<rparr>)"
    if one: "scanned_to exclusions (before @ [i]) qs st st1" "\<not> cut_off qs"
      and known: "unknown_ids (sn_cache st1) ids = unknown_ids (sn_cache st) ids"
      and later: "readings_of ask (unknown_ids (sn_cache st) ids) e1 = (rs1, e)" for st1 qs rs1 e1
  proof -
    have "scan_inv exclusions (before @ [i]) st1"
      using one(1) by (simp add: scanned_to_def)
    moreover have "readings_of ask (unknown_ids (sn_cache st1) ids) (w_env (w\<lparr>w_env := e1\<rparr>)) = (rs1, e)"
      by (simp add: known later)
    ultimately have "wp (scan_all read exclusions ids st1) (\<lambda>r w'. w' = (w\<lparr>w_env := e1\<rparr>)\<lparr>w_env := e\<rparr> \<and>
        (cut_off rs1 \<longrightarrow> r = Stop) \<and> (\<not> cut_off rs1 \<longrightarrow> (\<exists>st'. r = Ok st' \<and> scanned_to exclusions ((before @ [i]) @ ids) rs1 st1 st')))
        (w\<lparr>w_env := e1\<rparr>)"
      by (rule Cons.IH [OF i(3)])
    then show ?thesis
      by (rule wp_mono) (use one in \<open>auto split: if_splits intro: scanned_to_trans\<close>)
  qed
  show ?case
  proof (cases "jget (sn_cache st) i")
    case (Some c)
    have one: "scanned_to exclusions (before @ [i]) [] st (count_cached exclusions i c st)"
      using count_cached_inv [OF Cons.prems(2) Some] by (simp add: scanned_to_def)
    have "readings_of ask (unknown_ids (sn_cache st) ids) (w_env w) = (rs, e)"
      using Cons.prems(3) Some by (simp add: unknown_ids_def)
    from rest [OF one _ _ this] show ?thesis
      by (simp add: scan_one_def Some wp_bnd wp_ret)
  next
    case None
    obtain r e1 where r: "ask (''0x'' @ i) (w_env w) = (r, e1)" by fastforce
    obtain rs1 e2 where later: "readings_of ask (unknown_ids (sn_cache st) ids) e1 = (rs1, e2)" by fastforce
    have rs: "(rs, e) = (if r = Stop then ([(i, Stop)], e1) else ((i, r) # rs1, e2))"
      using Cons.prems(3) None r later by (auto simp: unknown_ids_def)
    show ?thesis
    proof (cases r)
      case Stop
      then show ?thesis
        using rs by (simp add: scan_one_def None wp_bnd wp_catch asks r [simplified])
    next
      case (Ok oc)
      let ?st = "count_read exclusions i oc st"
      have "learned_from [(i, Ok oc)] = [] \<or> (\<exists>c. learned_from [(i, Ok oc)] = [(i, c)])" by simp
      then have "jget (sn_cache ?st) x = jget (sn_cache st) x" if "x \<noteq> i" for x
        using that unfolding count_read_scan(1) [OF None] by (auto simp: jget_append split: option.split)
      then have known: "unknown_ids (sn_cache ?st) ids = unknown_ids (sn_cache st) ids"
        using i(2) unfolding unknown_ids_def by (metis (no_types, lifting) filter_cong)
      have one: "scanned_to exclusions (before @ [i]) [(i, Ok oc)] st ?st"
        using count_read_inv [OF Cons.prems(2) None i(1), of oc]
        by (simp add: scanned_to_def count_read_scan [OF None])
      have "e2 = e" "rs = [(i, Ok oc)] @ rs1" using rs Ok by simp_all
      with rest [OF one _ known] later show ?thesis
        by (simp add: scan_one_def None wp_bnd wp_catch wp_ret asks r [simplified] Ok)
    next
      case (Throw m)
      let ?st = "st\<lparr>sn_errors := sn_errors st @ [(''0x'' @ i, m)]\<rparr>"
      have one: "scanned_to exclusions (before @ [i]) [(i, Throw m)] st ?st"
        using scan_inv_skip [OF Cons.prems(2) None] by (simp add: scanned_to_def scan_inv_def)
      have "e2 = e" "rs = [(i, Throw m)] @ rs1" using rs Throw by simp_all
      with rest [OF one] later show ?thesis
        by (simp add: scan_one_def None wp_bnd wp_catch wp_ret asks r [simplified] Throw)
    qed
  qed
qed

end

text \<open>
  What a pass leaves behind: the records counted from the cache with what was learned, the errors,
  and the cache file, which is written only when something was learned.
\<close>

definition stats_ok :: "exclusion list \<Rightarrow> string list \<Rightarrow> (string, cached_intent) jmap \<Rightarrow>
    (string \<times> on_chain_intent outcome) list \<Rightarrow> stats_result \<Rightarrow> bool" where
  "stats_ok exclusions ids cache rs res \<longleftrightarrow>
     (\<forall>s. (case jget (st_records res) s of None \<Rightarrow> record_of emptyRecordAccumulator | Some r \<Rightarrow> r) =
        (if s = ZERO_ADDRESS then record_of emptyRecordAccumulator else record_of (tally exclusions cache s ids))) \<and>
     st_errors res = failed_reads rs \<and> (st_complete res \<longleftrightarrow> (\<forall>x \<in> set rs. \<exists>oc. snd x = Ok oc))"

definition cache_saved :: "'e os \<Rightarrow> (string, cached_intent) jmap \<Rightarrow> 'e world \<Rightarrow> bool \<times> 'e world" where
  "cache_saved S cache w = (case os_write S Stats_cache_file (w_env w) of (b, e) \<Rightarrow>
     (b \<noteq> Wr_killed, w\<lparr>w_env := e, w_cache := (if b = Wr_ok then cache else w_cache w)\<rparr>))"

lemma jget_map: "jget (map (\<lambda>(k, v). (k, f v)) m) k = map_option f (jget m k)"
  by (induction m) auto

lemma failed_reads_none: "\<not> cut_off rs \<Longrightarrow> failed_reads rs = [] \<longleftrightarrow> (\<forall>x \<in> set rs. \<exists>oc. snd x = Ok oc)"
  by (induction rs rule: failed_reads.induct) auto

lemma stats_of_ok:
  assumes "scanned_to exclusions ids rs (fresh_scan cache) st" "\<not> cut_off rs"
  shows "stats_ok exclusions ids (cache @ learned_from rs) rs (stats_of st)"
  using assms
  by (auto simp: stats_ok_def scanned_to_def fresh_scan_def stats_of_def jget_map scan_inv_def acc_of_def failed_reads_none
      split: option.split)

lemma wp_saveCache:
  "wp (saveCache S c) Q w = (case cache_saved S c w of (ok, w') \<Rightarrow> Q (if ok then Ok () else Stop) w')"
  by (auto simp: saveCache_def cache_saved_def wp_catch wp_save_file on_throw_def wp_ret
      split: prod.split write_result.split)

lemma display_only_saveCache [simp]: "display_only (saveCache S c)"
  by (rule display_onlyI) (simp add: wp_saveCache cache_saved_def split: prod.split)

context chain_reader
begin

lemma read_record_ok:
  assumes "readings_of ask (unknown_ids (w_cache w) (uniq (map keyOf ids))) (w_env w) = (rs, e)"
  shows "wp (readSolverRecord S read ids) (\<lambda>r w'.
     if cut_off rs then r = Stop \<and> w' = w\<lparr>w_env := e\<rparr>
     else (case (if learned_from rs = [] then (True, w\<lparr>w_env := e\<rparr>)
               else cache_saved S (w_cache w @ learned_from rs) (w\<lparr>w_env := e\<rparr>)) of
        (ok, w1) \<Rightarrow> w' = w1 \<and> (if ok then \<exists>res. r = Ok res \<and>
            stats_ok (case os_exclusions S (w_env w) of None \<Rightarrow> [] | Some es \<Rightarrow> es) (uniq (map keyOf ids))
              (w_cache w @ learned_from rs) rs res
          else r = Stop))) w" (is "wp _ ?Q w")
proof -
  let ?ex = "case os_exclusions S (w_env w) of None \<Rightarrow> [] | Some es \<Rightarrow> es"
  let ?ids = "uniq (map keyOf ids)" and ?st = "fresh_scan (w_cache w)"
  have inv: "scan_inv ?ex [] ?st"
    by (simp add: scan_inv_def fresh_scan_def tally_def acc_of_def emptyRecordAccumulator_def)
  have "readings_of ask (unknown_ids (sn_cache ?st) ?ids) (w_env w) = (rs, e)"
    using assms by (simp add: fresh_scan_def)
  from scan_all_ok [of "[]", unfolded append_Nil, OF distinct_uniq inv this]
  have scan: "wp (scan_all read ?ex ?ids ?st) (\<lambda>r w'. w' = w\<lparr>w_env := e\<rparr> \<and>
      (cut_off rs \<longrightarrow> r = Stop) \<and> (\<not> cut_off rs \<longrightarrow> (\<exists>st'. r = Ok st' \<and> scanned_to ?ex ?ids rs ?st st'))) w" .
  have finish: "wp (sq (if sn_dirty st then saveCache S (sn_cache st) else js_ret ()) (js_ret (stats_of st)))
      ?Q (w\<lparr>w_env := e\<rparr>)"
    if "scanned_to ?ex ?ids rs ?st st" "\<not> cut_off rs" for st
  proof -
    have "sn_cache st = w_cache w @ learned_from rs" "sn_dirty st \<longleftrightarrow> learned_from rs \<noteq> []"
      using that(1) by (simp_all add: scanned_to_def fresh_scan_def)
    with stats_of_ok [OF that] that(2) show ?thesis
      by (auto simp: wp_sq wp_if wp_ret wp_saveCache split: prod.split)
  qed
  show ?thesis
    unfolding readSolverRecord_def loadExclusions_def wp_bnd [of "js_get _"] wp_get on_ok_simps
  proof (rule wp_bndI [OF scan])
    fix st and w1 :: "'e world"
    assume "w1 = w\<lparr>w_env := e\<rparr> \<and> (cut_off rs \<longrightarrow> Ok st = Stop) \<and>
      (\<not> cut_off rs \<longrightarrow> (\<exists>st'. Ok st = Ok st' \<and> scanned_to ?ex ?ids rs ?st st'))"
    then have w1: "w1 = w\<lparr>w_env := e\<rparr>" and st: "scanned_to ?ex ?ids rs ?st st" "\<not> cut_off rs" by auto
    show "wp (sq (if sn_dirty st then saveCache S (sn_cache st) else js_ret ()) (js_ret (stats_of st))) ?Q w1"
      unfolding w1 by (rule finish [OF st])
  qed auto
qed

lemma read_record_core: "display_only (readSolverRecord S read ids)"
proof (rule display_onlyI)
  fix w :: "'e world"
  obtain rs e where "readings_of ask (unknown_ids (w_cache w) (uniq (map keyOf ids))) (w_env w) = (rs, e)"
    by fastforce
  from read_record_ok [OF this] show "wp (readSolverRecord S read ids) (\<lambda>_ w'. core w' = core w) w"
    by (rule wp_mono) (auto simp: cache_saved_def split: if_splits prod.splits)
qed

end

text \<open>What the contract's \<^verbatim>\<open>intents(id)\<close> says of an intent at some time; the reader the orchestrator wires in.\<close>

definition reported_intent :: "'e os \<Rightarrow> string \<Rightarrow> on_chain_intent \<Rightarrow> bool" where
  "reported_intent S i oc \<longleftrightarrow> (\<exists>e. fst (os_intents S i e) = Ok oc)"

interpretation intents: chain_reader "\<lambda>i. ext (os_intents S i)" "os_intents S" for S :: "'e os"
  by unfold_locales (simp add: wp_ext)

section \<open>Properties\<close>

text \<open>C23: The track record is a count of facts. Of the given intents, each counted once however it is
  spelled, exactly those that are not cached are read from the chain, in order, each once. What is
  learned (the state and solver of terminal intents that have an owner) is appended to the cache, and
  the cache file then holds just that unless its write fails; nothing learned, nothing written. Each
  solver's settled, slashed, refunded, expired and excluded numbers are those of the given intents in
  that cache, the rest derived from them; the errors are exactly the readings that failed, and the
  result is called complete exactly when every reading succeeded. Nothing else changes.\<close>

theorem readSolverRecord_spec:
  "case readings_of (os_intents S) (unknown_ids (w_cache w) (uniq (map keyOf intentIds))) (w_env w) of (rs, e) \<Rightarrow>
     wp (readSolverRecord S (\<lambda>i. ext (os_intents S i)) intentIds) (\<lambda>r w'.
       if cut_off rs then r = Stop \<and> w' = w\<lparr>w_env := e\<rparr>
       else (case (if learned_from rs = [] then (True, w\<lparr>w_env := e\<rparr>)
                 else cache_saved S (w_cache w @ learned_from rs) (w\<lparr>w_env := e\<rparr>)) of
          (ok, w1) \<Rightarrow> w' = w1 \<and> (if ok then \<exists>res. r = Ok res \<and>
              stats_ok (case os_exclusions S (w_env w) of None \<Rightarrow> [] | Some es \<Rightarrow> es) (uniq (map keyOf intentIds))
                (w_cache w @ learned_from rs) rs res
            else r = Stop))) w"
proof -
  obtain rs e where "readings_of (os_intents S) (unknown_ids (w_cache w) (uniq (map keyOf intentIds))) (w_env w) = (rs, e)"
    by fastforce
  with intents.read_record_ok [OF this] show ?thesis
    by (simp only: prod.case)
qed

text \<open>C24: From an onboarding tier of 1 to 3 the tier moves by at most one step and stays in that
  range; it improves only when every read succeeded and both promotion thresholds are met, and
  without resolved intents it is the onboarding tier.\<close>

theorem computeTier_spec:
  assumes "onboardingTier \<in> {1, 2, 3}"
  shows "computeTier onboardingTier r config allRead \<in> {1, 2, 3}
    \<and> \<bar>computeTier onboardingTier r config allRead - onboardingTier\<bar> \<le> 1
    \<and> (sr_resolved r = 0 \<longrightarrow> computeTier onboardingTier r config allRead = onboardingTier)
    \<and> (computeTier onboardingTier r config allRead < onboardingTier \<longrightarrow>
        allRead \<and> js_le (tg_promoteMinResolved config) (num_of_int (int (sr_resolved r))) \<and>
        (\<exists>rate. sr_successRate r = Some rate \<and> js_le (tg_promoteMinSuccess config) (Num rate)))"
  using assms by (auto simp: computeTier_def Let_def min_def max_def split: option.split)

definition good_record :: solver_record where
  "good_record = record_of \<lparr>n_settled = 4, n_slashed = 0, n_refunded = 0, n_expired = 0, n_excluded = 1\<rparr>"

definition easy_tiers :: tier_config where
  "easy_tiers = \<lparr>tg_promoteMinResolved = Num 4, tg_promoteMinSuccess = Num (9 / 10),
     tg_demoteMinResolved = Num 3, tg_demoteMaxSuccess = Num (8 / 10)\<rparr>"

theorem computeTier_witness:
  "computeTier 2 good_record easy_tiers True = 1 \<and> computeTier 2 good_record easy_tiers True \<in> {1, 2, 3}
   \<and> computeTier 2 good_record easy_tiers False = 2"
proof -
  have "(2 :: int) \<in> {1, 2, 3}" by simp
  note computeTier_spec [OF this, of good_record easy_tiers True]
  moreover have "computeTier 2 good_record easy_tiers True = 1" "computeTier 2 good_record easy_tiers False = 2"
    by (simp_all add: computeTier_def good_record_def easy_tiers_def record_of_def Let_def)
  ultimately show ?thesis by simp
qed

text \<open>C25: With whole percentages between 0 and 100 that do not rise from tier 1 to tier 3, the caps
  exist, do not rise from tier 1 to tier 3, and none exceeds the transfer limit.\<close>

theorem tierCapWei_spec:
  assumes "0 \<le> maxTransferWei" "0 \<le> p3" "p3 \<le> p2" "p2 \<le> p1" "p1 \<le> 100"
    and "pcts = \<lparr>cp_1 = num_of_int p1, cp_2 = num_of_int p2, cp_3 = num_of_int p3\<rparr>"
  shows "\<exists>c1 c2 c3. tierCapWei 1 maxTransferWei pcts = Inr c1 \<and> tierCapWei 2 maxTransferWei pcts = Inr c2
    \<and> tierCapWei 3 maxTransferWei pcts = Inr c3 \<and> 0 \<le> c3 \<and> c3 \<le> c2 \<and> c2 \<le> c1 \<and> c1 \<le> maxTransferWei"
proof -
  have round: "js_round (num_of_int p) = num_of_int p" for p
    by (simp add: floor_eq_iff)
  have cap: "bigdiv (maxTransferWei * p) 100 = maxTransferWei * p div 100" if "0 \<le> p" for p
    using assms(1) that by (simp add: bigdiv_nonneg)
  have mono: "maxTransferWei * p div 100 \<le> maxTransferWei * q div 100" if "p \<le> q" for p q
    using assms(1) that by (intro zdiv_mono1 mult_left_mono) auto
  have "maxTransferWei * p1 div 100 \<le> maxTransferWei * 100 div 100"
    using assms by (intro mono)
  moreover have "0 \<le> maxTransferWei * p3 div 100"
    using assms(1,2) by (simp add: pos_imp_zdiv_nonneg_iff)
  ultimately show ?thesis
    using assms by (simp add: tierCapWei_def pct_of_def round del: js_round.simps) (simp add: cap mono)
qed

theorem tierCapWei_witness:
  "\<exists>c1 c2 c3. tierCapWei 1 1000 \<lparr>cp_1 = num_of_int 100, cp_2 = num_of_int 30, cp_3 = num_of_int 5\<rparr> = Inr c1
    \<and> tierCapWei 2 1000 \<lparr>cp_1 = num_of_int 100, cp_2 = num_of_int 30, cp_3 = num_of_int 5\<rparr> = Inr c2
    \<and> tierCapWei 3 1000 \<lparr>cp_1 = num_of_int 100, cp_2 = num_of_int 30, cp_3 = num_of_int 5\<rparr> = Inr c3
    \<and> 0 \<le> c3 \<and> c3 \<le> c2 \<and> c2 \<le> c1 \<and> c1 \<le> 1000"
  by (rule tierCapWei_spec) simp_all

end
