(* ===== verification/Reservation_Book.thy ===== *)
theory Reservation_Book
  imports World
begin

text \<open>
  \<^verbatim>\<open>ReservationBook\<close> of \<^verbatim>\<open>solver_routing.ts\<close>: the capital each solver has promised, by intent. The
  mutex of the class (\<^verbatim>\<open>runExclusive\<close>) is not modelled: a selection is one step of the model.
  \<open>w_book\<close> is the book of the process. Abstractly it is a partial map from solver and intent, both case-insensitive, to a reservation; every operation is
  shown to be an update of that map.
\<close>

section \<open>The reservation book\<close>

definition reserve :: "string \<Rightarrow> string \<Rightarrow> int \<Rightarrow> book \<Rightarrow> book" where
  "reserve solver intentId wei b =
     (let s = toLowerCase solver; forSolver = (case jget b s of None \<Rightarrow> [] | Some m \<Rightarrow> m)
      in jput s (jput (keyOf intentId) \<lparr>rv_wei = wei, rv_releaseAtMs = None\<rparr> forSolver) b)"

definition holdFor :: "string \<Rightarrow> string \<Rightarrow> jsnum \<Rightarrow> int \<Rightarrow> book \<Rightarrow> book" where
  "holdFor solver intentId holdMs nowMs b =
     (let s = toLowerCase solver in
      case jget b s of None \<Rightarrow> b
      | Some forSolver \<Rightarrow> (case jget forSolver (keyOf intentId) of None \<Rightarrow> b
          | Some r \<Rightarrow> (case rv_releaseAtMs r of Some t \<Rightarrow> b
              | None \<Rightarrow> jput s (jput (keyOf intentId)
                  (r\<lparr>rv_releaseAtMs := Some (js_add (num_of_int nowMs) holdMs)\<rparr>) forSolver) b)))"

definition release :: "string \<Rightarrow> string \<Rightarrow> book \<Rightarrow> bool \<times> book" where
  "release solver intentId b =
     (let s = toLowerCase solver in
      case jget b s of None \<Rightarrow> (False, b)
      | Some forSolver \<Rightarrow> (jget forSolver (keyOf intentId) \<noteq> None, jput s (jdel (keyOf intentId) forSolver) b))"

definition lapsed :: "int \<Rightarrow> reservation \<Rightarrow> bool" where
  "lapsed now r = (case rv_releaseAtMs r of None \<Rightarrow> False | Some t \<Rightarrow> js_le t (num_of_int now))"

text \<open>The sum, and the book without the reservations that have lapsed.\<close>

definition reservedWei :: "string \<Rightarrow> int \<Rightarrow> book \<Rightarrow> int \<times> book" where
  "reservedWei solver now b =
     (let s = toLowerCase solver in
      case jget b s of None \<Rightarrow> (0, b)
      | Some forSolver \<Rightarrow>
          (let alive = filter (\<lambda>(i, r). \<not> lapsed now r) forSolver
           in (sum_list (map (\<lambda>(i, r). rv_wei r) alive), jput s alive b)))"

definition hasIntent :: "string \<Rightarrow> book \<Rightarrow> bool" where
  "hasIntent intentId b \<longleftrightarrow> list_ex (\<lambda>(s, m). jget m (keyOf intentId) \<noteq> None) b"

section \<open>The book as a partial map\<close>

definition book_get :: "book \<Rightarrow> string \<Rightarrow> string \<Rightarrow> reservation option" where
  "book_get b solver intentId =
     (case jget b (toLowerCase solver) of None \<Rightarrow> None | Some m \<Rightarrow> jget m (keyOf intentId))"

definition same_slot :: "string \<Rightarrow> string \<Rightarrow> string \<Rightarrow> string \<Rightarrow> bool" where
  "same_slot s i s' i' \<longleftrightarrow> toLowerCase s = toLowerCase s' \<and> keyOf i = keyOf i'"

definition book_wf :: "book \<Rightarrow> bool" where
  "book_wf b \<longleftrightarrow> jwf b \<and> (\<forall>m \<in> snd ` set b. jwf m)"

lemma book_wf_jput: "book_wf b \<Longrightarrow> jwf m \<Longrightarrow> book_wf (jput s m b)"
  by (auto simp: book_wf_def dest: in_set_jput)

lemma book_wf_inner: "book_wf b \<Longrightarrow> jget b s = Some m \<Longrightarrow> jwf m"
  by (force simp: book_wf_def dest: jget_Some_in)

lemma book_wf_Nil [simp]: "book_wf []"
  by (simp add: book_wf_def)

lemma jwf_filter [simp]: "jwf m \<Longrightarrow> jwf (filter P m)"
  by (induction m) auto

lemma jget_filter:
  assumes "jwf m"
  shows "jget (filter (\<lambda>(i, r). P r) m) k =
    (case jget m k of None \<Rightarrow> None | Some r \<Rightarrow> if P r then Some r else None)"
proof -
  let ?f = "filter (\<lambda>(i, r). P r) m"
  have iff: "jget ?f k = Some v \<longleftrightarrow> jget m k = Some v \<and> P v" for v
    using assms by (auto simp: jget_eq_iff)
  have none: "(\<And>v. jget ?f k \<noteq> Some v) \<Longrightarrow> jget ?f k = None"
    by (cases "jget ?f k") blast+
  show ?thesis
  proof (cases "jget m k")
    case None
    then have "jget ?f k = None" by (intro none) (auto simp: iff)
    with None show ?thesis by simp
  next
    case (Some r)
    then have "\<not> P r \<Longrightarrow> jget ?f k = None" by (intro none) (auto simp: iff)
    with Some iff [of r] show ?thesis by simp
  qed
qed

lemma reserve_wf: "book_wf b \<Longrightarrow> book_wf (reserve s i v b)"
  unfolding reserve_def Let_def
  by (cases "jget b (toLowerCase s)") (simp_all add: book_wf_jput jwf_jput book_wf_inner)

lemma holdFor_wf: "book_wf b \<Longrightarrow> book_wf (holdFor s i h n b)"
  unfolding holdFor_def Let_def
  by (auto simp: book_wf_jput jwf_jput book_wf_inner split: option.split)

lemma release_wf: "book_wf b \<Longrightarrow> book_wf (snd (release s i b))"
  unfolding release_def Let_def
  by (cases "jget b (toLowerCase s)") (simp_all add: book_wf_jput jwf_jdel book_wf_inner)

lemma reservedWei_wf: "book_wf b \<Longrightarrow> book_wf (snd (reservedWei s n b))"
  unfolding reservedWei_def Let_def
  by (cases "jget b (toLowerCase s)") (simp_all add: book_wf_jput jwf_filter book_wf_inner)

lemmas book_ops_wf = reserve_wf holdFor_wf release_wf reservedWei_wf

lemma book_get_reserve:
  "book_get (reserve s i v b) s' i' =
   (if same_slot s i s' i' then Some \<lparr>rv_wei = v, rv_releaseAtMs = None\<rparr> else book_get b s' i')"
  by (auto simp: book_get_def reserve_def same_slot_def Let_def split: option.split)

lemma book_get_holdFor:
  "book_get (holdFor s i h n b) s' i' =
   (if same_slot s i s' i'
    then map_option (\<lambda>r. if rv_releaseAtMs r = None
           then r\<lparr>rv_releaseAtMs := Some (js_add (num_of_int n) h)\<rparr> else r) (book_get b s i)
    else book_get b s' i')"
  by (auto simp: book_get_def holdFor_def same_slot_def Let_def split: option.split)

lemma book_get_release:
  "book_wf b \<Longrightarrow> book_get (snd (release s i b)) s' i' =
     (if same_slot s i s' i' then None else book_get b s' i')"
  "fst (release s i b) \<longleftrightarrow> book_get b s i \<noteq> None"
  by (auto simp: book_get_def release_def same_slot_def Let_def jget_jdel dest: book_wf_inner split: option.split)

lemma book_get_reservedWei:
  "book_wf b \<Longrightarrow> book_get (snd (reservedWei s n b)) s' i' =
     (case book_get b s' i' of None \<Rightarrow> None
      | Some r \<Rightarrow> if toLowerCase s' = toLowerCase s \<and> lapsed n r then None else Some r)"
  by (auto simp: book_get_def reservedWei_def Let_def jget_filter dest: book_wf_inner split: option.split)

section \<open>Sums\<close>

text \<open>What is promised to a solver's intents, lapsed or not.\<close>

definition booked :: "book \<Rightarrow> string \<Rightarrow> int" where
  "booked b solver = (case jget b (toLowerCase solver) of None \<Rightarrow> 0
     | Some m \<Rightarrow> sum_list (map (\<lambda>(i, r). rv_wei r) m))"

lemma reservedWei_booked: "fst (reservedWei s n b) = booked (snd (reservedWei s n b)) s"
  by (simp add: reservedWei_def booked_def Let_def split: option.split)

lemma booked_reservedWei_other:
  "toLowerCase s' \<noteq> toLowerCase s \<Longrightarrow> booked (snd (reservedWei s n b)) s' = booked b s'"
  by (simp add: reservedWei_def booked_def Let_def split: option.split)

lemma booked_reserve:
  "book_get b s i = None \<Longrightarrow>
   booked (reserve s i v b) s' = booked b s' + (if toLowerCase s' = toLowerCase s then v else 0)"
  by (auto simp: booked_def reserve_def book_get_def Let_def jput_new split: option.splits)

lemma hasIntent_iff: "book_wf b \<Longrightarrow> hasIntent i b \<longleftrightarrow> (\<exists>s m. jget b s = Some m \<and> jget m (keyOf i) \<noteq> None)"
  unfolding hasIntent_def list_ex_iff book_wf_def
  by (force simp: jget_eq_iff dest: jget_Some_in)

section \<open>Properties\<close>

text \<open>C26: The book is a partial map from solver and intent, however they are spelled: reserving
  writes an unresolved reservation, holding sets the time of a present and unresolved one and nothing
  else, releasing removes it and says whether it was there, and asking for the reserved amount
  removes the lapsed reservations of that solver and answers with the sum of the rest.\<close>

theorem ReservationBook_spec:
  assumes "book_wf b"
  shows "book_get (reserve s i v b) s' i' =
      (if same_slot s i s' i' then Some \<lparr>rv_wei = v, rv_releaseAtMs = None\<rparr> else book_get b s' i')
    \<and> book_get (holdFor s i h n b) s' i' =
      (if same_slot s i s' i'
       then map_option (\<lambda>r. if rv_releaseAtMs r = None
              then r\<lparr>rv_releaseAtMs := Some (js_add (num_of_int n) h)\<rparr> else r) (book_get b s i)
       else book_get b s' i')
    \<and> book_get (snd (release s i b)) s' i' = (if same_slot s i s' i' then None else book_get b s' i')
    \<and> fst (release s i b) = (book_get b s i \<noteq> None)
    \<and> book_get (snd (reservedWei s n b)) s' i' =
      (case book_get b s' i' of None \<Rightarrow> None
       | Some r \<Rightarrow> if toLowerCase s' = toLowerCase s \<and> lapsed n r then None else Some r)
    \<and> fst (reservedWei s n b) = booked (snd (reservedWei s n b)) s"
  by (intro conjI book_get_reserve book_get_holdFor book_get_release book_get_reservedWei
      reservedWei_booked assms)

theorem ReservationBook_witness:
  "fst (reservedWei ''0xA'' 5 (holdFor ''0xa'' ''0xF'' (Num 3) 2 (reserve ''0xA'' ''f'' 7 []))) = 0 \<and>
   fst (reservedWei ''0xA'' 4 (holdFor ''0xa'' ''0xF'' (Num 3) 2 (reserve ''0xA'' ''f'' 7 []))) = 7"
proof -
  let ?b = "holdFor ''0xa'' ''0xF'' (Num 3) 2 (reserve ''0xA'' ''f'' 7 [])"
  have "book_wf ?b" by (intro book_ops_wf book_wf_Nil)
  have "booked (snd (reservedWei ''0xA'' 5 ?b)) ''0xA'' = 0" "booked (snd (reservedWei ''0xA'' 4 ?b)) ''0xA'' = 7"
    by code_simp+
  then show ?thesis
    using ReservationBook_spec [OF \<open>book_wf ?b\<close>, of "''0xA''" _ _ _ _ _ 5]
      ReservationBook_spec [OF \<open>book_wf ?b\<close>, of "''0xA''" _ _ _ _ _ 4] by simp
qed

end
