(* ===== verification/Solver_Routing.thy ===== *)
theory Solver_Routing
  imports Solver_Stats Arb_Settlement Reservation_Book
    "HOL-Library.List_Lexorder" "HOL-Library.Char_ord"
begin

text \<open>
  \<^verbatim>\<open>solver_routing.ts\<close>: which solver posts the collateral. \<open>selectSolver\<close> reads everything about
  the candidates; \<open>decide\<close> evaluates, ranks and reserves in one synchronous step.
\<close>

section \<open>Onboarding tiers\<close>

text \<open>
  The entries of the file as read: the solver if it is a string, the tier if it is a number.
  \<open>None\<close> is a file that is missing, does not parse or is no array.
\<close>

definition loadOnboardingTiers :: "(string option \<times> int option) list option \<Rightarrow> string \<Rightarrow> int" where
  "loadOnboardingTiers raw solver =
     (let tiers = (case raw of None \<Rightarrow> []
        | Some es \<Rightarrow> fold (\<lambda>(s, t) m. case (s, t) of
              (Some a, Some n) \<Rightarrow> if n \<in> {1, 2, 3} then jput (toLowerCase a) n m else m
            | _ \<Rightarrow> m) es [])
      in case jget tiers (toLowerCase solver) of None \<Rightarrow> 3 | Some t \<Rightarrow> t)"

definition reservationHoldSec :: "env_vars \<Rightarrow> jsnum" where
  "reservationHoldSec env = js_Number (nullish (map_of env ''RESERVATION_HOLD_SEC'') ''30'')"

section \<open>Selection\<close>

record routing_gate =
  rg_maxTransferWei :: int
  rg_gasBufferWei :: int
  rg_deliveryMarginSec :: jsnum

record 'e selection_deps =
  s_isApproved :: "string \<Rightarrow> ('e world, bool) js"
  s_getBalanceWei :: "string \<Rightarrow> ('e world, int) js"
  s_readIntent :: "string \<Rightarrow> ('e world, on_chain_intent) js"
  s_getSolverRecords :: "('e world, stats_result) js"
  s_getOnboardingTier :: "string \<Rightarrow> int"
  s_gate :: routing_gate
  s_tierConfig :: tier_config
  s_tierCapPct :: tier_cap_pct
  s_nowMs :: "('e world, int) js"

record candidate =
  ca_solver :: string
  ca_reasons :: "jstext list"
  ca_tier :: "int option"
  ca_tierCapWei :: "int option"
  ca_successRate :: "rat option"
  ca_availableWei :: "int option"

definition eligible :: "candidate \<Rightarrow> bool" where
  "eligible c \<longleftrightarrow> ca_reasons c = []"

text \<open>
  The order in which survivors are ranked: smaller tier cap, then higher success rate (none ranks
  as -1, below any rate), then more available capital, then the lower address.
\<close>

datatype rank = Rank int rat int string

fun ranks_up_to :: "rank \<Rightarrow> rank \<Rightarrow> bool" where
  "ranks_up_to (Rank c r a s) (Rank c' r' a' s') \<longleftrightarrow>
     c < c' \<or> c = c' \<and> (r' < r \<or> r = r' \<and> (a' < a \<or> a = a' \<and> s \<le> s'))"

instantiation rank :: linorder
begin

definition less_eq_rank :: "rank \<Rightarrow> rank \<Rightarrow> bool" where
  "less_eq_rank x y \<longleftrightarrow> ranks_up_to x y"

definition less_rank :: "rank \<Rightarrow> rank \<Rightarrow> bool" where
  "less_rank x y \<longleftrightarrow> x \<le> y \<and> \<not> y \<le> x"

instance
proof
  fix x y z :: rank
  show "x < y \<longleftrightarrow> x \<le> y \<and> \<not> y \<le> x" by (rule less_rank_def)
  show "x \<le> x" by (cases x) (simp add: less_eq_rank_def)
  show "x \<le> y \<Longrightarrow> y \<le> z \<Longrightarrow> x \<le> z" by (cases x; cases y; cases z) (auto simp: less_eq_rank_def)
  show "x \<le> y \<Longrightarrow> y \<le> x \<Longrightarrow> x = y" by (cases x; cases y) (auto simp: less_eq_rank_def)
  show "x \<le> y \<or> y \<le> x" by (cases x; cases y) (auto simp: less_eq_rank_def)
qed

end

lemma rank_le [simp]:
  "Rank c r a s \<le> Rank c' r' a' s' \<longleftrightarrow> c < c' \<or> c = c' \<and> (r' < r \<or> r = r' \<and> (a' < a \<or> a = a' \<and> s \<le> s'))"
  by (simp add: less_eq_rank_def)

definition byRate :: "candidate \<Rightarrow> rat" where
  "byRate e = (case ca_successRate e of None \<Rightarrow> -1 | Some r \<Rightarrow> r)"

definition rank_of :: "candidate \<Rightarrow> rank" where
  "rank_of e = Rank (the (ca_tierCapWei e)) (byRate e) (the (ca_availableWei e)) (toLowerCase (ca_solver e))"

record selection =
  sel_solver :: "string option"
  sel_tier :: "int option"
  sel_reason :: jstext
  sel_collateralWei :: int
  sel_reservationWei :: int
  sel_candidates :: "candidate list"

record candidate_reads =
  cr_solver :: string
  cr_approved :: "bool option"
  cr_balance :: "int option"

definition attempt :: "('w, 'a) js \<Rightarrow> ('w, 'a option) js" where
  "attempt m = js_catch (bnd m (\<lambda>x. js_ret (Some x))) (\<lambda>_. js_ret None)"

definition read_candidate :: "'e selection_deps \<Rightarrow> string \<Rightarrow> ('e world, candidate_reads) js" where
  "read_candidate sd solver =
     bnd (attempt (s_isApproved sd solver)) (\<lambda>approved.
     bnd (attempt (s_getBalanceWei sd solver)) (\<lambda>balance.
       js_ret \<lparr>cr_solver = solver, cr_approved = approved, cr_balance = balance\<rparr>))"

definition intent_failure :: "on_chain_intent option \<Rightarrow> jstext list" where
  "intent_failure onChain = (case onChain of
       None \<Rightarrow> [js ''intent_read_failed'']
     | Some i \<Rightarrow> if oi_status i \<noteq> INTENT_STATUS_PENDING \<or> toLowerCase (oi_solver i) \<noteq> ZERO_ADDRESS
         then [js (''intent_not_open_onchain(status='' @ bigint_toString (oi_status i) @ '',solver='' @
                   oi_solver i @ '')'')]
         else [])"

text \<open>
  The collateral that signed but unconfirmed transactions may still take from a solver: an entry
  without a solver counts against everyone, one without an amount as the largest possible.
\<close>

fun ledgerReservedWei :: "routing_gate \<Rightarrow> string \<Rightarrow> (string \<times> arb_entry) list \<Rightarrow> jstext + int" where
  "ledgerReservedWei gate solver [] = Inr 0"
| "ledgerReservedWei gate solver ((i, entry) # es) =
     (if truthy (ae_solver entry) \<and> toLowerCase (the (ae_solver entry)) \<noteq> toLowerCase solver
      then ledgerReservedWei gate solver es
      else (case (if truthy (ae_collateralWei entry) then js_BigInt (the (ae_collateralWei entry))
                  else Inr (bigdiv (rg_maxTransferWei gate * 150) 100)) of
          Inl e \<Rightarrow> Inl e
        | Inr collateral \<Rightarrow> (case ledgerReservedWei gate solver es of
              Inl e \<Rightarrow> Inl e
            | Inr rest \<Rightarrow> Inr (collateral + rg_gasBufferWei gate + rest))))"

definition gate_params :: "routing_gate \<Rightarrow> int \<Rightarrow> int \<Rightarrow> arb_gate_params" where
  "gate_params gate nowSec balance =
     \<lparr>gp_maxTransferWei = rg_maxTransferWei gate, gp_solverBalanceWei = balance,
      gp_gasBufferWei = rg_gasBufferWei gate, gp_nowSec = nowSec,
      gp_deliveryMarginSec = rg_deliveryMarginSec gate\<rparr>"

definition capital_reason :: "int \<Rightarrow> int \<Rightarrow> string \<Rightarrow> jstext" where
  "capital_reason available reservation check =
     (if check = ''insufficient_solver_balance''
      then js (''insufficient_available_capital(available='' @ bigint_toString available @ '',required='' @
               bigint_toString reservation @ '')'')
      else js check)"

definition approval_reasons :: "bool option \<Rightarrow> jstext list" where
  "approval_reasons approved = (case approved of None \<Rightarrow> [js ''approval_read_failed'']
     | Some ok \<Rightarrow> if ok then [] else [js ''not_approved''])"

text \<open>The capital part of one candidate: its available balance, if it could be read, and the reasons.\<close>

definition capital_check ::
  "'e selection_deps \<Rightarrow> proof_json \<Rightarrow> int \<Rightarrow> int \<Rightarrow> (string \<times> arb_entry) list \<Rightarrow> candidate_reads \<Rightarrow>
   ('e world, int option \<times> jstext list) js" where
  "capital_check sd json nowSec reservationWei inFlight r =
     (case cr_balance r of
        None \<Rightarrow>
          bnd (js_lift (evaluateArbitrumGate json (gate_params (s_gate sd) nowSec 0))) (\<lambda>gate.
            js_ret (None, js ''balance_read_failed'' #
              map js (filter (\<lambda>c. c \<noteq> ''insufficient_solver_balance'') (ag_failedChecks gate))))
      | Some balance \<Rightarrow>
          bnd (s_nowMs sd) (\<lambda>now.
          bnd (js_get (\<lambda>w. fst (reservedWei (cr_solver r) now (w_book w)))) (\<lambda>reserved.
          sq (js_mod (\<lambda>w. w\<lparr>w_book := snd (reservedWei (cr_solver r) now (w_book w))\<rparr>))
          (bnd (js_lift (ledgerReservedWei (s_gate sd) (cr_solver r) inFlight)) (\<lambda>inLedger.
           let available = balance - reserved - inLedger in
           bnd (js_lift (evaluateArbitrumGate json (gate_params (s_gate sd) nowSec available))) (\<lambda>gate.
             js_ret (Some available, map (capital_reason available reservationWei) (ag_failedChecks gate))))))))"

definition cap_reason :: "int \<Rightarrow> int \<Rightarrow> int \<Rightarrow> jstext" where
  "cap_reason tier cap amount =
     js (''tier_cap_exceeded(T'' @ bigint_toString tier @ '' cap='' @ bigint_toString cap @ '' < amount='' @
         bigint_toString amount @ '')'')"

definition empty_record :: solver_record where
  "empty_record = record_of emptyRecordAccumulator"

text \<open>The credit part: tier, cap, rate and reasons.\<close>

definition credit_check ::
  "'e selection_deps \<Rightarrow> stats_result option \<Rightarrow> int \<Rightarrow> string \<Rightarrow>
   jstext + (int option \<times> int option \<times> rat option \<times> jstext list)" where
  "credit_check sd stats amountWei solver =
     (case stats of
        None \<Rightarrow> Inr (None, None, None, [js ''track_record_unavailable''])
      | Some st \<Rightarrow>
          (let r = (case jget (st_records st) (toLowerCase solver) of None \<Rightarrow> empty_record | Some r \<Rightarrow> r);
               tier = computeTier (s_getOnboardingTier sd solver) r (s_tierConfig sd) (st_complete st)
           in case tierCapWei tier (rg_maxTransferWei (s_gate sd)) (s_tierCapPct sd) of
                Inl e \<Rightarrow> Inl e
              | Inr cap \<Rightarrow> Inr (Some tier, Some cap, sr_successRate r,
                  if cap < amountWei then [cap_reason tier cap amountWei] else [])))"

definition evaluate_candidate ::
  "'e selection_deps \<Rightarrow> proof_json \<Rightarrow> int \<Rightarrow> int \<Rightarrow> int \<Rightarrow> (string \<times> arb_entry) list \<Rightarrow>
   on_chain_intent option \<Rightarrow> stats_result option \<Rightarrow> candidate_reads \<Rightarrow> ('e world, candidate) js" where
  "evaluate_candidate sd json nowSec amountWei reservationWei inFlight onChain stats r =
     bnd (capital_check sd json nowSec reservationWei inFlight r) (\<lambda>(available, capital).
     bnd (js_lift (credit_check sd stats amountWei (cr_solver r))) (\<lambda>(tier, cap, rate, credit).
       js_ret \<lparr>ca_solver = cr_solver r,
         ca_reasons = approval_reasons (cr_approved r) @ capital @ intent_failure onChain @ credit,
         ca_tier = tier, ca_tierCapWei = cap, ca_successRate = rate, ca_availableWei = available\<rparr>))"

text \<open>Why there is no winner, and why this one.\<close>

definition candidate_text :: "candidate \<Rightarrow> jstext" where
  "candidate_text e = js (ca_solver e) @ js '': '' @ join_with (js '', '') (ca_reasons e)"

definition no_winner_reason :: "candidate list \<Rightarrow> jstext" where
  "no_winner_reason evaluations =
     js ''no eligible solver '' @ emdash @ js '' '' @
     (if evaluations = [] then js ''no solvers configured''
      else join_with (js ''; '') (map candidate_text evaluations))"

definition why :: "candidate \<Rightarrow> candidate list \<Rightarrow> string" where
  "why winner others = (case others of [] \<Rightarrow> ''only eligible solver''
     | runnerUp # _ \<Rightarrow>
         if ca_tierCapWei winner \<noteq> ca_tierCapWei runnerUp then ''smallest eligible tier cap''
         else if byRate winner \<noteq> byRate runnerUp then ''higher success rate''
         else if ca_availableWei winner \<noteq> ca_availableWei runnerUp then ''more available capital''
         else ''lowest-address tie-break'')"

definition tier_text :: "int option \<Rightarrow> string" where
  "tier_text t = (case t of None \<Rightarrow> ''null'' | Some n \<Rightarrow> bigint_toString n)"

definition ranked :: "candidate list \<Rightarrow> candidate list" where
  "ranked evaluations = sort_key rank_of (filter eligible evaluations)"

definition choose_winner :: "string \<Rightarrow> int \<Rightarrow> int \<Rightarrow> candidate list \<Rightarrow> ('e world, selection) js" where
  "choose_winner intentId collateralWei reservationWei evaluations =
     (case ranked evaluations of
        [] \<Rightarrow> js_ret \<lparr>sel_solver = None, sel_tier = None, sel_reason = no_winner_reason evaluations,
          sel_collateralWei = collateralWei, sel_reservationWei = reservationWei, sel_candidates = evaluations\<rparr>
      | winner # others \<Rightarrow>
          sq (js_mod (\<lambda>w. w\<lparr>w_book := reserve (ca_solver winner) intentId reservationWei (w_book w)\<rparr>))
             (js_ret \<lparr>sel_solver = Some (ca_solver winner), sel_tier = ca_tier winner,
                sel_reason = js (''selected '' @ ca_solver winner @ '' (T'' @ tier_text (ca_tier winner) @ ''): '' @
                  why winner others),
                sel_collateralWei = collateralWei, sel_reservationWei = reservationWei,
                sel_candidates = evaluations\<rparr>))"

text \<open>Signed but unconfirmed collateral this process does not already count in its book.\<close>

definition in_flight :: "'e world \<Rightarrow> (string \<times> arb_entry) list" where
  "in_flight w = filter (\<lambda>(intentId, _). \<not> hasIntent intentId (w_book w)) (arb_entries_at {Posting_collateral} w)"

definition decide ::
  "'e selection_deps \<Rightarrow> string \<Rightarrow> proof_json \<Rightarrow> int \<Rightarrow> candidate_reads list \<Rightarrow>
   on_chain_intent option \<Rightarrow> stats_result option \<Rightarrow> ('e world, selection) js" where
  "decide sd intentId json nowSec reads onChain stats =
     bnd (js_lift (js_BigInt (pj_amount json))) (\<lambda>amountWei.
     let collateralWei = bigdiv (amountWei * 150) 100;
         reservationWei = collateralWei + rg_gasBufferWei (s_gate sd)
     in bnd (js_get in_flight) (\<lambda>inFlight.
        bnd (js_map (evaluate_candidate sd json nowSec amountWei reservationWei inFlight onChain stats) reads)
          (\<lambda>evaluations. choose_winner intentId collateralWei reservationWei evaluations)))"

text \<open>The section that runs under the book's mutex.\<close>

definition selectSolver ::
  "'e selection_deps \<Rightarrow> string list \<Rightarrow> string \<Rightarrow> proof_json \<Rightarrow> int \<Rightarrow> ('e world, selection) js" where
  "selectSolver sd candidates intentId json nowSec =
     bnd (attempt (s_readIntent sd intentId)) (\<lambda>onChain.
     bnd (attempt (s_getSolverRecords sd)) (\<lambda>stats.
     bnd (js_map (read_candidate sd) candidates) (\<lambda>reads.
       decide sd intentId json nowSec reads onChain stats)))"

section \<open>The reads the orchestrator wires in\<close>

definition real_selection_deps ::
  "'e os \<Rightarrow> env_vars \<Rightarrow> arb_config \<Rightarrow> (string option \<times> int option) list option \<Rightarrow> 'e deps \<Rightarrow> 'e selection_deps"
  where
  "real_selection_deps S env cfg onboarding reader =
     \<lparr>s_isApproved = isSolverApprovedOnChain S,
      s_getBalanceWei = (\<lambda>solver. ext (os_balance S solver)),
      s_readIntent = d_readIntent reader,
      s_getSolverRecords = bnd (listKnownIntentIds S) (readSolverRecord S (d_readIntent reader)),
      s_getOnboardingTier = loadOnboardingTiers onboarding,
      s_gate = \<lparr>rg_maxTransferWei = cg_maxTransferWei cfg, rg_gasBufferWei = cg_gasBufferWei cfg,
                rg_deliveryMarginSec = cg_deliveryMarginSec cfg\<rparr>,
      s_tierConfig = defaultTierConfig env,
      s_tierCapPct = defaultTierCapPct env,
      s_nowMs = now_ms S\<rparr>"

end
