(* ===== verification/Selection.thy ===== *)
theory Selection
  imports Solver_Routing
begin

text \<open>
  What a selection guarantees: the winner is approved, uncommitted capital covers collateral and
  gas, its tier admits the amount, the intent was open on chain, and no eligible candidate ranks
  before it; without a winner nothing is reserved. The reads are an interface (\<open>selection_reads\<close>),
  interpreted on the operations the orchestrator wires in.
\<close>

section \<open>What evaluating may do to the world\<close>

text \<open>Only lapsed reservations go.\<close>

definition pruned :: "book \<Rightarrow> book \<Rightarrow> bool" where
  "pruned b b' \<longleftrightarrow> book_wf b' \<and> (\<forall>s i. book_get b' s i = book_get b s i \<or>
     (book_get b' s i = None \<and> (\<exists>r. book_get b s i = Some r \<and> rv_releaseAtMs r \<noteq> None)))"

definition book_only :: "'e world \<Rightarrow> 'e world \<Rightarrow> bool" where
  "book_only w w' \<longleftrightarrow> core (w'\<lparr>w_book := w_book w\<rparr>) = core w"

lemma pruned_refl: "book_wf b \<Longrightarrow> pruned b b"
  by (simp add: pruned_def)

lemma pruned_trans: "pruned a b \<Longrightarrow> pruned b c \<Longrightarrow> pruned a c"
  unfolding pruned_def by metis

lemma pruned_reservedWei: "book_wf b \<Longrightarrow> pruned b (snd (reservedWei s n b))"
  unfolding pruned_def
  by (auto simp: reservedWei_wf book_get_reservedWei lapsed_def split: option.split)

lemma book_only_core: "core w' = core w \<Longrightarrow> book_only w w'"
  by (simp add: book_only_def core_eq)

lemma book_only_trans: "book_only a b \<Longrightarrow> book_only b c \<Longrightarrow> book_only a c"
  by (simp add: book_only_def core_eq)

lemma book_only_set: "book_only w w' \<Longrightarrow> book_only w (w'\<lparr>w_book := b\<rparr>)"
  by (simp add: book_only_def core_eq)

section \<open>One candidate\<close>

definition open_intent :: "on_chain_intent \<Rightarrow> bool" where
  "open_intent i \<longleftrightarrow> oi_status i = INTENT_STATUS_PENDING \<and> toLowerCase (oi_solver i) = ZERO_ADDRESS"

definition capital_ok :: "routing_gate \<Rightarrow> int \<Rightarrow> (string \<times> arb_entry) list \<Rightarrow> book \<Rightarrow> candidate_reads \<Rightarrow> bool" where
  "capital_ok gate reservationWei inFlight b r \<longleftrightarrow>
     (\<exists>bal inLedger. cr_balance r = Some bal \<and> ledgerReservedWei gate (cr_solver r) inFlight = Inr inLedger \<and>
        booked b (cr_solver r) + inLedger + reservationWei \<le> bal)"

definition cand_ok ::
  "routing_gate \<Rightarrow> int \<Rightarrow> int \<Rightarrow> (string \<times> arb_entry) list \<Rightarrow> on_chain_intent option \<Rightarrow> book \<Rightarrow>
   candidate_reads \<Rightarrow> candidate \<Rightarrow> bool" where
  "cand_ok gate amountWei reservationWei inFlight onChain b r c \<longleftrightarrow> ca_solver c = cr_solver r \<and>
     (eligible c \<longrightarrow> cr_approved r = Some True \<and> capital_ok gate reservationWei inFlight b r \<and>
        (\<exists>i. onChain = Some i \<and> open_intent i) \<and> (\<exists>cap. ca_tierCapWei c = Some cap \<and> amountWei \<le> cap))"

lemma intent_failure_Nil: "intent_failure onChain = [] \<longleftrightarrow> (\<exists>i. onChain = Some i \<and> open_intent i)"
  by (auto simp: intent_failure_def open_intent_def split: option.split)

lemma approval_reasons_Nil: "approval_reasons a = [] \<longleftrightarrow> a = Some True"
  by (auto simp: approval_reasons_def split: option.split)

lemma credit_check_Nil:
  assumes "credit_check sd stats amount s = Inr (t, cap, rate, [])"
  shows "\<exists>c. cap = Some c \<and> amount \<le> c"
  using assms by (auto simp: credit_check_def Let_def split: option.splits sum.splits if_splits)

lemma gate_capital:
  assumes "evaluateArbitrumGate json (gate_params gate nowSec available) = Inr g" "ag_failedChecks g = []"
    and "js_BigInt (pj_amount json) = Inr amount"
  shows "collateral_for amount + rg_gasBufferWei gate \<le> available"
  using assms by (auto simp: evaluateArbitrumGate_def Let_def push_if_def gate_params_def split: if_splits)

section \<open>The whole selection\<close>

text \<open>The candidate \<open>c\<close> that was chosen: eligible, no eligible one ranks before it, and what it was checked for.\<close>

definition winner_of ::
  "(string \<Rightarrow> bool) \<Rightarrow> (string \<Rightarrow> int \<Rightarrow> bool) \<Rightarrow> routing_gate \<Rightarrow> int \<Rightarrow> (string \<times> arb_entry) list \<Rightarrow>
   book \<Rightarrow> selection \<Rightarrow> candidate \<Rightarrow> bool" where
  "winner_of A B gate amountWei inFlight b sel c \<longleftrightarrow>
     c \<in> set (sel_candidates sel) \<and> eligible c \<and>
     (\<forall>c' \<in> set (sel_candidates sel). eligible c' \<longrightarrow> rank_of c \<le> rank_of c') \<and>
     A (ca_solver c) \<and> (\<exists>cap. ca_tierCapWei c = Some cap \<and> amountWei \<le> cap) \<and>
     (\<exists>bal inLedger. B (ca_solver c) bal \<and> ledgerReservedWei gate (ca_solver c) inFlight = Inr inLedger \<and>
        booked b (ca_solver c) + inLedger + sel_reservationWei sel \<le> bal)"

definition selection_ok ::
  "(string \<Rightarrow> bool) \<Rightarrow> (string \<Rightarrow> int \<Rightarrow> bool) \<Rightarrow> (string \<Rightarrow> on_chain_intent \<Rightarrow> bool) \<Rightarrow> routing_gate \<Rightarrow>
   string list \<Rightarrow> string \<Rightarrow> proof_json \<Rightarrow> 'e world \<Rightarrow> 'e world \<Rightarrow> selection \<Rightarrow> bool" where
  "selection_ok A B N gate cands iid json w w' sel \<longleftrightarrow>
     book_only w w' \<and> map ca_solver (sel_candidates sel) = cands \<and>
     (\<exists>amountWei. js_BigInt (pj_amount json) = Inr amountWei \<and>
        sel_collateralWei sel = collateral_for amountWei \<and>
        sel_reservationWei sel = collateral_for amountWei + rg_gasBufferWei gate \<and>
        (case sel_solver sel of
           None \<Rightarrow> (\<forall>c \<in> set (sel_candidates sel). \<not> eligible c) \<and> pruned (w_book w) (w_book w')
         | Some s \<Rightarrow> (\<exists>i. N iid i \<and> open_intent i) \<and>
             (\<exists>c b. ca_solver c = s \<and> pruned (w_book w) b \<and>
                winner_of A B gate amountWei (in_flight w) b sel c \<and>
                w_book w' = reserve s iid (sel_reservationWei sel) b)))"

lemma selection_ok_core:
  assumes "core w1 = core w"
  shows "selection_ok A B N gate cands iid json w1 w' sel = selection_ok A B N gate cands iid json w w' sel"
proof -
  have "w_book w1 = w_book w" "in_flight w1 = in_flight w" "book_only w1 w' = book_only w w'"
    using assms by (auto simp: core_eq in_flight_def arb_entries_at_def book_only_def)
  then show ?thesis
    by (simp only: selection_ok_def)
qed

lemma ranked_Nil: "ranked cs = [] \<longleftrightarrow> (\<forall>c \<in> set cs. \<not> eligible c)"
  by (auto simp: ranked_def filter_empty_conv simp flip: set_empty)

lemma ranked_Cons:
  assumes "ranked cs = c # others"
  shows "c \<in> set cs" "eligible c" "\<forall>c' \<in> set cs. eligible c' \<longrightarrow> rank_of c \<le> rank_of c'"
proof -
  have mem: "set (c # others) = {x \<in> set cs. eligible x}"
    unfolding assms [symmetric] by (simp add: ranked_def)
  then show "c \<in> set cs" "eligible c" by auto
  have "sorted (map rank_of (c # others))"
    unfolding assms [symmetric] by (simp add: ranked_def)
  then show "\<forall>c' \<in> set cs. eligible c' \<longrightarrow> rank_of c \<le> rank_of c'"
    using mem by auto
qed

text \<open>
  The interface of the reads: they change nothing but what is outside the core, and what they say
  holds in the sense of \<open>A\<close> (approved), \<open>B\<close> (balance) and \<open>N\<close> (the intent on chain).
\<close>

locale selection_reads =
  fixes sd :: "'e selection_deps" and A :: "string \<Rightarrow> bool" and B :: "string \<Rightarrow> int \<Rightarrow> bool"
    and N :: "string \<Rightarrow> on_chain_intent \<Rightarrow> bool"
  assumes quiet_approved: "display_only (s_isApproved sd s)"
    and quiet_balance: "display_only (s_getBalanceWei sd s)"
    and quiet_intent: "display_only (s_readIntent sd i)"
    and quiet_records: "display_only (s_getSolverRecords sd)"
    and quiet_clock: "display_only (s_nowMs sd)"
    and approved: "wp (s_isApproved sd s) (\<lambda>r _. \<forall>x. r = Ok x \<longrightarrow> x \<longrightarrow> A s) w"
    and balance: "wp (s_getBalanceWei sd s) (\<lambda>r _. \<forall>x. r = Ok x \<longrightarrow> B s x) w"
    and intent: "wp (s_readIntent sd i) (\<lambda>r _. \<forall>x. r = Ok x \<longrightarrow> N i x) w"
begin

lemma wp_attempt:
  assumes "display_only m" "wp m (\<lambda>r _. \<forall>x. r = Ok x \<longrightarrow> P x) w"
  shows "wp (attempt m) (\<lambda>r w'. core w' = core w \<and> (\<forall>x. r = Ok (Some x) \<longrightarrow> P x)) w"
proof -
  have "wp m (\<lambda>r w'. core w' = core w \<and> (\<forall>x. r = Ok x \<longrightarrow> P x)) w"
    by (rule wp_conj [OF display_onlyD assms(2)]) (rule assms(1))
  then show ?thesis
    unfolding attempt_def wp_catch wp_bnd by (rule wp_mono) (auto simp: wp_simps on_ok_def split: outcome.splits)
qed

lemma display_only_attempt: "display_only m \<Longrightarrow> display_only (attempt m)"
  unfolding attempt_def by (intro display_only_catch display_only_bnd display_only_prim)

definition reads_ok :: "candidate_reads \<Rightarrow> bool" where
  "reads_ok r \<longleftrightarrow> (cr_approved r = Some True \<longrightarrow> A (cr_solver r)) \<and>
     (\<forall>b. cr_balance r = Some b \<longrightarrow> B (cr_solver r) b)"

lemma wp_read_candidate:
  "wp (read_candidate sd s) (\<lambda>r w'. core w' = core w \<and> (\<forall>x. r = Ok x \<longrightarrow> cr_solver x = s \<and> reads_ok x)) w"
  unfolding read_candidate_def
proof (rule wp_bndI [OF wp_attempt [OF quiet_approved approved]])
  fix a and w1 :: "'e world"
  assume a: "core w1 = core w \<and> (\<forall>x. Ok a = Ok (Some x) \<longrightarrow> x \<longrightarrow> A s)"
  show "wp (bnd (attempt (s_getBalanceWei sd s))
          (\<lambda>b. js_ret \<lparr>cr_solver = s, cr_approved = a, cr_balance = b\<rparr>))
        (\<lambda>r w'. core w' = core w \<and> (\<forall>x. r = Ok x \<longrightarrow> cr_solver x = s \<and> reads_ok x)) w1"
    by (rule wp_bndI [OF wp_attempt [OF quiet_balance balance]])
      (use a in \<open>auto simp: wp_simps reads_ok_def\<close>)
qed auto

lemma wp_reads:
  "wp (js_map (read_candidate sd) cands)
     (\<lambda>r w'. core w' = core w \<and> (\<forall>rs. r = Ok rs \<longrightarrow> map cr_solver rs = cands \<and> (\<forall>x \<in> set rs. reads_ok x))) w"
proof (rule wp_conj)
  have "display_only (read_candidate sd s)" for s
    unfolding read_candidate_def
    by (intro display_only_bnd display_only_prim display_only_attempt quiet_approved quiet_balance)
  then show "wp (js_map (read_candidate sd) cands) (\<lambda>r w'. core w' = core w) w"
    by (intro display_onlyD display_only_map)
  let ?J = "\<lambda>done' (_ :: 'e world). \<forall>(s, r) \<in> set done'. cr_solver r = s \<and> reads_ok r"
  have loop: "wp (js_map (read_candidate sd) cands)
      (\<lambda>r w'. \<forall>ys. r = Ok ys \<longrightarrow> length ys = length cands \<and> ?J (zip cands ys) w') w"
  proof (rule wp_js_map)
    fix done' x rest and w :: "'e world" assume "?J done' w"
    then show "wp (read_candidate sd x) (\<lambda>r w'. \<forall>y. r = Ok y \<longrightarrow> ?J (done' @ [(x, y)]) w') w"
      by (intro wp_mono [OF wp_read_candidate]) auto
  qed simp
  have zipped: "map cr_solver rs = cands \<and> (\<forall>x \<in> set rs. reads_ok x)"
    if "length cands = length rs" "\<forall>(s, r) \<in> set (zip cands rs). cr_solver r = s \<and> reads_ok r" for rs
  proof -
    have "cr_solver (rs ! i) = cands ! i \<and> reads_ok (rs ! i)" if "i < length rs" for i
      using that \<open>length cands = length rs\<close> bspec [OF \<open>\<forall>(s, r) \<in> set (zip cands rs). _\<close>, of "(cands ! i, rs ! i)"]
      by (auto simp: set_zip)
    with \<open>length cands = length rs\<close> show ?thesis
      by (auto simp: list_eq_iff_nth_eq in_set_conv_nth)
  qed
  show "wp (js_map (read_candidate sd) cands)
      (\<lambda>r w'. \<forall>rs. r = Ok rs \<longrightarrow> map cr_solver rs = cands \<and> (\<forall>x \<in> set rs. reads_ok x)) w"
    by (rule wp_mono [OF loop], intro allI impI, rule zipped) simp_all
qed

text \<open>One candidate: its own lapsed reservations go, the others' sums stay.\<close>

lemma wp_capital_check:
  assumes "book_wf (w_book w)" "js_BigInt (pj_amount json) = Inr amount"
  shows "wp (capital_check sd json nowSec (collateral_for amount + rg_gasBufferWei (s_gate sd)) inFlight r)
    (\<lambda>res w'. book_only w w' \<and> pruned (w_book w) (w_book w') \<and>
       (\<forall>s. toLowerCase s \<noteq> toLowerCase (cr_solver r) \<longrightarrow> booked (w_book w') s = booked (w_book w) s) \<and>
       (\<forall>a reasons. res = Ok (a, reasons) \<longrightarrow> reasons = [] \<longrightarrow>
          capital_ok (s_gate sd) (collateral_for amount + rg_gasBufferWei (s_gate sd)) inFlight (w_book w') r)) w"
    (is "wp _ ?Q w")
proof (cases "cr_balance r")
  case None
  have "?Q (Throw e) w" "?Q (Ok (a, x # xs)) w" for e a x xs
    using assms(1) by (simp_all add: pruned_refl book_only_core)
  with None show ?thesis
    by (simp add: capital_check_def wp_simps split: sum.split)
next
  case (Some bal)
  let ?res = "collateral_for amount + rg_gasBufferWei (s_gate sd)"
  have tail: "wp (bnd (js_get (\<lambda>w. fst (reservedWei (cr_solver r) now (w_book w)))) (\<lambda>reserved.
      sq (js_mod (\<lambda>w. w\<lparr>w_book := snd (reservedWei (cr_solver r) now (w_book w))\<rparr>))
      (bnd (js_lift (ledgerReservedWei (s_gate sd) (cr_solver r) inFlight)) (\<lambda>inLedger.
       let available = bal - reserved - inLedger in
       bnd (js_lift (evaluateArbitrumGate json (gate_params (s_gate sd) nowSec available))) (\<lambda>gate.
         js_ret (Some available, map (capital_reason available ?res) (ag_failedChecks gate))))))) ?Q w1"
    if w1: "core w1 = core w" for now and w1 :: "'e world"
  proof -
    let ?b = "snd (reservedWei (cr_solver r) now (w_book w))"
    let ?w = "w1\<lparr>w_book := ?b\<rparr>"
    have same: "w_book w1 = w_book w" using w1 by (simp add: core_eq)
    have frame: "book_only w ?w" "pruned (w_book w) (w_book ?w)"
      "\<And>s. toLowerCase s \<noteq> toLowerCase (cr_solver r) \<Longrightarrow> booked (w_book ?w) s = booked (w_book w) s"
      using w1 assms(1)
      by (auto intro: book_only_set book_only_core pruned_reservedWei booked_reservedWei_other)
    show ?thesis
    proof (cases "ledgerReservedWei (s_gate sd) (cr_solver r) inFlight")
      case (Inl e)
      then show ?thesis using frame by (simp add: wp_simps same)
    next
      case (Inr inL)
      let ?av = "bal - fst (reservedWei (cr_solver r) now (w_book w)) - inL"
      show ?thesis
      proof (cases "evaluateArbitrumGate json (gate_params (s_gate sd) nowSec ?av)")
        case (Inl e)
        then show ?thesis using frame Inr by (simp add: wp_simps same Let_def)
      next
        case g: (Inr g)
        have "ag_failedChecks g = [] \<Longrightarrow> ?res \<le> ?av"
          using gate_capital [OF g _ assms(2)] by simp
        then have "ag_failedChecks g = [] \<Longrightarrow> capital_ok (s_gate sd) ?res inFlight ?b r"
          using Some Inr by (auto simp: capital_ok_def reservedWei_booked)
        then show ?thesis using frame Inr g by (simp add: wp_simps same Let_def)
      qed
    qed
  qed
  show ?thesis
    unfolding capital_check_def Some option.case
    by (rule wp_bnd_display [OF quiet_clock])
      (use tail in \<open>auto simp: core_eq pruned_refl book_only_core assms(1)\<close>)
qed

lemma wp_evaluate:
  assumes "book_wf (w_book w)" "js_BigInt (pj_amount json) = Inr amount"
    "res = collateral_for amount + rg_gasBufferWei (s_gate sd)"
  shows "wp (evaluate_candidate sd json nowSec amount res inFlight onChain stats r)
    (\<lambda>out w'. book_only w w' \<and> pruned (w_book w) (w_book w') \<and>
       (\<forall>s. toLowerCase s \<noteq> toLowerCase (cr_solver r) \<longrightarrow> booked (w_book w') s = booked (w_book w) s) \<and>
       (\<forall>c. out = Ok c \<longrightarrow> cand_ok (s_gate sd) amount res inFlight onChain (w_book w') r c)) w"
  unfolding evaluate_candidate_def assms(3)
  by (rule wp_bndI [OF wp_capital_check [OF assms(1,2)]])
    (auto simp: wp_simps cand_ok_def eligible_def intent_failure_Nil approval_reasons_Nil credit_check_Nil
      split: sum.split)

text \<open>All candidates: what was checked of each still holds of the book when the last one is done.\<close>

definition evaluated ::
  "proof_json \<Rightarrow> int \<Rightarrow> (string \<times> arb_entry) list \<Rightarrow> on_chain_intent option \<Rightarrow> 'e world \<Rightarrow>
   (candidate_reads \<times> candidate) list \<Rightarrow> 'e world \<Rightarrow> bool" where
  "evaluated json amount inFlight onChain w done' w' \<longleftrightarrow> book_only w w' \<and> pruned (w_book w) (w_book w') \<and>
     (\<forall>(r, c) \<in> set done'. cand_ok (s_gate sd) amount
        (collateral_for amount + rg_gasBufferWei (s_gate sd)) inFlight onChain (w_book w') r c)"

lemma evaluated_step:
  assumes "js_BigInt (pj_amount json) = Inr amount"
    and "evaluated json amount inFlight onChain w done' w1"
    and "toLowerCase (cr_solver r) \<notin> set (map (toLowerCase \<circ> cr_solver \<circ> fst) done')"
  shows "wp (evaluate_candidate sd json nowSec amount (collateral_for amount + rg_gasBufferWei (s_gate sd))
      inFlight onChain stats r)
    (\<lambda>out w'. \<forall>c. out = Ok c \<longrightarrow> evaluated json amount inFlight onChain w (done' @ [(r, c)]) w') w1"
proof -
  have "book_wf (w_book w1)"
    using assms(2) by (simp add: evaluated_def pruned_def)
  then show ?thesis
  proof (rule wp_mono [OF wp_evaluate [OF _ assms(1) refl]], intro allI impI)
    fix out c and w' :: "'e world"
    let ?res = "collateral_for amount + rg_gasBufferWei (s_gate sd)"
    assume out: "book_only w1 w' \<and> pruned (w_book w1) (w_book w') \<and>
        (\<forall>s. toLowerCase s \<noteq> toLowerCase (cr_solver r) \<longrightarrow> booked (w_book w') s = booked (w_book w1) s) \<and>
        (\<forall>c. out = Ok c \<longrightarrow> cand_ok (s_gate sd) amount ?res inFlight onChain (w_book w') r c)"
      and "out = Ok c"
    have "cand_ok (s_gate sd) amount ?res inFlight onChain (w_book w') r' c'" if "(r', c') \<in> set done'" for r' c'
    proof -
      have "toLowerCase (cr_solver r') \<noteq> toLowerCase (cr_solver r)"
        using assms(3) that by force
      with out have "booked (w_book w') (cr_solver r') = booked (w_book w1) (cr_solver r')"
        by blast
      with assms(2) that show ?thesis
        by (auto simp: evaluated_def cand_ok_def capital_ok_def)
    qed
    moreover have "cand_ok (s_gate sd) amount ?res inFlight onChain (w_book w') r c"
      using out \<open>out = Ok c\<close> by blast
    moreover have "book_only w w'" "pruned (w_book w) (w_book w')"
      using assms(2) out by (auto simp: evaluated_def intro: book_only_trans pruned_trans)
    ultimately show "evaluated json amount inFlight onChain w (done' @ [(r, c)]) w'"
      by (auto simp: evaluated_def)
  qed
qed

lemma wp_evaluations:
  assumes "js_BigInt (pj_amount json) = Inr amount" "book_wf (w_book w)"
    and "distinct (map (toLowerCase \<circ> cr_solver) reads)"
  shows "wp (js_map (evaluate_candidate sd json nowSec amount
        (collateral_for amount + rg_gasBufferWei (s_gate sd)) inFlight onChain stats) reads)
    (\<lambda>out w'. \<forall>cs. out = Ok cs \<longrightarrow> length cs = length reads \<and>
       evaluated json amount inFlight onChain w (zip reads cs) w') w"
proof (rule wp_js_map)
  show "evaluated json amount inFlight onChain w [] w"
    using assms(2) by (simp add: evaluated_def book_only_core pruned_refl)
  fix done' x rest and w1 :: "'e world"
  assume split: "map fst done' @ x # rest = reads" and "evaluated json amount inFlight onChain w done' w1"
  moreover have "toLowerCase (cr_solver x) \<notin> set (map (toLowerCase \<circ> cr_solver \<circ> fst) done')"
    using assms(3) unfolding split [symmetric] by (auto simp: image_image)
  ultimately show "wp (evaluate_candidate sd json nowSec amount
        (collateral_for amount + rg_gasBufferWei (s_gate sd)) inFlight onChain stats x)
      (\<lambda>out w'. \<forall>c. out = Ok c \<longrightarrow> evaluated json amount inFlight onChain w (done' @ [(x, c)]) w') w1"
    by (intro evaluated_step assms(1))
qed

lemma wp_choose:
  assumes amount: "js_BigInt (pj_amount json) = Inr amount"
    and ev: "evaluated json amount (in_flight w) onChain w (zip reads cs) w1" "length cs = length reads"
    and reads: "map cr_solver reads = cands" "\<forall>r \<in> set reads. reads_ok r"
    and onChain: "\<forall>i. onChain = Some i \<longrightarrow> N iid i"
  shows "wp (choose_winner iid (collateral_for amount) (collateral_for amount + rg_gasBufferWei (s_gate sd)) cs)
    (\<lambda>out w'. \<forall>sel. out = Ok sel \<longrightarrow> selection_ok A B N (s_gate sd) cands iid json w w' sel) w1"
proof -
  let ?res = "collateral_for amount + rg_gasBufferWei (s_gate sd)"
  have pair: "\<exists>r \<in> set reads. cand_ok (s_gate sd) amount ?res (in_flight w) onChain (w_book w1) r c"
    if "c \<in> set cs" for c
  proof -
    have "\<exists>r. (r, c) \<in> set (zip reads cs)"
      using in_set_impl_in_set_zip2 [OF ev(2) [symmetric] that] by blast
    with ev(1) show ?thesis
      by (auto simp: evaluated_def dest: set_zip_leftD)
  qed
  have names: "map ca_solver cs = cands"
  proof -
    have "ca_solver (cs ! i) = cr_solver (reads ! i)" if "i < length cs" for i
    proof -
      have "(reads ! i, cs ! i) \<in> set (zip reads cs)"
        using that ev(2) by (auto simp: set_zip)
      with ev(1) show ?thesis
        unfolding evaluated_def cand_ok_def by blast
    qed
    with ev(2) reads(1) show ?thesis
      by (auto simp: list_eq_iff_nth_eq)
  qed
  show ?thesis
  proof (cases "ranked cs")
    case Nil
    then have "\<forall>c \<in> set cs. \<not> eligible c" by (simp add: ranked_Nil)
    with Nil ev(1) names amount show ?thesis
      by (simp add: choose_winner_def wp_simps selection_ok_def evaluated_def)
  next
    case (Cons c others)
    note c = ranked_Cons [OF Cons]
    obtain r where r: "r \<in> set reads" "cand_ok (s_gate sd) amount ?res (in_flight w) onChain (w_book w1) r c"
      using pair [OF c(1)] by blast
    then have ok: "cr_approved r = Some True" "capital_ok (s_gate sd) ?res (in_flight w) (w_book w1) r"
      "ca_solver c = cr_solver r" "\<exists>cap. ca_tierCapWei c = Some cap \<and> amount \<le> cap"
      "\<exists>i. onChain = Some i \<and> open_intent i"
      using c(2) by (auto simp: cand_ok_def)
    obtain bal inL where cap: "cr_balance r = Some bal"
      "ledgerReservedWei (s_gate sd) (ca_solver c) (in_flight w) = Inr inL"
      "booked (w_book w1) (ca_solver c) + inL + ?res \<le> bal"
      using ok(2) unfolding capital_ok_def ok(3) by blast
    have "A (ca_solver c)" "B (ca_solver c) bal"
      using bspec [OF reads(2) r(1)] ok(1,3) cap(1) unfolding reads_ok_def by simp_all
    then have win: "winner_of A B (s_gate sd) amount (in_flight w) (w_book w1) sel c"
      if "sel_candidates sel = cs" "sel_reservationWei sel = ?res" for sel
      unfolding winner_of_def that using c ok(4) cap(2,3) by blast
    have chosen: "selection_ok A B N (s_gate sd) cands iid json w
        (w1\<lparr>w_book := reserve (ca_solver c) iid ?res (w_book w1)\<rparr>) sel"
      if sel: "sel_candidates sel = cs" "sel_reservationWei sel = ?res" "sel_solver sel = Some (ca_solver c)"
        "sel_collateralWei sel = collateral_for amount" for sel
      unfolding selection_ok_def sel option.case
    proof (intro conjI exI)
      show "book_only w (w1\<lparr>w_book := reserve (ca_solver c) iid ?res (w_book w1)\<rparr>)"
        using ev(1) by (simp add: evaluated_def book_only_set)
      show "N iid (the onChain)" "open_intent (the onChain)"
        using ok(5) onChain by auto
      show "pruned (w_book w) (w_book w1)"
        using ev(1) by (simp add: evaluated_def)
      show "winner_of A B (s_gate sd) amount (in_flight w) (w_book w1) sel c"
        by (rule win [OF sel(1,2)])
    qed (simp_all add: names amount)
    show ?thesis
      unfolding choose_winner_def Cons list.case wp_sq wp_mod on_ok_simps wp_ret
      by (intro allI impI, drule outcome.inject [THEN iffD1], erule subst)
        (rule chosen; simp only: selection.simps)
  qed
qed

lemma wp_decide:
  assumes "book_wf (w_book w)" "distinct (map toLowerCase cands)"
    and reads: "map cr_solver reads = cands" "\<forall>r \<in> set reads. reads_ok r"
    and onChain: "\<forall>i. onChain = Some i \<longrightarrow> N iid i"
  shows "wp (decide sd iid json nowSec reads onChain stats)
    (\<lambda>out w'. \<forall>sel. out = Ok sel \<longrightarrow> selection_ok A B N (s_gate sd) cands iid json w w' sel) w"
proof (cases "js_BigInt (pj_amount json)")
  case (Inl e)
  then show ?thesis by (simp add: decide_def wp_simps)
next
  case (Inr amount)
  have "distinct (map (toLowerCase \<circ> cr_solver) reads)"
    using assms(2) unfolding reads(1) [symmetric] by simp
  note loop = wp_evaluations [OF Inr assms(1) this]
  show ?thesis
    unfolding decide_def Let_def Inr js_lift_def sum.case wp_bnd [of "js_ret _"] wp_ret on_ok_simps
      wp_bnd [of "js_get in_flight"] wp_get
      collateral_for_def [symmetric]
    by (rule wp_bndI [OF loop]) (use reads onChain in \<open>auto intro!: wp_choose [OF Inr]\<close>)
qed

lemma wp_select:
  assumes "book_wf (w_book w)" "distinct (map toLowerCase cands)"
  shows "wp (selectSolver sd cands iid json nowSec)
    (\<lambda>out w'. \<forall>sel. out = Ok sel \<longrightarrow> selection_ok A B N (s_gate sd) cands iid json w w' sel) w"
proof -
  have decide: "wp (decide sd iid json nowSec reads onChain stats)
      (\<lambda>out w'. \<forall>sel. out = Ok sel \<longrightarrow> selection_ok A B N (s_gate sd) cands iid json w w' sel) w1"
    if "core w1 = core w" "map cr_solver reads = cands \<and> (\<forall>x \<in> set reads. reads_ok x)"
      "\<forall>x. onChain = Some x \<longrightarrow> N iid x" for w1 reads onChain stats
    unfolding selection_ok_core [OF that(1), symmetric]
    by (rule wp_decide) (use that assms in \<open>auto simp: core_eq\<close>)
  show ?thesis
    unfolding selectSolver_def
  proof (rule wp_bndI [OF wp_attempt [OF quiet_intent intent]])
    fix onChain and w1 :: "'e world"
    assume 1: "core w1 = core w \<and> (\<forall>x. Ok onChain = Ok (Some x) \<longrightarrow> N iid x)"
    show "wp (bnd (attempt (s_getSolverRecords sd)) (\<lambda>stats. bnd (js_map (read_candidate sd) cands)
          (\<lambda>reads. decide sd iid json nowSec reads onChain stats)))
        (\<lambda>out w'. \<forall>sel. out = Ok sel \<longrightarrow> selection_ok A B N (s_gate sd) cands iid json w w' sel) w1"
    proof (rule wp_bnd_display [OF display_only_attempt [OF quiet_records]])
      fix stats and w2 :: "'e world" assume 2: "core w2 = core w1"
      show "wp (bnd (js_map (read_candidate sd) cands) (\<lambda>reads. decide sd iid json nowSec reads onChain stats))
          (\<lambda>out w'. \<forall>sel. out = Ok sel \<longrightarrow> selection_ok A B N (s_gate sd) cands iid json w w' sel) w2"
        by (rule wp_bndI [OF wp_reads], rule decide) (use 1 2 in simp_all)
    qed simp_all
  qed simp_all
qed

end

section \<open>The reads the orchestrator wires in\<close>

text \<open>What the outside has said, in some state of it.\<close>

definition reported_approved :: "'e os \<Rightarrow> string \<Rightarrow> bool" where
  "reported_approved S s \<longleftrightarrow> (\<exists>e. fst (os_approved S s e) = Ok True)"

definition reported_balance :: "'e os \<Rightarrow> string \<Rightarrow> int \<Rightarrow> bool" where
  "reported_balance S s b \<longleftrightarrow> (\<exists>e. fst (os_balance S s e) = Ok b)"

lemma wp_ext_ok: "(\<And>x e. fst (f e) = Ok x \<Longrightarrow> P x) \<Longrightarrow> wp (ext f) (\<lambda>r _. \<forall>x. r = Ok x \<longrightarrow> P x) w"
  by (auto simp: wp_ext split: prod.split) (metis fst_conv)

lemma display_only_known: "display_only (listKnownIntentIds S)"
  unfolding listKnownIntentIds_def listStateFileIntentIds_def listArbitrumLedgerIntentIds_def
  by (intro display_only_bnd display_only_catch display_only_prim display_only_ext)

abbreviation wired :: "'e os \<Rightarrow> env_vars \<Rightarrow> arb_config \<Rightarrow> (string option \<times> int option) list option \<Rightarrow>
    string \<Rightarrow> string \<Rightarrow> (string \<Rightarrow> ('e world, payout_result) js) \<Rightarrow> (string \<Rightarrow> ('e world, bool) js) \<Rightarrow>
    string \<Rightarrow> 'e selection_deps" where
  "wired S env cfg onboarding orchestrator manager payout check solver \<equiv>
     real_selection_deps S env cfg onboarding (settlement_deps S orchestrator manager payout check solver)"

interpretation reads: selection_reads "wired S env cfg onboarding orchestrator manager payout check solver"
    "reported_approved S" "reported_balance S" "reported_intent S"
  for S :: "'e os" and env cfg onboarding orchestrator manager payout check solver
proof
  fix s i and w :: "'e world"
  let ?d = "wired S env cfg onboarding orchestrator manager payout check solver"
  show "display_only (s_isApproved ?d s)" "display_only (s_getBalanceWei ?d s)"
    "display_only (s_readIntent ?d i)" "display_only (s_nowMs ?d)"
    by (simp_all add: real_selection_deps_def settlement_deps_def isSolverApprovedOnChain_def)
  have "display_only (readSolverRecord S (\<lambda>i. ext (os_intents S i)) ids)" for ids
    by (rule intents.read_record_core)
  then show "display_only (s_getSolverRecords ?d)"
    by (auto simp: real_selection_deps_def settlement_deps_def intro!: display_only_bnd display_only_known)
  show "wp (s_isApproved ?d s) (\<lambda>r _. \<forall>x. r = Ok x \<longrightarrow> x \<longrightarrow> reported_approved S s) w"
    unfolding real_selection_deps_def selection_deps.simps isSolverApprovedOnChain_def
    by (rule wp_ext_ok) (auto simp: reported_approved_def)
  show "wp (s_getBalanceWei ?d s) (\<lambda>r _. \<forall>x. r = Ok x \<longrightarrow> reported_balance S s x) w"
    unfolding real_selection_deps_def selection_deps.simps
    by (rule wp_ext_ok) (auto simp: reported_balance_def)
  show "wp (s_readIntent ?d i) (\<lambda>r _. \<forall>x. r = Ok x \<longrightarrow> reported_intent S i x) w"
    unfolding real_selection_deps_def selection_deps.simps settlement_deps_def deps.simps
    by (rule wp_ext_ok) (auto simp: reported_intent_def)
qed

section \<open>Properties\<close>

text \<open>C27: A selection that returns evaluated every candidate, in order, and changed only the
  reservation book. It names a solver only if the intent was reported open on chain; that solver was
  reported approved, its tier cap admits the amount, no eligible candidate ranks before it, and a
  reported balance of it covers collateral and gas on top of everything already promised: all its
  remaining reservations and the collateral of signed, unconfirmed transactions. The book then
  holds exactly the new reservation beyond what it kept. If it names none, no candidate was
  eligible and nothing was reserved.\<close>

theorem selectSolver_sound:
  assumes "book_wf (w_book w)" and "distinct (map toLowerCase cands)"
    and "selectSolver (wired S env cfg onboarding orchestrator manager payout check solver)
           cands iid json nowSec w = (Ok sel, w')"
  shows "selection_ok (reported_approved S) (reported_balance S) (reported_intent S)
    \<lparr>rg_maxTransferWei = cg_maxTransferWei cfg, rg_gasBufferWei = cg_gasBufferWei cfg,
     rg_deliveryMarginSec = cg_deliveryMarginSec cfg\<rparr> cands iid json w w' sel"
  using wpD [OF reads.wp_select [OF assms(1,2)] assms(3)]
  by (simp add: real_selection_deps_def)

text \<open>C28: No capital is promised twice: when a selection for an intent that had no reservation with
  the chosen solver returns, that solver's reservations, the new one included, and the collateral of
  its signed, unconfirmed transactions together are within a balance the chain reported for it.\<close>

theorem selectSolver_capital:
  assumes "book_wf (w_book w)" and "distinct (map toLowerCase cands)"
    and "selectSolver (wired S env cfg onboarding orchestrator manager payout check solver)
           cands iid json nowSec w = (Ok sel, w')"
    and "sel_solver sel = Some s" and "book_get (w_book w) s iid = None"
  shows "\<exists>bal inLedger. reported_balance S s bal \<and>
    ledgerReservedWei \<lparr>rg_maxTransferWei = cg_maxTransferWei cfg, rg_gasBufferWei = cg_gasBufferWei cfg,
      rg_deliveryMarginSec = cg_deliveryMarginSec cfg\<rparr> s (in_flight w) = Inr inLedger \<and>
    booked (w_book w') s + inLedger \<le> bal"
proof -
  let ?gate = "\<lparr>rg_maxTransferWei = cg_maxTransferWei cfg, rg_gasBufferWei = cg_gasBufferWei cfg,
    rg_deliveryMarginSec = cg_deliveryMarginSec cfg\<rparr>"
  have "selection_ok (reported_approved S) (reported_balance S) (reported_intent S) ?gate cands iid json w w' sel"
    using wpD [OF reads.wp_select [OF assms(1,2)] assms(3)] by (simp add: real_selection_deps_def)
  then obtain amount b c where b: "ca_solver c = s" "pruned (w_book w) b"
      "winner_of (reported_approved S) (reported_balance S) ?gate amount (in_flight w) b sel c"
      "w_book w' = reserve s iid (sel_reservationWei sel) b"
    unfolding selection_ok_def assms(4) option.case by blast
  have "book_get b s iid = None"
    using b(2) assms(5) unfolding pruned_def by metis
  then have "booked (w_book w') s = booked b s + sel_reservationWei sel"
    by (simp add: b(4) booked_reserve)
  with b(1,3) show ?thesis
    unfolding winner_of_def by (metis add.assoc add.commute)
qed

text \<open>Two solvers, one of them short of capital.\<close>

definition routing_env :: env_vars where
  "routing_env = [(''SOLVER_TIER_CAP_PCT_3'', ''50'')]"

definition routing_cfg :: arb_config where
  "routing_cfg = \<lparr>cg_maxTransferWei = 100, cg_deliveryMarginSec = Num 5, cg_gasBufferWei = 2,
     cg_payoutRetryMs = Num 5, cg_verifyAttempts = Num 3, cg_verifyDelayMs = Num 2,
     cg_confirmBackoffMs = [Num 3], cg_confirmMaxSecAfterExpiry = Num 20\<rparr>"

definition routing_json :: proof_json where
  "routing_json = sample_proof\<lparr>pj_amount := ''8'', pj_token_address := ZERO_ADDRESS, pj_expiry := 1020\<rparr>"

definition routing_world :: "script world" where
  "routing_world = fresh_world (blank_script\<lparr>sc_balances := [Ok 13, Ok 30]\<rparr>)"

abbreviation select_sample :: "(script world, selection) js" where
  "select_sample \<equiv> selectSolver (wired script_os routing_env routing_cfg None ''0xOrch'' ''0xIm''
     (\<lambda>_. js_stop) (\<lambda>_. js_stop) ''0xA'') [''0xA'', ''0xB''] ''0x01'' routing_json 1000"

lemma select_sample_runs:
  obtains sel w' where "select_sample routing_world = (Ok sel, w')" "sel_solver sel = Some ''0xB''"
    "book_wf (w_book routing_world)" "distinct (map toLowerCase [''0xA'', ''0xB''])"
    "book_get (w_book routing_world) ''0xB'' ''0x01'' = None"
proof -
  have "(case select_sample routing_world of (Ok s, w') \<Rightarrow> sel_solver s = Some ''0xB'' | _ \<Rightarrow> False)"
    by code_simp
  moreover have "distinct (map toLowerCase [''0xA'', ''0xB''])"
    by code_simp
  ultimately show thesis
    using that by (auto simp: routing_world_def fresh_world_def book_get_def split: prod.splits outcome.splits)
qed

theorem selectSolver_sound_witness:
  "\<exists>sel w'. select_sample routing_world = (Ok sel, w') \<and> sel_solver sel = Some ''0xB'' \<and>
     map ca_solver (sel_candidates sel) = [''0xA'', ''0xB''] \<and> (\<exists>i. reported_intent script_os ''0x01'' i \<and> open_intent i)"
proof -
  obtain sel w' where run: "select_sample routing_world = (Ok sel, w')" "sel_solver sel = Some ''0xB''"
    "book_wf (w_book routing_world)" "distinct (map toLowerCase [''0xA'', ''0xB''])"
    by (rule select_sample_runs)
  from selectSolver_sound [OF run(3,4,1)] run(1,2) show ?thesis
    by (auto simp: selection_ok_def)
qed

theorem selectSolver_capital_witness:
  "\<exists>sel w' bal. select_sample routing_world = (Ok sel, w') \<and> reported_balance script_os ''0xB'' bal \<and>
     (\<exists>inLedger. booked (w_book w') ''0xB'' + inLedger \<le> bal)"
proof -
  obtain sel w' where run: "select_sample routing_world = (Ok sel, w')" "sel_solver sel = Some ''0xB''"
    "book_wf (w_book routing_world)" "distinct (map toLowerCase [''0xA'', ''0xB''])"
    "book_get (w_book routing_world) ''0xB'' ''0x01'' = None"
    by (rule select_sample_runs)
  from selectSolver_capital [OF run(3,4,1,2,5)] run(1) show ?thesis
    by blast
qed

end
