(* ===== verification/Dispatch.thy ===== *)
theory Dispatch
  imports Selection Write_Ahead
begin

text \<open>
  \<^verbatim>\<open>dispatchArbitrumSettlement\<close> of \<^verbatim>\<open>solver_routing.ts\<close>: select a solver, run the settlement sequence
  with its operations, and resolve the reservation once. \<^verbatim>\<open>reservationResolved\<close>, the local
  variable that its closures share, is the flag of the call in \<open>w_flags\<close>.
\<close>

section \<open>Dispatch\<close>

record 'e dispatch_deps =
  p_selection :: "'e selection_deps"
  p_candidates :: "string list"
  p_buildSettlementDeps :: "string option \<Rightarrow> jstext + 'e deps"
  p_nowSec :: "('e world, int) js"
  p_nowMs :: "('e world, int) js"
  p_reservationHoldMs :: jsnum

definition new_flag :: "('e world, nat) js" where
  "new_flag = bnd (js_get (\<lambda>w. length (w_flags w))) (\<lambda>n.
     sq (js_mod (\<lambda>w. w\<lparr>w_flags := w_flags w @ [False]\<rparr>)) (js_ret n))"

definition releaseReservation :: "string \<Rightarrow> string \<Rightarrow> nat \<Rightarrow> ('e world, unit) js" where
  "releaseReservation solver intentId flag =
     bnd (js_get (\<lambda>w. w_flags w ! flag)) (\<lambda>reservationResolved.
     if reservationResolved then js_ret ()
     else sq (js_mod (\<lambda>w. w\<lparr>w_flags := (w_flags w)[flag := True]\<rparr>))
             (js_mod (\<lambda>w. w\<lparr>w_book := snd (release solver intentId (w_book w))\<rparr>)))"

definition hold_reservation :: "'e dispatch_deps \<Rightarrow> string \<Rightarrow> string \<Rightarrow> nat \<Rightarrow> ('e world, unit) js" where
  "hold_reservation dd solver intentId flag =
     sq (js_mod (\<lambda>w. w\<lparr>w_flags := (w_flags w)[flag := True]\<rparr>))
     (bnd (p_nowMs dd) (\<lambda>now.
        js_mod (\<lambda>w. w\<lparr>w_book := holdFor solver intentId (p_reservationHoldMs dd) now (w_book w)\<rparr>)))"

text \<open>The collateral step of the sequence, wrapped.\<close>

definition post_reserved ::
  "'e dispatch_deps \<Rightarrow> 'e deps \<Rightarrow> string \<Rightarrow> string \<Rightarrow> nat \<Rightarrow>
   string \<Rightarrow> int \<Rightarrow> (string \<Rightarrow> ('e world, unit) js) \<Rightarrow> ('e world, tx_outcome) js" where
  "post_reserved dd base solver intentId flag iid valueWei onSigned =
     bnd (js_catch (d_postCollateral base iid valueWei onSigned)
           (\<lambda>e. sq (releaseReservation solver intentId flag) (js_throw e))) (\<lambda>outcome.
     sq (if to_ok outcome then hold_reservation dd solver intentId flag
         else releaseReservation solver intentId flag)
        (js_ret outcome))"

definition routing_of :: "selection \<Rightarrow> string \<Rightarrow> routing_fields" where
  "routing_of selection solver =
     \<lparr>rf_selectedSolver = Some solver, rf_tierAtSelection = sel_tier selection,
      rf_routingReason = sel_reason selection,
      rf_collateralWei = Some (bigint_toString (sel_collateralWei selection))\<rparr>"

definition routed_deps ::
  "'e dispatch_deps \<Rightarrow> 'e deps \<Rightarrow> selection \<Rightarrow> string \<Rightarrow> string \<Rightarrow> nat \<Rightarrow> 'e deps" where
  "routed_deps dd base selection solver intentId flag =
     base\<lparr>d_postCollateral := post_reserved dd base solver intentId flag,
          d_routing := Some (routing_of selection solver)\<rparr>"

definition routing_refused_reason :: "jstext \<Rightarrow> jstext" where
  "routing_refused_reason reason =
     js ''Arbitrum solver routing REFUSED ('' @ reason @ js '') '' @ emdash @
     js ('' not settled; user can reclaim on the source chain via cancelIntent after expiry (no solver '' @
         ''collateral) or claimRefund 24h after expiry (solver collateral posted)'')"

definition run_selected ::
  "nat \<Rightarrow> 'e os \<Rightarrow> arb_config \<Rightarrow> 'e dispatch_deps \<Rightarrow> string \<Rightarrow> proof_json \<Rightarrow> selection \<Rightarrow> string \<Rightarrow>
   ('e world, unit) js" where
  "run_selected fuel S cfg dd intentId json selection solver =
     bnd new_flag (\<lambda>flag.
       js_finally
         (bnd (js_lift (p_buildSettlementDeps dd (Some solver))) (\<lambda>base.
            runArbitrumSettlementSequence fuel S cfg (routed_deps dd base selection solver intentId flag)
              intentId json))
         (releaseReservation solver intentId flag))"

definition route_and_run ::
  "nat \<Rightarrow> 'e os \<Rightarrow> arb_config \<Rightarrow> 'e dispatch_deps \<Rightarrow> string \<Rightarrow> proof_json \<Rightarrow> ('e world, selection option) js"
  where
  "route_and_run fuel S cfg dd intentId json =
     bnd (p_nowSec dd) (\<lambda>nowSec.
     bnd (selectSolver (p_selection dd) (p_candidates dd) intentId json nowSec) (\<lambda>selection.
     sq (case sel_solver selection of
           None \<Rightarrow> refuseArbitrumSettlement S intentId json (routing_refused_reason (sel_reason selection))
             (Some \<lparr>rf_selectedSolver = None, rf_tierAtSelection = None,
                rf_routingReason = sel_reason selection, rf_collateralWei = None\<rparr>)
         | Some solver \<Rightarrow> run_selected fuel S cfg dd intentId json selection solver)
        (js_ret (Some selection))))"

definition dispatchArbitrumSettlement ::
  "nat \<Rightarrow> 'e os \<Rightarrow> arb_config \<Rightarrow> 'e dispatch_deps \<Rightarrow> string \<Rightarrow> proof_json \<Rightarrow> ('e world, selection option) js"
  where
  "dispatchArbitrumSettlement fuel S cfg dd intentId json =
     bnd (getArbitrumLedgerEntry intentId) (\<lambda>existing. case existing of
         Some entry \<Rightarrow>
           if ae_stage entry \<noteq> Collateral_failed then
             bnd (js_lift (p_buildSettlementDeps dd
                   (case p_candidates dd of [] \<Rightarrow> None | c # _ \<Rightarrow> Some c))) (\<lambda>deps.
             sq (runArbitrumSettlementSequence fuel S cfg deps intentId json) (js_ret None))
           else route_and_run fuel S cfg dd intentId json
       | None \<Rightarrow> route_and_run fuel S cfg dd intentId json)"

section \<open>The real operations\<close>

definition build_or_default ::
  "'e os \<Rightarrow> arb_accounts \<Rightarrow> string \<Rightarrow> (string \<Rightarrow> ('e world, payout_result) js) \<Rightarrow> string option \<Rightarrow> jstext + 'e deps"
  where
  "build_or_default S accounts manager payout solver =
     buildRealDeps S accounts manager payout (checkSolanaSignatureLanded S)
       (case solver of None \<Rightarrow> defaultSolverAddress accounts | Some a \<Rightarrow> a)"

definition js_mul :: "jsnum \<Rightarrow> rat \<Rightarrow> jsnum" where
  "js_mul n k = (case n of Num q \<Rightarrow> Num (q * k) | _ \<Rightarrow> n)"

text \<open>Read once, when the settlement is wired: the accounts, the onboarding file, the hold time.\<close>

definition buildRealRoutingDeps ::
  "'e os \<Rightarrow> env_vars \<Rightarrow> arb_config \<Rightarrow> arb_accounts \<Rightarrow> (string option \<times> int option) list option \<Rightarrow>
   (string option \<Rightarrow> jstext + 'e deps) \<Rightarrow> jstext + 'e dispatch_deps" where
  "buildRealRoutingDeps S env cfg accounts onboarding build =
     (let candidates = configuredSolverAddresses accounts in
      case build (case candidates of [] \<Rightarrow> None | c # _ \<Rightarrow> Some c) of
        Inl e \<Rightarrow> Inl e
      | Inr reader \<Rightarrow> Inr
          \<lparr>p_selection = real_selection_deps S env cfg onboarding reader,
           p_candidates = candidates,
           p_buildSettlementDeps = build,
           p_nowSec = now_sec S,
           p_nowMs = now_ms S,
           p_reservationHoldMs = js_mul (reservationHoldSec env) 1000\<rparr>)"

end
