(* ===== verification/Wallet_Codec.thy ===== *)
theory Wallet_Codec
  imports Js_Value "HOL-Library.Word"
begin

text \<open>
  The address encodings of \<^verbatim>\<open>listener.ts\<close> and \<^verbatim>\<open>tron_listener.ts\<close>: \<^verbatim>\<open>Buffer\<close>'s hexadecimal, base 58
  with a checksum, and \<^verbatim>\<open>decodeDestinationWallet\<close>. Bytes are 8-bit words. SHA-256 (Node's crypto) and
  the Solana library's \<^verbatim>\<open>PublicKey\<close> are parameters. Base 58 and bytes are instances of one pair of
  conversions between numbers and digit lists, shown to be inverse to each other.
\<close>

section \<open>Numbers and digits\<close>

text \<open>The loop that prepends digits, and the value of a digit list, most significant first.\<close>

function digits_loop :: "nat \<Rightarrow> nat \<Rightarrow> nat list \<Rightarrow> nat list" where
  "digits_loop b n acc = (if n = 0 \<or> b < 2 then acc else digits_loop b (n div b) (n mod b # acc))"
  by auto
termination by (relation "measure (\<lambda>(b, n, acc). n)") auto

declare digits_loop.simps [simp del]

definition digits_value :: "nat \<Rightarrow> nat list \<Rightarrow> nat" where
  "digits_value b ds = foldl (\<lambda>v d. v * b + d) 0 ds"

lemma digits_loop_0 [simp]: "digits_loop b 0 acc = acc"
  by (subst digits_loop.simps) simp

lemma digits_loop_step:
  "0 < n \<Longrightarrow> 2 \<le> b \<Longrightarrow> digits_loop b n acc = digits_loop b (n div b) (n mod b # acc)"
  by (subst digits_loop.simps) simp

lemma digits_loop_acc: "2 \<le> b \<Longrightarrow> digits_loop b n acc = digits_loop b n [] @ acc"
proof (induction n arbitrary: acc rule: less_induct)
  case (less n)
  show ?case
  proof (cases "n = 0")
    case False
    then have n: "0 < n" "n div b < n" using less.prems by simp_all
    have "digits_loop b n acc = digits_loop b (n div b) [] @ n mod b # acc" for acc
      unfolding digits_loop_step [OF n(1) less.prems] by (rule less.IH [OF n(2) less.prems])
    from this [of acc] this [of "[]"] show ?thesis by simp
  qed simp
qed

definition digits_of :: "nat \<Rightarrow> nat \<Rightarrow> nat list" where
  "digits_of b n = digits_loop b n []"

lemma digits_of_step: "0 < n \<Longrightarrow> 2 \<le> b \<Longrightarrow> digits_of b n = digits_of b (n div b) @ [n mod b]"
  unfolding digits_of_def by (simp add: digits_loop_step digits_loop_acc [of b "n div b" "[n mod b]"])

lemma digits_of_0 [simp]: "digits_of b 0 = []"
  by (simp add: digits_of_def)

lemma digits_value_snoc [simp]: "digits_value b (ds @ [d]) = digits_value b ds * b + d"
  by (simp add: digits_value_def)

lemma digits_value_Nil [simp]: "digits_value b [] = 0"
  by (simp add: digits_value_def)

lemma digits_value_zero: "digits_value b (0 # ds) = digits_value b ds"
  by (simp add: digits_value_def)

lemma value_of_digits [simp]: "2 \<le> b \<Longrightarrow> digits_value b (digits_of b n) = n"
proof (induction n rule: less_induct)
  case (less n)
  show ?case
  proof (cases "n = 0")
    case False
    with less.prems have "digits_value b (digits_of b (n div b)) = n div b"
      by (intro less.IH) simp_all
    with False less.prems show ?thesis by (simp add: digits_of_step)
  qed simp
qed

lemma digits_of_bound: "2 \<le> b \<Longrightarrow> d \<in> set (digits_of b n) \<Longrightarrow> d < b"
proof (induction n rule: less_induct)
  case (less n)
  show ?case
  proof (cases "n = 0")
    case True
    with less.prems show ?thesis by simp
  next
    case False
    with less.prems have "d \<in> set (digits_of b (n div b)) \<or> d = n mod b"
      by (auto simp: digits_of_step)
    moreover have "n div b < n" "n mod b < b" using False less.prems(1) by simp_all
    ultimately show ?thesis using less.IH less.prems(1) by blast
  qed
qed

text \<open>A digit list without leading zeros is the one its value has.\<close>

lemma digits_of_value:
  assumes "2 \<le> b" "\<forall>d \<in> set ds. d < b" "ds \<noteq> [] \<longrightarrow> hd ds \<noteq> 0"
  shows "digits_of b (digits_value b ds) = ds"
  using assms(2,3)
proof (induction ds rule: rev_induct)
  case (snoc d ds)
  have IH: "digits_of b (digits_value b ds) = ds"
    using snoc by (cases ds) auto
  have d: "d < b" using snoc.prems(1) by simp
  have pos: "0 < digits_value b ds * b + d"
  proof (cases "ds = []")
    case True
    then show ?thesis using snoc.prems(2) by simp
  next
    case False
    with IH have "digits_value b ds \<noteq> 0" by (metis digits_of_0)
    then show ?thesis using assms(1) by simp
  qed
  have "(digits_value b ds * b + d) div b = digits_value b ds" "(digits_value b ds * b + d) mod b = d"
    using d by simp_all
  then show ?case
    unfolding digits_value_snoc digits_of_step [OF pos assms(1)] using IH by simp
qed simp

lemma digits_of_hd: "2 \<le> b \<Longrightarrow> digits_of b n \<noteq> [] \<Longrightarrow> hd (digits_of b n) \<noteq> 0"
proof (induction n rule: less_induct)
  case (less n)
  then have n: "0 < n" by (cases n) simp_all
  show ?case
  proof (cases "digits_of b (n div b) = []")
    case True
    then have "n div b = 0"
      using value_of_digits [OF less.prems(1), of "n div b"] by simp
    then have "n mod b = n" using less.prems(1) by (simp add: div_eq_0_iff)
    with True n less.prems show ?thesis by (simp add: digits_of_step)
  next
    case False
    with less n show ?thesis by (simp add: digits_of_step)
  qed
qed

section \<open>Hexadecimal\<close>

type_synonym bytes = "8 word list"

text \<open>\<^verbatim>\<open>Buffer.from(text, "hex")\<close> stops at the first pair that is not two hexadecimal digits.\<close>

fun fromHex :: "string \<Rightarrow> bytes" where
  "fromHex (a # b # r) = (case (digit_val 16 a, digit_val 16 b) of
       (Some x, Some y) \<Rightarrow> word_of_nat (16 * x + y) # fromHex r | _ \<Rightarrow> [])"
| "fromHex s = []"

definition toHex :: "bytes \<Rightarrow> string" where
  "toHex bs = concat (map (\<lambda>b. [digit_char (unat b div 16), digit_char (unat b mod 16)]) bs)"

lemma digit_val_16 [simp]: "d < 16 \<Longrightarrow> digit_val 16 (digit_char d) = Some d"
  by (auto simp: digit_val_def digit_char_def Let_def)

lemma unat_byte: "unat (b :: 8 word) < 256"
proof -
  have "unat b < 2 ^ LENGTH(8)" by (rule unsigned_less)
  then show ?thesis by simp
qed

lemma fromHex_toHex [simp]: "fromHex (toHex bs) = bs"
proof (induction bs)
  case (Cons b bs)
  have "unat b div 16 < 16" "unat b mod 16 < 16" "16 * (unat b div 16) + unat b mod 16 = unat b"
    using unat_byte [of b] by simp_all
  then show ?case using Cons by (simp add: toHex_def)
qed (simp add: toHex_def)

lemma read_toHex: "read_digits 16 v (toHex bs) = Some (foldl (\<lambda>v d. v * 256 + d) v (map unat bs))"
proof (induction bs arbitrary: v)
  case (Cons b bs)
  have b: "unat b div 16 < 16" "unat b mod 16 < 16"
    using unat_byte [of b] by simp_all
  have "(v * 16 + unat b div 16) * 16 + unat b mod 16 = v * 256 + unat b"
    using div_mult_mod_eq [of "unat b" 16] by (simp add: algebra_simps)
  then have "read_digits 16 v (toHex (b # bs)) = read_digits 16 (v * 256 + unat b) (toHex bs)"
    using b by (simp add: toHex_def algebra_simps)
  with Cons show ?case by simp
qed (simp add: toHex_def)

lemma digit_not_space: "digit_val 16 c \<noteq> None \<Longrightarrow> \<not> is_space c"
  by (auto simp: digit_val_def is_space_def Let_def split: if_splits)

lemma hex_chars:
  assumes "c \<in> set (toHex bs)"
  shows "\<not> is_space c"
proof -
  obtain b :: "8 word" where "c = digit_char (unat b div 16) \<or> c = digit_char (unat b mod 16)"
    using assms by (auto simp: toHex_def)
  moreover have "unat b div 16 < 16" "unat b mod 16 < 16"
    using unat_byte [of b] by simp_all
  ultimately obtain d where "d < 16" "c = digit_char d" by blast
  then show ?thesis by (intro digit_not_space) simp
qed

text \<open>\<^verbatim>\<open>BigInt("0x" + hex)\<close>.\<close>

lemma BigInt_toHex: "bs \<noteq> [] \<Longrightarrow> js_BigInt (''0x'' @ toHex bs) = Inr (int (digits_value 256 (map unat bs)))"
proof -
  assume "bs \<noteq> []"
  then have "toHex bs \<noteq> []" by (auto simp: toHex_def neq_Nil_conv)
  moreover have "trim (''0x'' @ toHex bs) = ''0x'' @ toHex bs"
    using hex_chars by (intro trim_id) (auto simp: is_space_def)
  ultimately show ?thesis
    by (simp add: js_BigInt_def bigint_of_def parse_nat_def read_toHex digits_value_def)
qed

section \<open>Base 58\<close>

definition BASE58_ALPHABET :: string where
  "BASE58_ALPHABET = ''123456789ABCDEFGHJKLMNPQRSTUVWXYZabcdefghijkmnopqrstuvwxyz''"

function b58_loop :: "int \<Rightarrow> string \<Rightarrow> string" where
  "b58_loop v result = (if v > 0 then b58_loop (v div 58) (BASE58_ALPHABET ! nat (v mod 58) # result) else result)"
  by auto
termination by (relation "measure (\<lambda>(v, result). nat v)") auto

declare b58_loop.simps [simp del]

fun leading_ones :: "bytes \<Rightarrow> string \<Rightarrow> string" where
  "leading_ones [] result = result"
| "leading_ones (b # bs) result = (if b = 0 then leading_ones bs (CHR ''1'' # result) else result)"

definition base58CheckEncode :: "(bytes \<Rightarrow> bytes) \<Rightarrow> string \<Rightarrow> jstext + string" where
  "base58CheckEncode sha256 hex =
     (let buf = fromHex hex; bytes = buf @ take 4 (sha256 (sha256 buf)) in
      case js_BigInt (''0x'' @ toHex bytes) of
        Inl e \<Rightarrow> Inl e
      | Inr v \<Rightarrow> Inr (leading_ones bytes (b58_loop v [])))"

text \<open>The decoder that base 58 is defined by: leading ones are zero bytes, the rest is a number.\<close>

fun index_of :: "'a list \<Rightarrow> 'a \<Rightarrow> nat" where
  "index_of [] c = 0"
| "index_of (x # xs) c = (if x = c then 0 else Suc (index_of xs c))"

definition base58_decode :: "string \<Rightarrow> bytes" where
  "base58_decode s =
     replicate (length (takeWhile (\<lambda>c. c = CHR ''1'') s)) 0 @
     map word_of_nat (digits_of 256 (digits_value 58 (map (index_of BASE58_ALPHABET) s)))"

lemma alphabet_length: "length BASE58_ALPHABET = 58"
  by (simp add: BASE58_ALPHABET_def)

lemma alphabet_distinct: "distinct BASE58_ALPHABET"
  unfolding BASE58_ALPHABET_def by code_simp

lemma index_of_nth: "distinct xs \<Longrightarrow> i < length xs \<Longrightarrow> index_of xs (xs ! i) = i"
  by (induction xs arbitrary: i) (auto simp: nth_Cons split: nat.split)

lemma alphabet_index [simp]: "i < 58 \<Longrightarrow> index_of BASE58_ALPHABET (BASE58_ALPHABET ! i) = i"
  by (simp add: index_of_nth alphabet_length alphabet_distinct)

lemma alphabet_1: "BASE58_ALPHABET ! 0 = CHR ''1''"
  by (simp add: BASE58_ALPHABET_def)

lemma alphabet_eq_1: "i < 58 \<Longrightarrow> BASE58_ALPHABET ! i = CHR ''1'' \<longleftrightarrow> i = 0"
  using alphabet_1 alphabet_index [of i] alphabet_index [of 0] by (metis zero_less_numeral)

lemma b58_loop_digits:
  "b58_loop (int n) (map ((!) BASE58_ALPHABET) acc) = map ((!) BASE58_ALPHABET) (digits_loop 58 n acc)"
proof (induction n arbitrary: acc rule: less_induct)
  case (less n)
  show ?case
  proof (cases "n = 0")
    case True
    then show ?thesis by (simp add: b58_loop.simps)
  next
    case False
    have "b58_loop (int n) (map ((!) BASE58_ALPHABET) acc) =
        b58_loop (int (n div 58)) (map ((!) BASE58_ALPHABET) (n mod 58 # acc))"
    proof -
      have "int n div 58 = int (n div 58)" "nat (int n mod 58) = n mod 58"
        by (simp_all add: zdiv_int nat_mod_distrib)
      then show ?thesis
        using False unfolding b58_loop.simps [of "int n"] by simp
    qed
    also have "\<dots> = map ((!) BASE58_ALPHABET) (digits_loop 58 (n div 58) (n mod 58 # acc))"
      using False by (intro less) simp
    finally show ?thesis
      using False by (simp add: digits_loop_step)
  qed
qed

lemma leading_ones_eq: "leading_ones bs r = replicate (length (takeWhile (\<lambda>b. b = 0) bs)) (CHR ''1'') @ r"
  by (induction bs arbitrary: r) (simp_all add: replicate_app_Cons_same)

lemma digits_value_zeros: "digits_value b (replicate k 0 @ ds) = digits_value b ds"
  by (induction k) (simp_all add: digits_value_zero)

lemma takeWhile_replicate:
  "(r \<noteq> [] \<longrightarrow> hd r \<noteq> x) \<Longrightarrow> takeWhile (\<lambda>c. c = x) (replicate k x @ r) = replicate k x"
  by (induction k) (cases r, simp_all)

lemma split_zeros:
  obtains k rest where "bs = replicate k (0 :: 8 word) @ rest" "rest \<noteq> [] \<longrightarrow> hd rest \<noteq> 0"
    "length (takeWhile (\<lambda>b. b = 0) bs) = k"
proof
  let ?k = "length (takeWhile (\<lambda>b. b = 0) bs)"
  have "takeWhile (\<lambda>b. b = 0) bs = replicate ?k 0"
    by (rule replicate_eqI) (auto dest: set_takeWhileD)
  then show "bs = replicate ?k 0 @ dropWhile (\<lambda>b. b = 0) bs"
    by (metis takeWhile_dropWhile_id)
  show "dropWhile (\<lambda>b. b = 0) bs \<noteq> [] \<longrightarrow> hd (dropWhile (\<lambda>b. b = 0) bs) \<noteq> 0"
    using hd_dropWhile [of "\<lambda>b. b = 0" bs] by blast
qed (rule refl)

text \<open>The encoding without the checksum, and its inverse.\<close>

definition base58_text :: "bytes \<Rightarrow> string" where
  "base58_text bs = leading_ones bs (b58_loop (int (digits_value 256 (map unat bs))) [])"

lemma base58_decode_text [simp]: "base58_decode (base58_text bs) = bs"
proof -
  obtain k rest where bs: "bs = replicate k 0 @ rest" "rest \<noteq> [] \<longrightarrow> hd rest \<noteq> 0"
      "length (takeWhile (\<lambda>b. b = 0) bs) = k"
    by (rule split_zeros)
  let ?v = "digits_value 256 (map unat rest)"
  have v: "digits_value 256 (map unat bs) = ?v"
    by (simp add: bs(1) digits_value_zeros)
  let ?t = "map ((!) BASE58_ALPHABET) (digits_of 58 ?v)"
  have enc: "base58_text bs = replicate k (CHR ''1'') @ ?t"
    using b58_loop_digits [of ?v "[]"]
    by (simp add: base58_text_def leading_ones_eq bs(3) v digits_of_def)
  have "?t \<noteq> [] \<longrightarrow> hd ?t \<noteq> CHR ''1''"
  proof
    assume "?t \<noteq> []"
    then have ne: "digits_of 58 ?v \<noteq> []" by simp
    then have "hd (digits_of 58 ?v) \<noteq> 0" "hd (digits_of 58 ?v) < 58"
      using digits_of_hd [of 58 ?v] digits_of_bound [of 58 "hd (digits_of 58 ?v)" ?v] by simp_all
    then show "hd ?t \<noteq> CHR ''1''" using ne by (simp add: hd_map alphabet_eq_1)
  qed
  then have ones: "length (takeWhile (\<lambda>c. c = CHR ''1'') (base58_text bs)) = k"
    unfolding enc by (simp add: takeWhile_replicate)
  have "map (index_of BASE58_ALPHABET) ?t = digits_of 58 ?v"
    unfolding map_map by (rule map_idI) (simp add: digits_of_bound)
  moreover have "index_of BASE58_ALPHABET (CHR ''1'') = 0"
    by (simp add: BASE58_ALPHABET_def)
  ultimately have "digits_value 58 (map (index_of BASE58_ALPHABET) (base58_text bs)) = ?v"
    unfolding enc by (simp add: digits_value_zeros del: map_map)
  moreover have "digits_of 256 ?v = map unat rest"
  proof (rule digits_of_value)
    show "map unat rest \<noteq> [] \<longrightarrow> hd (map unat rest) \<noteq> 0"
      using bs(2) by (auto simp: hd_map unat_eq_zero)
  qed (auto simp: unat_byte)
  ultimately have "base58_decode (base58_text bs) = replicate k 0 @ rest"
    unfolding base58_decode_def ones by (simp add: comp_def)
  then show ?thesis by (simp only: bs(1) [symmetric])
qed

lemma base58CheckEncode_text:
  "take 4 (sha256 (sha256 (fromHex h))) \<noteq> [] \<Longrightarrow>
   base58CheckEncode sha256 h = Inr (base58_text (fromHex h @ take 4 (sha256 (sha256 (fromHex h)))))"
  unfolding base58CheckEncode_def Let_def base58_text_def by (subst BigInt_toHex) simp_all

section \<open>The destination wallet\<close>

definition SOLANA_CHAIN :: int where "SOLANA_CHAIN = 1399811149"
definition TRON_NILE_CHAIN_ID :: int where "TRON_NILE_CHAIN_ID = 3448148188"

text \<open>\<^verbatim>\<open>toBase58\<close> stands for \<^verbatim>\<open>new PublicKey(bytes).toBase58()\<close>.\<close>

definition decodeDestinationWallet ::
  "(bytes \<Rightarrow> jstext + string) \<Rightarrow> (bytes \<Rightarrow> bytes) \<Rightarrow> string \<Rightarrow> int \<Rightarrow> jstext + string" where
  "decodeDestinationWallet toBase58 sha256 destinationWallet destinationChainId =
     (let bytes = fromHex (drop 2 destinationWallet) in
      if destinationChainId = SOLANA_CHAIN then toBase58 bytes
      else if destinationChainId = TRON_NILE_CHAIN_ID then base58CheckEncode sha256 (toHex (take 21 bytes))
      else Inr (''0x'' @ toHex (drop 12 bytes)))"

section \<open>Properties\<close>

text \<open>C35: Base 58 with checksum loses nothing: whenever the hash is not empty the encoding succeeds,
  whatever the bytes and however many of them are leading zeros, and decoding its text gives the
  bytes followed by the first four of their double hash.\<close>

theorem base58CheckEncode_roundtrip:
  assumes "sha256 (sha256 (fromHex h)) \<noteq> []"
  shows "map_sum id base58_decode (base58CheckEncode sha256 h) =
    Inr (fromHex h @ take 4 (sha256 (sha256 (fromHex h))))"
  using assms by (simp add: base58CheckEncode_text)

theorem base58CheckEncode_witness:
  "map_sum id base58_decode (base58CheckEncode (\<lambda>_. [7, 0, 9, 1, 2]) ''0041ff'') = Inr [0, 65, 255, 7, 0, 9, 1]"
proof -
  have "fromHex ''0041ff'' = [0, 65, 255]" by code_simp
  with base58CheckEncode_roundtrip [of "\<lambda>_. [7, 0, 9, 1, 2]" "''0041ff''"] show ?thesis by simp
qed

text \<open>C36: The wallet is decoded by its chain: for Solana it is what the library makes of all its bytes,
  for TRON a text that decodes to the first 21 bytes and their checksum, and for any other chain the
  hexadecimal address of the bytes from the thirteenth on, so that a left-padded address is
  given back as it was.\<close>

theorem decodeDestinationWallet_spec:
  assumes "\<And>b. sha256 b \<noteq> []"
  shows "decodeDestinationWallet pk sha256 (''0x'' @ toHex bs) SOLANA_CHAIN = pk bs
    \<and> map_sum id base58_decode (decodeDestinationWallet pk sha256 (''0x'' @ toHex bs) TRON_NILE_CHAIN_ID) =
        Inr (take 21 bs @ take 4 (sha256 (sha256 (take 21 bs))))
    \<and> (chain = SOLANA_CHAIN \<or> chain = TRON_NILE_CHAIN_ID \<or>
        decodeDestinationWallet pk sha256 (''0x'' @ toHex (replicate 12 0 @ bs)) chain = Inr (''0x'' @ toHex bs))"
  using assms
  by (simp add: decodeDestinationWallet_def Let_def base58CheckEncode_text SOLANA_CHAIN_def TRON_NILE_CHAIN_ID_def)

theorem decodeDestinationWallet_witness:
  "decodeDestinationWallet (\<lambda>_. Inr []) (\<lambda>_. [1]) (''0x'' @ toHex (replicate 12 0 @ [171, 1])) 421614 =
     Inr ''0xab01''"
proof -
  have "toHex [171, 1] = ''ab01''" by code_simp
  with decodeDestinationWallet_spec [of "\<lambda>_. [1]" "\<lambda>_. Inr []" "[171, 1]" 421614] show ?thesis
    by (simp add: SOLANA_CHAIN_def TRON_NILE_CHAIN_ID_def)
qed

end
