(* ===== verification/Listener.thy ===== *)
theory Listener
  imports Dispatch Wallet_Codec
begin

text \<open>
  \<^verbatim>\<open>listener.ts\<close>: the configuration checked at start-up, the Solana payout leg with its handshake,
  the proving job of an intent, the handler of an \<^verbatim>\<open>IntentCreated\<close> log, the finality poll, the
  boot sequence and the periodic jobs. The settlement script is a child process: what its
  listeners see comes from \<open>os_childEvent\<close>, one event at a time.
\<close>

section \<open>Configuration\<close>

record listener_config =
  lc_rpcUrls :: "string list"
  lc_manager :: string
  lc_robinhoodManager :: string
  lc_robinhoodRpcUrl :: string
  lc_robinhoodAlchemyRpcUrl :: "string option"
  lc_enableRobinhood :: bool
  lc_arbitrumPollMs :: jsnum
  lc_robinhoodPollMs :: jsnum
  lc_finalityPollMs :: jsnum
  lc_slashPollMs :: jsnum
  lc_settlingReconcileMs :: jsnum
  lc_settleScript :: string
  lc_solanaRpcUrl :: string

text \<open>\<open>Inl\<close>: the message printed before \<^verbatim>\<open>process.exit(1)\<close>.\<close>

definition load_listener_config :: "env_vars \<Rightarrow> string \<Rightarrow> jstext + listener_config" where
  "load_listener_config env defaultSettleScript =
     (let var = map_of env;
          num = (\<lambda>name d. js_Number (nullish (var name) d));
          urls = List.map_filter (\<lambda>name. case var name of None \<Rightarrow> None | Some u \<Rightarrow> if u = [] then None else Some u)
            [''ALCHEMY_RPC_URL_1'', ''ALCHEMY_RPC_URL_2'', ''ALCHEMY_RPC_URL_3''];
          manager = falsy_or (var ''ARBITRUM_INTENT_MANAGER_ADDRESS'') []
      in if urls = [] then
           Inl (js ''[FATAL] at least one of ALCHEMY_RPC_URL_1/2/3 must be set in .env'')
         else if manager = [] then
           Inl (js ''[FATAL] ARBITRUM_INTENT_MANAGER_ADDRESS must be set in .env '' @ emdash @
             js '' refusing to guess a contract address'')
         else Inr
           \<lparr>lc_rpcUrls = urls, lc_manager = manager,
            lc_robinhoodManager = nullish (var ''ROBINHOOD_INTENT_MANAGER_ADDRESS'')
              ''0xcA6bf2D574209D49515a9Eeb61E27924edE28860'',
            lc_robinhoodRpcUrl = nullish (var ''ROBINHOOD_RPC_URL'') ''https://rpc.testnet.chain.robinhood.com'',
            lc_robinhoodAlchemyRpcUrl = var ''ROBINHOOD_ALCHEMY_RPC_URL'',
            lc_enableRobinhood = (var ''ENABLE_ROBINHOOD'' = Some ''true''),
            lc_arbitrumPollMs = num ''ARBITRUM_POLL_INTERVAL_MS'' ''4000'',
            lc_robinhoodPollMs = num ''ROBINHOOD_POLL_INTERVAL_MS'' ''12000'',
            lc_finalityPollMs = num ''FINALITY_POLL_INTERVAL_MS'' ''60000'',
            lc_slashPollMs = num ''SLASH_POLL_INTERVAL_MS'' ''60000'',
            lc_settlingReconcileMs = num ''SETTLING_RECONCILE_INTERVAL_MS'' ''60000'',
            lc_settleScript = nullish (var ''SETTLE_SCRIPT_PATH'') defaultSettleScript,
            lc_solanaRpcUrl = falsy_or (var ''SOLANA_RPC_URL'') ''https://api.devnet.solana.com''\<rparr>)"

text \<open>What the module's functions close over, with the library functions they call.\<close>

record 'e wiring =
  wr_os :: "'e os"
  wr_env :: env_vars
  wr_cfg :: arb_config
  wr_accounts :: arb_accounts
  wr_manager :: string
  wr_toBase58 :: "bytes \<Rightarrow> jstext + string"
  wr_sha256 :: "bytes \<Rightarrow> bytes"
  wr_fuel :: nat

section \<open>The Solana payout\<close>

definition sig_marker :: string where
  "sig_marker = ''SETTLING_SIG:''"

text \<open>The match of \<^verbatim>\<open>/SETTLING_SIG:(\S+)/\<close>: the first marker that a character other than a space follows.\<close>

fun settling_sig :: "string \<Rightarrow> string option" where
  "settling_sig [] = None"
| "settling_sig (c # s) =
     (let found = takeWhile (\<lambda>d. \<not> is_space d) (drop (length sig_marker) (c # s)) in
      if take (length sig_marker) (c # s) = sig_marker \<and> found \<noteq> [] then Some found
      else settling_sig s)"

text \<open>The variables the listeners of the child share; a signature is there once it was handled.\<close>

record settler =
  st_out :: string
  st_err :: string
  st_sig :: "string option"

text \<open>
  One chunk on stdout. An exception in this listener is uncaught: it is logged and the process goes
  on, with the signature remembered and, when the records failed, the child never told to go.
\<close>

definition on_stdout :: "'e os \<Rightarrow> string \<Rightarrow> string \<Rightarrow> settler \<Rightarrow> ('e world, settler) js" where
  "on_stdout S iid d st =
     (let out = st_out st @ d in
      case st_sig st of Some _ \<Rightarrow> js_ret (st\<lparr>st_out := out\<rparr>)
      | None \<Rightarrow>
        (case settling_sig out of None \<Rightarrow> js_ret (st\<lparr>st_out := out\<rparr>)
         | Some sig \<Rightarrow>
            sq (js_catch
                 (sq (markSettling S iid sig)
                 (sq (setSettling S iid sig)
                 (sq (ext_do (os_childStdin S ''GO\<newline>''))
                     (emit (Ev_go (toLowerCase iid) sig)))))
                 (\<lambda>_. js_ret ()))
               (js_ret (st\<lparr>st_out := out, st_sig := Some sig\<rparr>))))"

definition code_text :: "int option \<Rightarrow> string" where
  "code_text code = (case code of None \<Rightarrow> ''null'' | Some n \<Rightarrow> bigint_toString n)"

text \<open>
  The end of the child. An exception in this listener leaves the promise unresolved: the caller
  waits for ever, which is \<open>Stop\<close> here.
\<close>

definition on_close :: "'e os \<Rightarrow> string \<Rightarrow> int option \<Rightarrow> settler \<Rightarrow> ('e world, payout_result) js" where
  "on_close S iid code st =
     js_catch
       (if code \<noteq> Some 0 then
          sq (case st_sig st of None \<Rightarrow> js_ret () | Some sig \<Rightarrow> setUnconfirmedNeedsReview S iid sig)
             (js_ret \<lparr>pr_ok = False, pr_sig = None, pr_error = Some (js (''settlement script failed (code '' @
                code_text code @ ''): '' @ trim (st_err st)))\<rparr>)
        else
          sq (markSettled S iid)
          (sq (setSettled S iid (case st_sig st of None \<Rightarrow> ''unknown'' | Some sig \<Rightarrow> sig))
              (js_ret \<lparr>pr_ok = True, pr_sig = st_sig st, pr_error = None\<rparr>)))
       (\<lambda>_. js_stop)"

text \<open>The events of the child, in order, until one resolves the promise.\<close>

fun settler_loop :: "nat \<Rightarrow> 'e os \<Rightarrow> string \<Rightarrow> settler \<Rightarrow> ('e world, payout_result) js" where
  "settler_loop 0 S iid st = js_stop"
| "settler_loop (Suc fuel) S iid st =
     bnd (ext (os_childEvent S)) (\<lambda>ev. case ev of
         C_stdout d \<Rightarrow> bnd (on_stdout S iid d st) (settler_loop fuel S iid)
       | C_stderr d \<Rightarrow> settler_loop fuel S iid (st\<lparr>st_err := st_err st @ d\<rparr>)
       | C_close code \<Rightarrow> on_close S iid code st
       | C_error e \<Rightarrow> js_ret \<lparr>pr_ok = False, pr_sig = None,
           pr_error = Some (js ''failed to spawn settler: '' @ e)\<rparr>)"

definition settle_env_of :: "proof_json \<Rightarrow> string \<Rightarrow> string \<Rightarrow> settle_env" where
  "settle_env_of json payoutDestination zkProofHash =
     \<lparr>se_destinationWallet = payoutDestination,
      se_destinationChainId = bigint_toString (pj_destination_chain_id json),
      se_proofAmountWei = pj_amount json, se_intentId = pj_intent_id json,
      se_proofHashHex = zkProofHash\<rparr>"

definition mid_settlement :: jstext where
  "mid_settlement = js ''already mid-settlement per local ledger '' @ emdash @
     js '' refusing to re-invoke settle_intent.js''"

definition is_settling :: "'e world \<Rightarrow> string \<Rightarrow> bool" where
  "is_settling w intentId = (case settled_get w intentId of None \<Rightarrow> False | Some en \<Rightarrow> le_status en = L_settling)"

definition spawn_settler :: "'e wiring \<Rightarrow> proof_json \<Rightarrow> string \<Rightarrow> string \<Rightarrow> ('e world, payout_result) js" where
  "spawn_settler W json payoutDestination zkProofHash =
     (let S = wr_os W; iid = pj_intent_id json in
      sq (emit (Ev_spawn (toLowerCase iid) zkProofHash))
      (sq (ext_do (os_spawnSettle S (settle_env_of json payoutDestination zkProofHash)))
          (settler_loop (wr_fuel W) S iid \<lparr>st_out = [], st_err = [], st_sig = None\<rparr>)))"

definition runSolanaPayout :: "'e wiring \<Rightarrow> proof_json \<Rightarrow> string \<Rightarrow> string \<Rightarrow> ('e world, payout_result) js" where
  "runSolanaPayout W json payoutDestination zkProofHash =
     bnd (isAlreadySettled (pj_intent_id json)) (\<lambda>settled.
     if settled then js_ret \<lparr>pr_ok = True, pr_sig = None, pr_error = None\<rparr>
     else bnd (js_get (\<lambda>w. is_settling w (pj_intent_id json))) (\<lambda>settling.
       if settling then js_ret \<lparr>pr_ok = False, pr_sig = None, pr_error = Some mid_settlement\<rparr>
       else spawn_settler W json payoutDestination zkProofHash))"

section \<open>The proving job\<close>

definition decode_wallet :: "'e wiring \<Rightarrow> string \<Rightarrow> int \<Rightarrow> jstext + string" where
  "decode_wallet W = decodeDestinationWallet (wr_toBase58 W) (wr_sha256 W)"

text \<open>\<^verbatim>\<open>intentId.replace(/^0x/, "").toLowerCase()\<close>: unlike in \<open>keyOf\<close> the capital X stays.\<close>

definition plain_id :: "string \<Rightarrow> string" where
  "plain_id intentId = toLowerCase (if take 2 intentId = ''0x'' then drop 2 intentId else intentId)"

definition block_failed_reason :: "int \<Rightarrow> jstext \<Rightarrow> jstext" where
  "block_failed_reason n e =
     js (''failed to fetch canonical block '' @ bigint_toString n @ '' for the settle gate: '') @ e"

definition settle_refused_reason :: "string list \<Rightarrow> jstext" where
  "settle_refused_reason failed =
     js (''settle gate REFUSED (failed: '' @ join_with '', '' failed @ '') '') @ emdash @ js '' not settling''"

definition ledger_refused_reason :: jstext where
  "ledger_refused_reason = js ''already settled or mid-settlement per local ledger '' @ emdash @
     js '' refusing to re-invoke settle_intent.js''"

text \<open>From a decoded destination to the dispatch, with the operations of this intent.\<close>

definition dispatch_proved :: "'e wiring \<Rightarrow> proof_json \<Rightarrow> string \<Rightarrow> ('e world, unit) js" where
  "dispatch_proved W json payoutDestination =
     bnd (js_get (\<lambda>w. os_onboarding (wr_os W) (w_env w))) (\<lambda>onboarding.
     bnd (js_lift (buildRealRoutingDeps (wr_os W) (wr_env W) (wr_cfg W) (wr_accounts W) onboarding
           (build_or_default (wr_os W) (wr_accounts W) (wr_manager W) (runSolanaPayout W json payoutDestination))))
       (\<lambda>dd. bnd (dispatchArbitrumSettlement (wr_fuel W) (wr_os W) (wr_cfg W) dd (pj_intent_id json) json)
          (\<lambda>_. js_ret ())))"

definition settle_proved :: "'e wiring \<Rightarrow> string \<Rightarrow> proof_json \<Rightarrow> string \<Rightarrow> ('e world, unit) js" where
  "settle_proved W intentId json canonicalBlockHash =
     (let S = wr_os W in
      bnd (evaluateSettleGate S json (wr_manager W) canonicalBlockHash) (\<lambda>gate.
      if \<not> sg_ok gate then
        alert_and_record S intentId intentId (settle_refused_reason (sg_failedChecks gate))
      else
        bnd (js_get (\<lambda>w. is_settled w (pj_intent_id json) \<or> is_settling w (pj_intent_id json))) (\<lambda>known.
        if known then alert_and_record S intentId intentId ledger_refused_reason
        else
          bnd (js_lift (decode_wallet W (pj_destination_wallet json) (pj_destination_chain_id json)))
            (dispatch_proved W json))))"

text \<open>The job that \<^verbatim>\<open>triggerZKVerification\<close> queues.\<close>

definition zk_job :: "'e wiring \<Rightarrow> string \<times> string \<Rightarrow> ('e world, unit) js" where
  "zk_job W = (\<lambda>(txHash, intentId).
     let S = wr_os W in
     bnd (proveIntent S txHash (plain_id intentId)) (\<lambda>outcome. case outcome of
         Rejected \<Rightarrow> js_ret ()
       | Alerted \<Rightarrow> js_ret ()
       | Settle_check json \<Rightarrow>
           bnd (js_catch (bnd (ext (os_blockHash S (pj_block_number json))) (\<lambda>h. js_ret (Inr h)))
                  (\<lambda>e. js_ret (Inl e))) (\<lambda>block. case block of
               Inl e \<Rightarrow> alert_and_record S intentId intentId (block_failed_reason (pj_block_number json) e)
             | Inr canonicalBlockHash \<Rightarrow> settle_proved W intentId json canonicalBlockHash)))"

definition triggerZKVerification ::
  "string \<Rightarrow> string \<Rightarrow> (string \<times> string) prover_queue \<Rightarrow> (string \<times> string) prover_queue" where
  "triggerZKVerification txHash intentId = enqueue (txHash, intentId)"

text \<open>The payout of an intent that is resumed; the wallet is decoded when it is built.\<close>

definition buildRunSolanaPayoutForResume ::
  "'e wiring \<Rightarrow> string \<Rightarrow> proof_json \<Rightarrow> jstext + (string \<Rightarrow> ('e world, payout_result) js)" where
  "buildRunSolanaPayoutForResume W intentId json =
     (case decode_wallet W (pj_destination_wallet json) (pj_destination_chain_id json) of
        Inl e \<Rightarrow> Inl e
      | Inr payoutDestination \<Rightarrow> Inr (runSolanaPayout W json payoutDestination))"

section \<open>Logs\<close>

record intent_log =
  il_intentId :: string
  il_amount :: int
  il_tokenAddress :: string
  il_destinationWallet :: string
  il_destinationChainId :: int
  il_expiry :: int
  il_transactionHash :: "string option"
  il_blockNumber :: "int option"
  il_blockHash :: "string option"

text \<open>\<^verbatim>\<open>new Date(seconds * 1000).toISOString()\<close> throws past the largest date, 8.64e15 ms.\<close>

definition iso_date_ok :: "int \<Rightarrow> bool" where
  "iso_date_ok seconds \<longleftrightarrow> \<bar>seconds\<bar> \<le> 8640000000000"

definition state_fields :: "intent_log \<Rightarrow> string \<Rightarrow> string \<Rightarrow> intent_created_fields" where
  "state_fields l chainLabel decodedDestination =
     \<lparr>cf_intentId = il_intentId l, cf_sourceChain = chainLabel,
      cf_sourceTxHash = nullish (il_transactionHash l) ''unknown'',
      cf_blockNumber = il_blockNumber l, cf_blockHash = il_blockHash l,
      cf_amountWei = bigint_toString (il_amount l), cf_tokenAddress = il_tokenAddress l,
      cf_destinationChainId = bigint_toString (il_destinationChainId l),
      cf_destinationWallet = decodedDestination\<rparr>"

definition ARBITRUM_SEPOLIA :: string where
  "ARBITRUM_SEPOLIA = ''Arbitrum Sepolia''"

text \<open>
  The handler of one log; its result is the job handed to \<open>triggerZKVerification\<close>, the last thing
  it does. Whatever is thrown is logged and the log is dropped.
\<close>

definition logIntentCreated :: "'e wiring \<Rightarrow> intent_log \<Rightarrow> string \<Rightarrow> ('e world, (string \<times> string) option) js" where
  "logIntentCreated W l chainLabel =
     (let S = wr_os W in
      js_catch
       (if \<not> iso_date_ok (il_expiry l) then js_throw (js ''Invalid time value'')
        else bnd (js_lift (decode_wallet W (il_destinationWallet l) (il_destinationChainId l))) (\<lambda>decoded.
          let stateFields = state_fields l chainLabel decoded in
          if chainLabel \<noteq> ARBITRUM_SEPOLIA then
            sq (recordIntentCreated S stateFields ((proof_kind_only Pk_skipped)\<lparr>ps_chain := Some chainLabel\<rparr>))
               (js_ret None)
          else if \<not> truthy (il_transactionHash l) then
            sq (recordIntentCreated S stateFields (proof_kind_only Pk_alert))
            (sq (recordAlertReason S (il_intentId l)
                  (js ''IntentCreated log has no transactionHash '' @ emdash @ js '' cannot prove''))
                (js_ret None))
          else
            sq (recordIntentCreated S stateFields (proof_kind_only Pk_queued))
               (js_ret (Some (the (il_transactionHash l), il_intentId l)))))
       (\<lambda>_. js_ret None))"

section \<open>Finality\<close>

definition mark_if_final :: "'e os \<Rightarrow> int \<Rightarrow> intent_state \<Rightarrow> ('e world, unit) js" where
  "mark_if_final S finalizedBlockNumber state =
     (case is_blockNumber state of None \<Rightarrow> js_ret ()
      | Some n \<Rightarrow> if isBlockFinal n finalizedBlockNumber then setFinal S (is_intentId state) else js_ret ())"

definition pollFinality :: "'e os \<Rightarrow> ('e world, unit) js" where
  "pollFinality S =
     bnd (js_catch (ext (os_finalizedBlock S)) (\<lambda>_. js_ret None)) (\<lambda>block. case block of
         None \<Rightarrow> js_ret ()
       | Some finalizedBlockNumber \<Rightarrow>
           bnd (listPendingFinality S ARBITRUM_SEPOLIA) (\<lambda>states.
             js_for states (mark_if_final S finalizedBlockNumber)))"

section \<open>Boot and the periodic jobs\<close>

text \<open>The operations of the start-up and of the pollers: the first solver's, with a payout that throws.\<close>

definition reconciliationDeps :: "'e wiring \<Rightarrow> jstext + 'e deps" where
  "reconciliationDeps W = build_or_default (wr_os W) (wr_accounts W) (wr_manager W)
     (\<lambda>_. js_throw (js ''runSolanaPayout must not be called from reconciliation/poller deps'')) None"

definition settling_pass :: "'e wiring \<Rightarrow> ('e world, string list) js" where
  "settling_pass W = reconcileSettlingLedger (wr_os W) (checkSolanaSignatureLanded (wr_os W))"

text \<open>\<^verbatim>\<open>main\<close> up to the watchers. What it throws, and an unreachable RPC, ends the process.\<close>

definition main_boot :: "'e wiring \<Rightarrow> ('e world, unit) js" where
  "main_boot W =
     (let S = wr_os W in
      bnd (js_lift (reconciliationDeps W)) (\<lambda>deps.
      bnd (settling_pass W) (\<lambda>_.
      sq (reconcileArbitrumLedger (wr_fuel W) S (wr_cfg W) deps (Some (buildRunSolanaPayoutForResume W)))
      (bnd (ext (os_blockNumber S)) (\<lambda>_.
       bnd (checkSolverApprovals S (ac_solvers (wr_accounts W))) (\<lambda>_. js_ret ()))))))"

definition finality_tick :: "'e wiring \<Rightarrow> ('e world, unit) js" where
  "finality_tick W = js_catch (pollFinality (wr_os W)) (\<lambda>_. js_ret ())"

definition slash_tick :: "'e wiring \<Rightarrow> ('e world, unit) js" where
  "slash_tick W = bnd (js_lift (reconciliationDeps W)) (\<lambda>deps.
     js_catch (pollAwaitingSlash (wr_fuel W) (wr_os W) (wr_cfg W) deps) (\<lambda>_. js_ret ()))"

definition settling_tick :: "'e wiring \<Rightarrow> ('e world, unit) js" where
  "settling_tick W = bnd (js_lift (reconciliationDeps W)) (\<lambda>deps.
     js_catch
       (bnd (settling_pass W) (\<lambda>newlySettled. js_for newlySettled (\<lambda>intentId.
          js_catch (resumeCollateralPostedIntent (wr_fuel W) (wr_os W) (wr_cfg W) deps intentId
              (Some (buildRunSolanaPayoutForResume W)))
            (\<lambda>_. js_ret ()))))
       (\<lambda>_. js_ret ()))"

end
