(* ===== verification/Handlers.thy ===== *)
theory Handlers
  imports Listener
begin

text \<open>
  What every handler of the listener keeps. The locale \<open>process_invariant\<close> collects what an
  invariant of the whole process must tolerate; inside it each handler of \<^verbatim>\<open>listener.ts\<close> is shown,
  once, to keep the invariant however it ends. The interpretations are the invariants of the
  process.
\<close>

section \<open>The payout leg\<close>

context quiet_invariant
begin

lemma stdout_keeps:
  assumes "\<And>i g. preserves I (markSettling S i g)" "\<And>i g. preserves I (emit (Ev_go i g))"
  shows "preserves I (on_stdout S iid d st)"
  unfolding on_stdout_def Let_def by (intro steps setters pure assms)

lemma close_keeps:
  assumes "\<And>i. preserves I (markSettled S i)"
  shows "preserves I (on_close S iid code st)"
  unfolding on_close_def by (intro steps setters pure assms)

lemma settler_keeps:
  assumes "\<And>st d. preserves I (on_stdout S iid d st)" "\<And>st code. preserves I (on_close S iid code st)"
  shows "preserves I (settler_loop fuel S iid st)"
  by (induction fuel arbitrary: st) (auto intro!: steps ext assms split: child_event.split)

lemma payout_keeps:
  assumes "wr_os W = S"
    and "\<And>i g. preserves I (markSettling S i g)" "\<And>i. preserves I (markSettled S i)"
    and "\<And>i g. preserves I (emit (Ev_go i g))" "\<And>i h. preserves I (emit (Ev_spawn i h))"
  shows "preserves I (runSolanaPayout W json dest h)"
  unfolding runSolanaPayout_def spawn_settler_def Let_def assms(1)
  by (intro steps readings pure settler_keeps stdout_keeps close_keeps assms)

end

section \<open>An invariant of the process\<close>

locale process_invariant = quiet_invariant "wr_os W" I for W :: "'e wiring" and I :: "'e world \<Rightarrow> bool" +
  assumes stages: "preserves I (setArbitrumStage (wr_os W) iid st p)"
    and marks: "preserves I (markSettled (wr_os W) iid)"
    and post: "d_solverAddress deps = a \<Longrightarrow> preserves I (signAndSend (wr_os W)
          (tx_for PostCollateral a manager iid None v) (record_posting (wr_os W) deps iid json))"
    and confirm: "preserves I (signAndSend (wr_os W)
          (tx_for ConfirmSettlement a manager iid (Some h) 0) (record_confirming (wr_os W) iid json))"
    and slash: "preserves I (signAndSend (wr_os W)
          (tx_for SlashSolver a manager iid None 0) (record_slashing (wr_os W) iid))"
    and payout: "preserves I (runSolanaPayout W json dest h)"
    and prover: "preserves I (emit (Ev_prover t))" "preserves I (emit (Ev_exit t c))"
    and book: "I (w\<lparr>w_book := b\<rparr>) = I w"
    and flags: "I (w\<lparr>w_flags := fs\<rparr>) = I w"
begin

abbreviation the_deps :: "(string \<Rightarrow> ('e world, payout_result) js) \<Rightarrow> string \<Rightarrow> string \<Rightarrow> 'e deps" where
  "the_deps p a o' \<equiv> settlement_deps (wr_os W) o' (wr_manager W) p (checkSolanaSignatureLanded (wr_os W)) a"

lemma book_mod: "preserves I (js_mod (\<lambda>w. w\<lparr>w_book := f w\<rparr>))"
  and flags_mod: "preserves I (js_mod (\<lambda>w. w\<lparr>w_flags := g w\<rparr>))"
  by (rule preservesI; simp add: wp_simps book flags)+

lemma landed: "preserves I (checkSolanaSignatureLanded (wr_os W) g)"
  unfolding checkSolanaSignatureLanded_def by (intro steps ext)

lemma the_deps_invariant: "deps_invariant (wr_os W) I (the_deps p a o')"
proof unfold_locales
  fix iid v json h sg
  show "preserves I (d_postCollateral (the_deps p a o') iid v (record_posting (wr_os W) (the_deps p a o') iid json))"
    by (simp add: settlement_deps_def post)
  show "preserves I (d_confirmSettlement (the_deps p a o') iid h (record_confirming (wr_os W) iid json))"
    by (simp add: settlement_deps_def confirm)
  show "preserves I (d_slashSolver (the_deps p a o') iid (record_slashing (wr_os W) iid))"
    by (simp add: settlement_deps_def slash)
  show "preserves I (d_checkSolanaSignatureLanded (the_deps p a o') sg)"
    by (simp add: settlement_deps_def landed)
qed (simp_all add: settlement_deps_def stages marks ext pure)

subsection \<open>Selection and dispatch\<close>

lemma attempt_keeps: "preserves I m \<Longrightarrow> preserves I (attempt m)"
  unfolding attempt_def by (intro steps)

lemma scan_keeps: "(\<And>i. preserves I (r i)) \<Longrightarrow> preserves I (scan_all r ex ids st)"
  by (induction ids arbitrary: st) (auto simp: scan_one_def intro!: steps split: option.split)

lemma save_cache: "preserves I (saveCache (wr_os W) c)"
  unfolding saveCache_def
  by (rule preservesI) (simp add: wp_simps env cache split: prod.split write_result.split)

lemma records_keep:
  "(\<And>i. preserves I (r i)) \<Longrightarrow>
   preserves I (bnd (listKnownIntentIds (wr_os W)) (readSolverRecord (wr_os W) r))"
  unfolding listKnownIntentIds_def listStateFileIntentIds_def listArbitrumLedgerIntentIds_def
    readSolverRecord_def loadExclusions_def
  by (intro steps ext scan_keeps save_cache)

lemma checks_keep:
  "preserves I (s_nowMs sd) \<Longrightarrow> preserves I (evaluate_candidate sd json t v rs fl oc stats c)"
  unfolding evaluate_candidate_def capital_check_def Let_def
  by (auto intro!: steps book_mod split: option.split)

lemma select_keeps:
  assumes "\<And>i. preserves I (d_readIntent reader i)"
  shows "preserves I (selectSolver (real_selection_deps (wr_os W) ev cfg onb reader) cs iid json t)"
  unfolding selectSolver_def decide_def read_candidate_def choose_winner_def Let_def
  by (auto simp: real_selection_deps_def isSolverApprovedOnChain_def split: list.split
      intro!: steps attempt_keeps ext assms records_keep checks_keep pure book_mod preserves_map)

lemma release_keeps: "preserves I (releaseReservation a iid n)"
  unfolding releaseReservation_def by (intro steps book_mod flags_mod)

lemma routed_invariant:
  assumes "preserves I (p_nowMs dd)"
  shows "deps_invariant (wr_os W) I (routed_deps dd (the_deps p a o') sel a' iid' n)"
proof -
  let ?base = "the_deps p a o'"
  let ?d = "routed_deps dd ?base sel a' iid' n"
  note base = the_deps_invariant [where p = p and a = a and o' = o']
  note land = deps_invariant.axioms(1) [OF base]
  note conf = landed_invariant.axioms(1) [OF land]
  have "preserves I (d_postCollateral ?d iid v (record_posting (wr_os W) ?d iid json))" for iid v json
    unfolding routed_deps_def deps.simps post_reserved_def hold_reservation_def
    by (auto simp: settlement_deps_def intro!: steps post release_keeps flags_mod book_mod assms)
  then show ?thesis
    by unfold_locales (simp_all add: routed_deps_def stages marks confirm_invariant.reads [OF conf]
        confirm_invariant.clock [OF conf] confirm_invariant.confirm [OF conf] deps_invariant.slash [OF base]
        deps_invariant.balance [OF base] landed_invariant.check [OF land])
qed

lemma refuse_keeps: "preserves I (refuseArbitrumSettlement (wr_os W) iid json r q)"
  by (rule confirm_invariant.refuse [OF landed_invariant.axioms(1) [OF deps_invariant.axioms(1) [OF the_deps_invariant]]])

lemma dispatch_keeps:
  assumes now: "preserves I (p_nowMs dd)" "preserves I (p_nowSec dd)"
    and sel: "\<And>t. preserves I (selectSolver (p_selection dd) (p_candidates dd) iid json t)"
    and built: "\<And>s d. p_buildSettlementDeps dd s = Inr d \<Longrightarrow>
      \<exists>p a o'. d = the_deps p a o' \<and> (\<forall>h. preserves I (p h))"
  shows "preserves I (dispatchArbitrumSettlement fuel (wr_os W) cfg dd iid json)"
proof -
  have lifted: "preserves I (bnd (js_lift (p_buildSettlementDeps dd s)) k)"
    if "\<And>p a o'. (\<And>h. preserves I (p h)) \<Longrightarrow> preserves I (k (the_deps p a o'))"
    for s and k :: "'e deps \<Rightarrow> ('e world, 'x) js"
  proof (cases "p_buildSettlementDeps dd s")
    case (Inl e)
    then show ?thesis by (simp add: js_lift_def preserves_def bnd_def js_throw_def)
  next
    case (Inr d)
    with built [OF Inr] that show ?thesis
      by (auto simp: js_lift_def preserves_def bnd_def js_ret_def)
  qed
  have run: "preserves I (run_selected fuel (wr_os W) cfg dd iid json s a)" for s a
    unfolding run_selected_def new_flag_def
    by (intro steps preserves_finally lifted flags_mod release_keeps
        deps_invariant.sequence [OF routed_invariant] now)
      (simp add: routed_deps_def settlement_deps_def)
  have route: "preserves I (route_and_run fuel (wr_os W) cfg dd iid json)"
    unfolding route_and_run_def
    by (intro steps now sel run refuse_keeps)
  have again: "preserves I (bnd (js_lift (p_buildSettlementDeps dd s))
      (\<lambda>d. sq (runArbitrumSettlementSequence fuel (wr_os W) cfg d iid json) (js_ret x)))" for s x
    by (intro lifted steps deps_invariant.sequence [OF the_deps_invariant])
      (simp add: settlement_deps_def)
  show ?thesis
    unfolding dispatchArbitrumSettlement_def
    by (rule preserves_bnd [OF readings(5)]) (auto intro!: route again split: option.split)
qed

lemma default_deps:
  assumes "build_or_default (wr_os W) acc (wr_manager W) p s = Inr d"
  shows "\<exists>a o'. d = the_deps p a o'"
  using assms unfolding build_or_default_def buildRealDeps_def
  by (auto split: option.splits)

subsection \<open>The handlers of the listener\<close>

lemma dispatch_proved_keeps: "preserves I (dispatch_proved W json dest)"
proof -
  let ?build = "build_or_default (wr_os W) (wr_accounts W) (wr_manager W) (runSolanaPayout W json dest)"
  have built: "\<exists>p a o'. d = the_deps p a o' \<and> (\<forall>h. preserves I (p h))" if "?build s = Inr d" for s d
    using default_deps [OF that] that payout
    by (auto simp: build_or_default_def buildRealDeps_def split: option.splits)
  have "preserves I (bnd (js_lift (buildRealRoutingDeps (wr_os W) (wr_env W) (wr_cfg W) (wr_accounts W) onb ?build))
      (\<lambda>dd. bnd (dispatchArbitrumSettlement (wr_fuel W) (wr_os W) (wr_cfg W) dd (pj_intent_id json) json)
        (\<lambda>_. js_ret ())))" (is "preserves I (bnd (js_lift ?r) ?k)") for onb
  proof (cases ?r)
    case (Inl e)
    then show ?thesis by (simp add: js_lift_def preserves_def bnd_def js_throw_def)
  next
    case (Inr dd)
    then obtain reader where reader: "?build (case configuredSolverAddresses (wr_accounts W) of [] \<Rightarrow> None | c # _ \<Rightarrow> Some c) = Inr reader"
      and dd: "p_selection dd = real_selection_deps (wr_os W) (wr_env W) (wr_cfg W) onb reader"
        "p_nowSec dd = now_sec (wr_os W)" "p_nowMs dd = now_ms (wr_os W)" "p_buildSettlementDeps dd = ?build"
      by (auto simp: buildRealRoutingDeps_def Let_def split: sum.splits)
    have "preserves I (d_readIntent reader i)" for i
      using built [OF reader] by (auto simp: settlement_deps_def ext)
    then have "preserves I (?k dd)"
      by (intro steps dispatch_keeps) (simp_all add: dd pure select_keeps, use built in blast)
    with Inr show ?thesis by (simp add: js_lift_def preserves_def bnd_def js_ret_def)
  qed
  then show ?thesis
    unfolding dispatch_proved_def by (rule preserves_bnd [OF preserves_get])
qed

lemma settle_proved_keeps: "preserves I (settle_proved W i json h)"
  unfolding settle_proved_def evaluateSettleGate_def Let_def
  by (intro steps mirrors readings pure dispatch_proved_keeps)

lemma prove_keeps: "preserves I (proveIntent (wr_os W) t i)"
proof -
  have "preserves I (prove_attempts n (wr_os W) k t i)" for n k
  proof (induction n arbitrary: k)
    case (Suc n)
    then show ?case
      by (auto simp: on_exit_code_def prover_alert_def split: prod.split option.split
          intro!: steps prover ext setters alert pure readings)
  qed auto
  then show ?thesis
    unfolding proveIntent_def by (intro steps setters)
qed

lemma job_keeps: "preserves I (zk_job W j)"
  unfolding zk_job_def Let_def
  by (cases j) (auto intro!: steps prove_keeps ext mirrors settle_proved_keeps
      split: prover_outcome.split sum.split)

lemma log_keeps: "preserves I (logIntentCreated W l label)"
  unfolding logIntentCreated_def Let_def by (intro steps setters)

lemma finality_keeps: "preserves I (finality_tick W)"
  unfolding finality_tick_def pollFinality_def listPendingFinality_def list_states_def mark_if_final_def
  by (auto intro!: steps ext setters preserves_for split: option.split)

lemma settling_keeps: "preserves I (settling_pass W)"
proof -
  have filter: "preserves I (js_filter f xs)" if "\<And>x. preserves I (f x)" for f :: "'x \<Rightarrow> ('e world, bool) js" and xs
    by (induction xs) (auto intro!: steps that)
  have "preserves I (reconcile_settling_one (wr_os W) (checkSolanaSignatureLanded (wr_os W)) x)" for x
    unfolding reconcile_settling_one_def
    by (cases x) (auto intro!: steps landed marks setters mirrors pure)
  then show ?thesis
    unfolding settling_pass_def reconcileSettlingLedger_def getSettlingEntries_def
    by (intro steps filter)
qed

lemma resume_build:
  "buildRunSolanaPayoutForResume W i json = Inr p \<Longrightarrow> preserves I (p h)"
  by (auto simp: buildRunSolanaPayoutForResume_def payout split: sum.splits)

lemma with_deps:
  assumes "\<And>p a o'. preserves I (k (the_deps p a o'))"
  shows "preserves I (bnd (js_lift (reconciliationDeps W)) k)"
proof (cases "reconciliationDeps W")
  case (Inl e)
  then show ?thesis by (simp add: js_lift_def preserves_def bnd_def js_throw_def)
next
  case (Inr d)
  then obtain p a o' where "d = the_deps p a o'"
    unfolding reconciliationDeps_def using default_deps by metis
  with Inr assms show ?thesis by (simp add: js_lift_def preserves_def bnd_def js_ret_def)
qed

lemma slash_keeps: "preserves I (slash_tick W)"
  unfolding slash_tick_def
  by (intro with_deps steps deps_invariant.poll [OF the_deps_invariant])

lemma settling_tick_keeps: "preserves I (settling_tick W)"
  unfolding settling_tick_def
  by (intro with_deps steps preserves_for settling_keeps deps_invariant.resume_intent [OF the_deps_invariant])
    (auto dest: resume_build)

lemma boot_keeps: "preserves I (main_boot W)"
proof -
  have "preserves I (checkSolverApprovals (wr_os W) cs)" for cs
    by (induction cs) (auto simp: isSolverApprovedOnChain_def intro!: steps ext)
  then show ?thesis
    unfolding main_boot_def Let_def
    by (intro with_deps steps settling_keeps ext deps_invariant.reconcile [OF the_deps_invariant])
      (auto dest: resume_build)
qed

end

end
