(* ===== verification/Orchestrator.thy ===== *)
theory Orchestrator
  imports Handlers
begin

text \<open>
  The orchestrator as a state machine over its handlers: a log arrives, the prover job that runs
  ends, a periodic job runs, the process dies and starts again from its files. A handler runs to
  its end in one step; when it ends in \<open>Stop\<close> (the process was killed inside it, or it waits for
  ever) its effects so far stay. The invariants below hold in every state that can be reached.
\<close>

section \<open>The machine\<close>

record 'e orch =
  o_up :: bool
  o_world :: "'e world"
  o_queue :: "(string \<times> string) prover_queue"

text \<open>What a new process finds: the two ledgers are loaded from their files, the rest is empty.\<close>

definition restart :: "'e world \<Rightarrow> 'e world" where
  "restart w = (arb_load w)\<lparr>w_settled := settled_load (Sf_object (w_settled_disk w)),
     w_alerted := [], w_book := [], w_flags := []\<rparr>"

definition queued :: "(string \<times> string) option outcome \<Rightarrow> (string \<times> string) prover_queue \<Rightarrow> (string \<times> string) prover_queue"
  where "queued r q = (case r of Ok (Some (t, i)) \<Rightarrow> triggerZKVerification t i q | _ \<Rightarrow> q)"

inductive orch_step :: "'e wiring \<Rightarrow> 'e orch \<Rightarrow> 'e orch \<Rightarrow> bool" for W where
  Start: "main_boot W (restart (o_world s)) = (r, w) \<Longrightarrow>
    orch_step W s \<lparr>o_up = (r = Ok ()), o_world = w, o_queue = pq_empty\<rparr>"
| Log: "o_up s \<Longrightarrow> logIntentCreated W l label (o_world s) = (r, w) \<Longrightarrow>
    orch_step W s (s\<lparr>o_world := w, o_queue := queued r (o_queue s)\<rparr>)"
| Job: "o_up s \<Longrightarrow> pq_running (o_queue s) = Some j \<Longrightarrow> zk_job W j (o_world s) = (r', w) \<Longrightarrow>
    orch_step W s (s\<lparr>o_world := w, o_queue := (if r' = Stop then o_queue s else job_finished (o_queue s))\<rparr>)"
| Finality: "o_up s \<Longrightarrow> finality_tick W (o_world s) = (r', w) \<Longrightarrow> orch_step W s (s\<lparr>o_world := w\<rparr>)"
| Slash: "o_up s \<Longrightarrow> slash_tick W (o_world s) = (r', w) \<Longrightarrow> orch_step W s (s\<lparr>o_world := w\<rparr>)"
| Settling: "o_up s \<Longrightarrow> settling_tick W (o_world s) = (r', w) \<Longrightarrow> orch_step W s (s\<lparr>o_world := w\<rparr>)"

text \<open>Before the first start that is looked at: any files as the program writes them, and no trace.\<close>

definition first_world :: "'e world \<Rightarrow> bool" where
  "first_world w \<longleftrightarrow> w_events w = [] \<and> w_arb w = w_arb_disk w \<and> w_settled w = w_settled_disk w \<and>
     lc_keys (w_arb_disk w) \<and> lc_keys (w_settled_disk w) \<and> state_inv w"

inductive orch_reach :: "'e wiring \<Rightarrow> 'e orch \<Rightarrow> bool" for W where
  reach_init: "first_world w \<Longrightarrow> orch_reach W \<lparr>o_up = False, o_world = w, o_queue = pq_empty\<rparr>"
| reach_step: "orch_reach W s \<Longrightarrow> orch_step W s s' \<Longrightarrow> orch_reach W s'"

inductive_cases orch_stepE: "orch_step W s s'"

lemma preserves_run: "preserves I m \<Longrightarrow> m w = (r, w') \<Longrightarrow> I w \<Longrightarrow> I w'"
  unfolding preserves_def by (metis snd_conv)

context process_invariant
begin

lemma step_keeps:
  assumes restart: "\<And>w. I w \<Longrightarrow> I (restart w)"
  shows "orch_step W s s' \<Longrightarrow> I (o_world s) \<Longrightarrow> I (o_world s')"
  by (erule orch_stepE)
    (auto dest: preserves_run [OF boot_keeps] preserves_run [OF log_keeps] preserves_run [OF job_keeps]
      preserves_run [OF finality_keeps] preserves_run [OF slash_keeps] preserves_run [OF settling_tick_keeps]
      restart)

lemma reach_keeps:
  assumes restart: "\<And>w. I w \<Longrightarrow> I (restart w)" and init: "\<And>w. first_world w \<Longrightarrow> I w"
  shows "orch_reach W s \<Longrightarrow> I (o_world s)"
  by (induction rule: orch_reach.induct) (auto simp: init intro: step_keeps [OF restart])

end

section \<open>Invariants that do not read the trace\<close>

context quiet_invariant
begin

lemma send_keeps:
  assumes "\<And>h. preserves I (onSigned h)" "\<And>h. preserves I (emit (Ev_send req h))"
  shows "preserves I (signAndSend S req onSigned)"
  unfolding signAndSend_def Let_def by (intro steps ext assms)

lemma simple_process:
  assumes W: "wr_os W = S"
    and stages: "\<And>iid st p. preserves I (setArbitrumStage S iid st p)"
    and marks: "\<And>iid. preserves I (markSettled S iid)" "\<And>iid g. preserves I (markSettling S iid g)"
    and emits: "\<And>v. preserves I (emit v)"
    and rest: "\<And>w b. I (w\<lparr>w_book := b\<rparr>) = I w" "\<And>w fs. I (w\<lparr>w_flags := fs\<rparr>) = I w"
  shows "process_invariant W I"
proof (intro process_invariant.intro process_invariant_axioms.intro)
  show "quiet_invariant (wr_os W) I"
    using quiet_invariant_axioms W by simp
  show "preserves I (signAndSend (wr_os W) r (record_posting (wr_os W) deps iid json))"
    "preserves I (signAndSend (wr_os W) r (record_confirming (wr_os W) iid json))"
    "preserves I (signAndSend (wr_os W) r (record_slashing (wr_os W) iid))" for r deps iid json
    unfolding record_posting_def record_confirming_def record_slashing_def W
    by (intro send_keeps steps stages mirrors emits)+
  show "preserves I (runSolanaPayout W json dest h)" for json dest h
    by (rule payout_keeps [OF W]) (rule marks emits)+
qed (simp_all add: W assms)

end

subsection \<open>The display records\<close>

lemma state_inv_core:
  "state_inv (w\<lparr>w_events := v\<rparr>) = state_inv w" "state_inv (w\<lparr>w_book := b\<rparr>) = state_inv w"
  "state_inv (w\<lparr>w_flags := f\<rparr>) = state_inv w" "state_inv (w\<lparr>w_alerted := l\<rparr>) = state_inv w"
  "state_inv (w\<lparr>w_cache := c\<rparr>) = state_inv w" "state_inv (w\<lparr>w_arb := a\<rparr>) = state_inv w"
  "state_inv (w\<lparr>w_arb_disk := a'\<rparr>) = state_inv w" "state_inv (w\<lparr>w_settled := g\<rparr>) = state_inv w"
  "state_inv (w\<lparr>w_settled_disk := g'\<rparr>) = state_inv w"
  by (simp_all add: state_inv_def states_wf_def states_clean_def)

lemma state_inv_stages: "preserves state_inv (setArbitrumStage S iid st p)"
  unfolding setArbitrumStage_def arb_persist_def
  by (rule preservesI) (auto simp: wp_simps state_inv_core split: prod.split write_result.split)

lemma state_inv_marks: "preserves state_inv (markSettled S iid)" "preserves state_inv (markSettling S iid g)"
proof -
  have save: "preserves state_inv (save_file S tgt (\<lambda>w. w\<lparr>w_settled_disk := w_settled w\<rparr>) (\<lambda>w. w\<lparr>w_settled_disk := []\<rparr>))"
    for S :: "'a os" and tgt
    by (rule preservesI) (auto simp: wp_simps state_inv_core split: prod.split write_result.split)
  have put: "preserves state_inv (js_mod (\<lambda>w. w\<lparr>w_settled := f w\<rparr>))" "preserves state_inv (emit v)"
    "preserves state_inv (now_ms S)" for f v and S :: "'a os"
    by (rule preservesI; simp add: wp_simps state_inv_core)+
  show "preserves state_inv (markSettled S iid)" "preserves state_inv (markSettling S iid g)"
    unfolding markSettled_def markSettling_def put_settled_def persistLedger_def getLedgerEntry_def
    by (intro preserves_bnd preserves_sq preserves_catch preserves_if preserves_get preserves_ret
        save put alert_inv)+
qed

interpretation clean: process_invariant W state_inv for W :: "'e wiring"
proof (rule quiet_invariant.simple_process [where S = "wr_os W"])
  show "quiet_invariant (wr_os W) state_inv"
    by unfold_locales (simp_all add: state_inv_core upsert_inv)
  show "preserves state_inv (emit v)" for v :: event
    by (rule preservesI) (simp add: wp_simps state_inv_core)
qed (simp_all add: state_inv_core state_inv_stages state_inv_marks)

subsection \<open>The ledgers' keys\<close>

definition ledgers_wf :: "'e world \<Rightarrow> bool" where
  "ledgers_wf w \<longleftrightarrow> arb_wf w \<and> lc_keys (w_settled w) \<and> lc_keys (w_settled_disk w) \<and>
     (\<forall>k. jget (w_settled w) k = None \<longrightarrow> jget (w_settled_disk w) k = None)"

lemma ledgers_wf_core: "core w = core w' \<Longrightarrow> ledgers_wf w = ledgers_wf w'"
  by (simp add: ledgers_wf_def arb_wf_def core_eq)

lemma preserves_conj: "preserves I m \<Longrightarrow> preserves J m \<Longrightarrow> preserves (\<lambda>w. I w \<and> J w) m"
  by (simp add: preserves_def)

lemma ledgers_wf_stages: "preserves ledgers_wf (setArbitrumStage S iid st p)"
  unfolding ledgers_wf_def
  by (rule preserves_conj [OF setArbitrumStage_wf], rule preservesI, rule wp_setArbitrumStage)
    (auto simp: arb_stored_frame arb_unstored_frame)

lemma ledgers_wf_marks:
  "preserves ledgers_wf (markSettled S iid)" "preserves ledgers_wf (markSettling S iid g)"
  unfolding markSettled_def markSettling_def
  by (rule preservesI; auto simp: wp_simps ledgers_wf_def arb_wf_def settled_put_def intro!: wp_put_settled)+

interpretation wf: process_invariant W ledgers_wf for W :: "'e wiring"
proof (rule quiet_invariant.simple_process [where S = "wr_os W"])
  show "quiet_invariant (wr_os W) ledgers_wf"
    by (rule core_only_quiet) (rule ledgers_wf_core)
  show "preserves ledgers_wf (emit v)" for v :: event
    by (rule preservesI) (simp add: wp_simps ledgers_wf_def arb_wf_def)
qed (simp_all add: ledgers_wf_stages ledgers_wf_marks ledgers_wf_def arb_wf_def)

lemma settled_restart: "lc_keys m \<Longrightarrow> settled_load (Sf_object m) = m"
proof -
  have "lc_keys (xs @ ys) \<Longrightarrow> fold (\<lambda>(i, e). jput (toLowerCase i) e) ys xs = xs @ ys" for xs ys :: "(string, ledger_entry) jmap"
  proof (induction ys arbitrary: xs)
    case (Cons y ys)
    obtain k e where y: "y = (k, e)" by fastforce
    with Cons.prems have "toLowerCase k = k" "k \<notin> set (jkeys xs)"
      by (auto simp: lc_keys_def)
    then have "jput (toLowerCase k) e xs = xs @ [y]"
      by (induction xs) (auto simp: y)
    with Cons.IH [of "xs @ [y]"] Cons.prems show ?case by (simp add: y)
  qed simp
  from this [of "[]" m] show "lc_keys m \<Longrightarrow> settled_load (Sf_object m) = m" by simp
qed

lemma ledgers_wf_restart: "ledgers_wf w \<Longrightarrow> ledgers_wf (restart w)"
  by (simp add: ledgers_wf_def restart_def arb_load_def arb_wf_def settled_restart del: settled_load.simps)

section \<open>The write-ahead discipline of the process\<close>

lemma wal_runs: "preserves wal (emit (Ev_prover t))" "preserves wal (emit (Ev_exit t c))"
  "preserves wal (emit (Ev_go i g))" "preserves wal (emit (Ev_spawn i h))"
  by (rule preservesI; simp add: wp_simps wal_def write_ahead_quiet)+

interpretation wal: process_invariant W wal for W :: "'e wiring"
proof (intro process_invariant.intro process_invariant_axioms.intro)
  show quiet: "quiet_invariant (wr_os W) wal"
    by (rule core_only_quiet) (rule wal_core)
  show "preserves wal (runSolanaPayout W json dest h)" for json dest h
    by (rule quiet_invariant.payout_keeps [OF quiet refl]) (rule wal_marks wal_runs)+
  show "preserves wal (signAndSend (wr_os W) (tx_for ConfirmSettlement a m iid (Some h) 0)
      (record_confirming (wr_os W) iid json))" for a m iid h json
    by (rule signAndSend_wal, rule record_confirming_announces) (simp_all add: tx_for_def)
  show "preserves wal (signAndSend (wr_os W) (tx_for SlashSolver a m iid None 0)
      (record_slashing (wr_os W) iid))" for a m iid
    by (rule signAndSend_wal, rule record_slashing_announces) (simp_all add: tx_for_def)
  show "preserves wal (signAndSend (wr_os W) (tx_for PostCollateral a m iid None v)
      (record_posting (wr_os W) deps iid json))" if "d_solverAddress deps = a" for deps a m iid v json
    by (rule signAndSend_wal, rule record_posting_announces) (simp_all add: tx_for_def that)
qed (auto simp: wal_stage wal_marks wal_runs wal_def)

end
