(* ===== verification/Payout_Once.thy ===== *)
theory Payout_Once
  imports Orchestrator
begin

text \<open>
  The Solana leg: the settlement script is told to broadcast a payout at most once per intent, and
  only after the settled ledger on disk names the signature. Both rest on the ledger's writes
  (\<open>settled_durable\<close>).
\<close>

section \<open>The discipline\<close>

definition is_go :: "string \<Rightarrow> event \<Rightarrow> bool" where
  "is_go k v = (case v of Ev_go k' g \<Rightarrow> k' = k | _ \<Rightarrow> False)"

definition go_count :: "string \<Rightarrow> event list \<Rightarrow> nat" where
  "go_count k vs = length (filter (is_go k) vs)"

lemma go_count_snoc: "go_count k (vs @ [v]) = go_count k vs + (if is_go k v then 1 else 0)"
  by (simp add: go_count_def)

text \<open>Every order to broadcast comes directly after a completed write that names its signature.\<close>

definition recorded :: "event option \<Rightarrow> string \<Rightarrow> string \<Rightarrow> bool" where
  "recorded prev k g = (case prev of
       Some (Ev_settled k' en) \<Rightarrow> k' = k \<and> le_status en = L_settling \<and> le_solanaSig en = Some g
     | _ \<Rightarrow> False)"

fun go_recorded_from :: "event option \<Rightarrow> event list \<Rightarrow> bool" where
  "go_recorded_from prev [] = True"
| "go_recorded_from prev (Ev_go k g # vs) = (recorded prev k g \<and> go_recorded_from (Some (Ev_go k g)) vs)"
| "go_recorded_from prev (v # vs) = go_recorded_from (Some v) vs"

definition go_recorded :: "event list \<Rightarrow> bool" where
  "go_recorded vs = go_recorded_from None vs"

lemma go_recorded_from_append:
  "go_recorded_from p (xs @ ys) \<longleftrightarrow>
   go_recorded_from p xs \<and> go_recorded_from (if xs = [] then p else Some (last xs)) ys"
proof (induction xs arbitrary: p)
  case (Cons v vs)
  then show ?case by (cases v) auto
qed simp

lemma go_recorded_quiet: "(\<And>k g. v \<noteq> Ev_go k g) \<Longrightarrow> go_recorded (vs @ [v]) = go_recorded vs"
  by (cases v) (auto simp: go_recorded_def go_recorded_from_append)

lemma go_recorded_pair:
  "go_recorded (vs @ [Ev_settled k en, Ev_go k' g]) \<longleftrightarrow>
   go_recorded vs \<and> recorded (Some (Ev_settled k en)) k' g"
  by (simp add: go_recorded_def go_recorded_from_append)

lemma go_recorded_nth:
  "go_recorded_from p vs \<Longrightarrow> i < length vs \<Longrightarrow> vs ! i = Ev_go k g \<Longrightarrow>
   recorded (if i = 0 then p else Some (vs ! (i - 1))) k g"
proof -
  assume "go_recorded_from p vs" and i: "i < length vs" "vs ! i = Ev_go k g"
  then have "go_recorded_from p (take i vs @ Ev_go k g # drop (Suc i) vs)"
    using id_take_nth_drop [OF i(1)] by simp
  moreover have "take i vs \<noteq> [] \<Longrightarrow> last (take i vs) = vs ! (i - 1)"
    using i(1) by (simp add: last_conv_nth)
  ultimately show ?thesis
    using i by (auto simp: go_recorded_from_append split: if_splits)
qed

text \<open>
  The invariant: memory and file agree, and only intents with an entry have been paid, once.
\<close>

definition allowed :: "(string, ledger_entry) jmap \<Rightarrow> string \<Rightarrow> nat" where
  "allowed m k = (if jget m k = None then 0 else 1)"

lemma allowed_simps [simp]: "allowed (jput k e m) k' = (if k' = k then 1 else allowed m k')" "allowed m k \<le> 1"
  by (simp_all add: allowed_def)

definition paid_once :: "'e world \<Rightarrow> bool" where
  "paid_once w \<longleftrightarrow> w_settled_disk w = w_settled w \<and> lc_keys (w_settled w) \<and> go_recorded (w_events w) \<and>
     (\<forall>k. go_count k (w_events w) \<le> allowed (w_settled w) k)"

lemma paid_once_core: "core w = core w' \<Longrightarrow> paid_once w = paid_once w'"
  by (simp add: paid_once_def core_eq)

lemma paid_once_quiet:
  assumes "\<And>k g. v \<noteq> Ev_go k g"
  shows "paid_once (w\<lparr>w_events := w_events w @ [v]\<rparr>) = paid_once w"
proof -
  have "\<not> is_go k v" for k
    using assms by (auto simp: is_go_def split: event.splits)
  then show ?thesis
    by (simp add: paid_once_def go_recorded_quiet [OF assms] go_count_snoc)
qed

text \<open>Writes of the settled ledger neither fail nor are cut off.\<close>

definition settled_durable :: "'e os \<Rightarrow> bool" where
  "settled_durable S \<longleftrightarrow> (\<forall>e. fst (os_write S Settled_ledger_file e) = Wr_ok)"

section \<open>Each operation keeps it\<close>

text \<open>An update of the ledger whose write succeeds.\<close>

definition put_durably :: "string \<Rightarrow> ledger_entry \<Rightarrow> 'e world \<Rightarrow> 'e world \<Rightarrow> bool" where
  "put_durably k en w w' \<longleftrightarrow> core w' = (core w)\<lparr>c_settled := jput k en (w_settled w),
     c_settled_disk := jput k en (w_settled w), c_events := w_events w @ [Ev_settled k en]\<rparr>"

lemma wp_put_durably:
  assumes "settled_durable S" "\<And>w'. put_durably (toLowerCase i) en w w' \<Longrightarrow> Q (Ok ()) w'"
  shows "wp (put_settled S i en) Q w"
proof -
  obtain e where "os_write S Settled_ledger_file (w_env w) = (Wr_ok, e)"
    using assms(1) unfolding settled_durable_def by (metis prod.collapse)
  then show ?thesis
    by (auto simp: put_settled_def persistLedger_def wp_simps put_durably_def core_def intro!: assms(2))
qed

lemma put_durably_keeps:
  assumes "paid_once w" "put_durably (toLowerCase i) en w w'"
  shows "paid_once w'"
proof -
  have c: "go_count k (w_events w) \<le> allowed (w_settled w) k" for k
    using assms(1) by (simp add: paid_once_def)
  moreover have "go_count k (w_events w) \<le> 1" for k
    using c [of k] allowed_simps(2) [of "w_settled w" k] by linarith
  ultimately show ?thesis
    using assms by (simp add: paid_once_def put_durably_def core_def go_count_snoc is_go_def go_recorded_quiet)
qed

lemma put_keeps: "settled_durable S \<Longrightarrow> paid_once w \<Longrightarrow> wp (put_settled S i en) (\<lambda>_. paid_once) w"
  by (erule wp_put_durably) (erule put_durably_keeps)

lemma paid_once_marks:
  "settled_durable S \<Longrightarrow> preserves paid_once (markSettled S iid)"
  "settled_durable S \<Longrightarrow> preserves paid_once (markSettling S iid g)"
  unfolding markSettled_def markSettling_def by (rule preservesI; simp add: wp_simps put_keeps)+

text \<open>
  While the script runs: as long as no signature has been handled, the intent has no entry; so the
  one order to broadcast is the first.
\<close>

definition unsigned :: "string \<Rightarrow> settler \<Rightarrow> 'e world \<Rightarrow> bool" where
  "unsigned iid st w \<longleftrightarrow> (st_sig st = None \<longrightarrow> settled_get w iid = None)"

lemma go_once:
  assumes paid: "paid_once w" and none: "settled_get w iid = None"
    and put: "put_durably (toLowerCase iid) en w w'" "le_status en = L_settling" "le_solanaSig en = Some g"
    and same: "core w'' = core w'"
  shows "paid_once (w''\<lparr>w_events := w_events w'' @ [Ev_go (toLowerCase iid) g]\<rparr>)"
proof -
  have c: "go_count k (w_events w) \<le> allowed (w_settled w) k" for k
    using paid by (simp add: paid_once_def)
  moreover have "go_count (toLowerCase iid) (w_events w) = 0"
    using c [of "toLowerCase iid"] none by (simp add: allowed_def settled_get_def)
  ultimately show ?thesis
    using paid put same
    by (simp add: paid_once_def put_durably_def core_def go_count_def is_go_def go_recorded_pair recorded_def)
qed

lemma stdout_paid_once:
  assumes S: "settled_durable S" and w: "paid_once w" "unsigned iid st w"
  shows "wp (on_stdout S iid d st) (\<lambda>r w'. paid_once w' \<and> (\<forall>st'. r = Ok st' \<longrightarrow> unsigned iid st' w')) w"
proof -
  have signs: "wp (js_catch (sq (markSettling S iid g) (sq (setSettling S iid g)
        (sq (ext_do (os_childStdin S ''GO\<newline>'')) (emit (Ev_go (toLowerCase iid) g))))) (\<lambda>_. js_ret ()))
      (\<lambda>_. paid_once) w" if "settled_get w iid = None" for g
  proof -
    have rest: "wp (sq (setSettling S iid g) (sq (ext_do (os_childStdin S ''GO\<newline>''))
        (emit (Ev_go (toLowerCase iid) g)))) (\<lambda>_. paid_once) w'"
      if "put_durably (toLowerCase iid) \<lparr>le_status = L_settling, le_solanaSig = Some g,
        le_updatedAt = os_now S (w_env w)\<rparr> w w'" for w'
      using put_durably_keeps [OF w(1) that] paid_once_core [of _ w']
      by (intro wp_sq_display)
        (auto simp: wp_simps core_env intro!: go_once [OF w(1) \<open>settled_get w iid = None\<close> that])
    have "wp (markSettling S iid g) (\<lambda>r w'. r = Ok () \<and> put_durably (toLowerCase iid)
        \<lparr>le_status = L_settling, le_solanaSig = Some g, le_updatedAt = os_now S (w_env w)\<rparr> w w') w"
      unfolding markSettling_def wp_bnd wp_now on_ok_simps by (rule wp_put_durably [OF S]) simp
    then have "wp (sq (markSettling S iid g) (sq (setSettling S iid g)
        (sq (ext_do (os_childStdin S ''GO\<newline>'')) (emit (Ev_go (toLowerCase iid) g))))) (\<lambda>_. paid_once) w"
      by (rule wp_sqI) (auto intro: rest)
    then show ?thesis
      by (rule wp_catchI) (simp_all add: wp_simps)
  qed
  show ?thesis
  proof (cases "st_sig st")
    case (Some g)
    then show ?thesis using w by (simp add: on_stdout_def wp_simps unsigned_def)
  next
    case None
    then have none: "settled_get w iid = None" using w(2) by (simp add: unsigned_def)
    from signs [OF none] none None w(1) show ?thesis
      by (auto simp: on_stdout_def Let_def unsigned_def wp_ret intro!: wp_sqI split: option.split)
  qed
qed

lemma settler_paid_once:
  assumes S: "settled_durable S"
  shows "paid_once w \<Longrightarrow> unsigned iid st w \<Longrightarrow> wp (settler_loop fuel S iid st) (\<lambda>_. paid_once) w"
proof (induction fuel arbitrary: st w)
  case 0
  then show ?case by (simp add: wp_simps)
next
  case (Suc fuel)
  have quiet: "quiet_invariant S paid_once"
    by (rule core_only_quiet) (rule paid_once_core)
  have close: "preserves paid_once (on_close S iid code st)" for code
    by (rule quiet_invariant.close_keeps [OF quiet]) (rule paid_once_marks [OF S])
  have after: "paid_once (w\<lparr>w_env := e\<rparr>)" "unsigned iid st (w\<lparr>w_env := e\<rparr>)" for e
    using Suc.prems by (simp_all add: paid_once_def unsigned_def settled_get_def)
  then have err: "unsigned iid (st\<lparr>st_err := x\<rparr>) (w\<lparr>w_env := e\<rparr>)" for e x
    by (simp add: unsigned_def)
  have out: "wp (bnd (on_stdout S iid d st) (settler_loop fuel S iid)) (\<lambda>_. paid_once) (w\<lparr>w_env := e\<rparr>)" for d e
    by (rule wp_bndI [OF stdout_paid_once [OF S after]]) (auto intro: Suc.IH)
  show ?case
    by (auto simp: wp_simps after on_ok_def intro!: out [unfolded wp_bnd] Suc.IH err preservesD [OF close]
        split: prod.split outcome.split child_event.split)
qed

lemma payout_paid_once:
  assumes "settled_durable (wr_os W)"
  shows "preserves paid_once (runSolanaPayout W json dest h)"
proof (rule preservesI)
  fix w :: "'a world" assume w: "paid_once w"
  let ?S = "wr_os W" and ?i = "pj_intent_id json"
  have "wp (settler_loop (wr_fuel W) ?S ?i \<lparr>st_out = [], st_err = [], st_sig = None\<rparr>) (\<lambda>_. paid_once)
      (w\<lparr>w_events := w_events w @ [Ev_spawn (toLowerCase ?i) h], w_env := e\<rparr>)"
    if "\<not> is_settled w ?i" "\<not> is_settling w ?i" for e
  proof (rule settler_paid_once [OF assms])
    have "settled_get w ?i = None"
      using that by (auto simp: is_settled_def is_settling_def split: option.splits intro: ledger_status.exhaust)
    then show "unsigned ?i \<lparr>st_out = [], st_err = [], st_sig = None\<rparr>
        (w\<lparr>w_events := w_events w @ [Ev_spawn (toLowerCase ?i) h], w_env := e\<rparr>)"
      by (simp add: unsigned_def settled_get_def)
    have "paid_once (w\<lparr>w_events := w_events w @ [Ev_spawn (toLowerCase ?i) h]\<rparr>)"
      using w by (simp add: paid_once_quiet)
    then show "paid_once (w\<lparr>w_events := w_events w @ [Ev_spawn (toLowerCase ?i) h], w_env := e\<rparr>)"
      by (simp add: paid_once_def)
  qed
  then show "wp (runSolanaPayout W json dest h) (\<lambda>_. paid_once) w"
    by (simp add: runSolanaPayout_def spawn_settler_def Let_def wp_simps w)
qed

section \<open>The process keeps it\<close>

lemma paid_once_emits: "preserves paid_once (emit (Ev_prover t))" "preserves paid_once (emit (Ev_exit t c))"
  "preserves paid_once (emit (Ev_send r h))"
  by (rule preservesI; simp add: wp_simps paid_once_quiet)+

lemma paid_once_arb:
  "paid_once (w\<lparr>w_arb := a\<rparr>) = paid_once w" "paid_once (w\<lparr>w_arb_disk := d\<rparr>) = paid_once w"
  "paid_once (w\<lparr>w_book := b\<rparr>) = paid_once w" "paid_once (w\<lparr>w_flags := f\<rparr>) = paid_once w"
  "paid_once (w\<lparr>w_env := e\<rparr>) = paid_once w"
  by (simp_all add: paid_once_def)

lemma paid_once_stages: "preserves paid_once (setArbitrumStage S iid st p)"
  by (rule preservesI, rule wp_setArbitrumStage)
    (auto simp: paid_once_def arb_stored_frame arb_unstored_frame go_count_snoc is_go_def go_recorded_quiet)

lemma paid_once_process:
  assumes "settled_durable (wr_os W)"
  shows "process_invariant W paid_once"
proof (intro process_invariant.intro process_invariant_axioms.intro)
  show quiet: "quiet_invariant (wr_os W) paid_once"
    by (rule core_only_quiet) (rule paid_once_core)
  note send = quiet_invariant.send_keeps [OF quiet]
  show "preserves paid_once (signAndSend (wr_os W) r (record_posting (wr_os W) deps iid json))"
    "preserves paid_once (signAndSend (wr_os W) r (record_confirming (wr_os W) iid json))"
    "preserves paid_once (signAndSend (wr_os W) r (record_slashing (wr_os W) iid))" for r deps iid json
    unfolding record_posting_def record_confirming_def record_slashing_def
    by (intro send preserves_sq paid_once_stages quiet_invariant.mirrors [OF quiet] paid_once_emits)+
qed (simp_all add: paid_once_stages paid_once_marks payout_paid_once paid_once_emits paid_once_arb assms)

lemma paid_once_restart: "paid_once w \<Longrightarrow> paid_once (restart w)"
  by (simp add: paid_once_def restart_def arb_load_def settled_restart del: settled_load.simps)

lemma reach_paid_once:
  assumes "settled_durable (wr_os W)" "orch_reach W s"
  shows "paid_once (o_world s)"
  by (rule process_invariant.reach_keeps [OF paid_once_process [OF assms(1)] paid_once_restart _ assms(2)])
    (simp_all add: paid_once_def first_world_def go_recorded_def go_count_def)

end
