(* ===== verification/Sample_Run.thy ===== *)
theory Sample_Run
  imports Payout_Once
begin

text \<open>
  One intent from its log to the confirmation, on a scripted outside world: a first start, the log,
  the prover job. The witnesses of the properties of the whole process are taken from this run.
\<close>

text \<open>As in the prelude, the evaluation rules wait for the world.\<close>

declare on_stdout_def [code del]
  on_close_def [code del]
  spawn_settler_def [code del]
  runSolanaPayout_def [code del]
  dispatch_proved_def [code del]
  settle_proved_def [code del]
  resumeFromCollateralPosted_def [code del]
  post_and_resume_def [code del]
  start_sequence_def [code del]
  runArbitrumSettlementSequence_def [code del]
  signAndSend_def [code del]
  dispatchArbitrumSettlement_def [code del]
  route_and_run_def [code del]
  run_selected_def [code del]
  selectSolver_def [code del]
  decide_def [code del]
  choose_winner_def [code del]
  post_reserved_def [code del]
  hold_reservation_def [code del]
  releaseReservation_def [code del]
  refuseArbitrumSettlement_def [code del]
  record_posting_def [code del]
  record_confirming_def [code del]
  confirmSettlementWithRetry_def [code del]
  readIntentAfterPostCollateral_def [code del]
  alert_and_record_def [code del]
  mirrorRouting_def [code del]
  mirrorDisplay_def [code del]
  setArbitrumStage_def [code del]
  markSettled_def [code del]
  markSettling_def [code del]
  proveIntent_def [code del]
  on_exit_code_def [code del]
  settler_loop.simps [code del]
  confirm_attempts.simps [code del]
  payout_attempts.simps [code del]
  reread_while_stale.simps [code del]
  prove_attempts.simps [code del]
  scan_all.simps [code del]
  checkSolverApprovals.simps [code del]

declare on_stdout_def [THEN fun_cong, code]
  on_close_def [THEN fun_cong, code]
  spawn_settler_def [THEN fun_cong, code]
  runSolanaPayout_def [THEN fun_cong, code]
  dispatch_proved_def [THEN fun_cong, code]
  settle_proved_def [THEN fun_cong, code]
  resumeFromCollateralPosted_def [THEN fun_cong, code]
  post_and_resume_def [THEN fun_cong, code]
  start_sequence_def [THEN fun_cong, code]
  runArbitrumSettlementSequence_def [THEN fun_cong, code]
  signAndSend_def [THEN fun_cong, code]
  dispatchArbitrumSettlement_def [THEN fun_cong, code]
  route_and_run_def [THEN fun_cong, code]
  run_selected_def [THEN fun_cong, code]
  selectSolver_def [THEN fun_cong, code]
  decide_def [THEN fun_cong, code]
  choose_winner_def [THEN fun_cong, code]
  post_reserved_def [THEN fun_cong, code]
  hold_reservation_def [THEN fun_cong, code]
  releaseReservation_def [THEN fun_cong, code]
  refuseArbitrumSettlement_def [THEN fun_cong, code]
  record_posting_def [THEN fun_cong, code]
  record_confirming_def [THEN fun_cong, code]
  confirmSettlementWithRetry_def [THEN fun_cong, code]
  readIntentAfterPostCollateral_def [THEN fun_cong, code]
  alert_and_record_def [THEN fun_cong, code]
  mirrorRouting_def [THEN fun_cong, code]
  mirrorDisplay_def [THEN fun_cong, code]
  setArbitrumStage_def [THEN fun_cong, code]
  markSettled_def [THEN fun_cong, code]
  markSettling_def [THEN fun_cong, code]
  proveIntent_def [THEN fun_cong, code]
  on_exit_code_def [THEN fun_cong, code]
  settler_loop.simps [THEN fun_cong, code]
  confirm_attempts.simps [THEN fun_cong, code]
  payout_attempts.simps [THEN fun_cong, code]
  reread_while_stale.simps [THEN fun_cong, code]
  prove_attempts.simps [THEN fun_cong, code]
  scan_all.simps [THEN fun_cong, code]
  checkSolverApprovals.simps [THEN fun_cong, code]

definition sample_os :: "script os" where
  "sample_os = script_os\<lparr>os_write := \<lambda>_ e. (Wr_ok, e), os_sign := \<lambda>r e. (Ok ''x'', e), os_keccak := \<lambda>s. s\<rparr>"

definition taken_now :: on_chain_intent where
  "taken_now = \<lparr>oi_owner = ''u'', oi_amount = 8, oi_tokenAddress = ''t'', oi_status = 0,
     oi_solver = ''a'', oi_collateralPosted = 12\<rparr>"

definition run_json :: proof_json where
  "run_json = \<lparr>pj_tx_hash = ''t'', pj_mode = ''prove'', pj_vkey = ''v'', pj_block_hash = ''b'',
     pj_block_number = 7, pj_block_timestamp = 100, pj_contract = ''m'', pj_intent_id = ''0x1'',
     pj_sender = ''s'', pj_amount = ''8'', pj_token_address = ''t'',
     pj_destination_wallet = ''0xab'', pj_destination_chain_id = 7, pj_expiry = 1020,
     pj_slippage_bps = 0\<rparr>"

definition run_script :: script where
  "run_script = blank_script
     \<lparr>sc_intents := [Ok taken_now, Ok taken_now], sc_files := Pf_json run_json, sc_bin := Inr ''b'',
      sc_children := [Ok (C_stdout ''SETTLING_SIG:g ''), Ok (C_close (Some 0))]\<rparr>"

definition run_wiring :: "script wiring" where
  "run_wiring = \<lparr>wr_os = sample_os, wr_env = [], wr_cfg = routing_cfg,
     wr_accounts = \<lparr>ac_orchestrator = ''o'', ac_solvers = [\<lparr>sa_envVarName = ''k'', sa_address = ''a''\<rparr>]\<rparr>,
     wr_manager = ''m'', wr_toBase58 = \<lambda>_. Inr ''w'', wr_sha256 = \<lambda>_. [], wr_fuel = 2\<rparr>"

text \<open>The file of a process that died after its collateral was confirmed.\<close>

definition posted_entry :: arb_entry where
  "posted_entry = merge_entry None Collateral_posted
     (no_patch\<lparr>ap_collateralTxHash := Val ''h'', ap_solver := Val ''a''\<rparr>) 5"

definition crashed_world :: "script world" where
  "crashed_world = (fresh_world run_script)\<lparr>w_arb := [(''1'', posted_entry)], w_arb_disk := [(''1'', posted_entry)]\<rparr>"

definition resumed_world :: "script world" where
  "resumed_world = snd (main_boot run_wiring (restart crashed_world))"

fun event_kind :: "event \<Rightarrow> char" where
  "event_kind (Ev_arb k e) = CHR ''A''"
| "event_kind (Ev_settled k e) = CHR ''L''"
| "event_kind (Ev_send r h) = CHR ''T''"
| "event_kind (Ev_spawn k h) = CHR ''S''"
| "event_kind (Ev_go k g) = CHR ''G''"
| "event_kind (Ev_prover t) = CHR ''P''"
| "event_kind (Ev_exit t c) = CHR ''X''"

text \<open>
  The payout is spawned, signed and sent, the ledger says so before and after, and the confirmation is
  recorded, broadcast and recorded again.
\<close>

lemma resumed_run:
  "fst (main_boot run_wiring (restart crashed_world)) = Ok () \<and>
   map event_kind (w_events resumed_world) = ''SLGLATA'' \<and> is_go ''0x1'' (w_events resumed_world ! 2) \<and>
   map fst (w_states resumed_world) = [''1'']"
proof -
  have "(case main_boot run_wiring (restart crashed_world) of
       (Ok x, w) \<Rightarrow> map event_kind (w_events w) = ''SLGLATA'' \<and> is_go ''0x1'' (w_events w ! 2) \<and>
         map fst (w_states w) = [''1'']
     | _ \<Rightarrow> False)"
    by code_simp
  then show ?thesis
    by (auto simp: resumed_world_def split: prod.splits outcome.splits)
qed

lemma resumed_kinds: "map event_kind (w_events resumed_world) = ''SLGLATA''"
  using resumed_run by blast

lemma resumed_length: "length (w_events resumed_world) = 7"
  using arg_cong [OF resumed_kinds, of length] by simp

lemma resumed_send:
  obtains req h where "w_events resumed_world ! 5 = Ev_send req h"
proof -
  have "map event_kind (w_events resumed_world) ! 5 = CHR ''T''"
    unfolding resumed_kinds by simp
  then have "event_kind (w_events resumed_world ! 5) = CHR ''T''"
    by (simp add: resumed_length)
  then show thesis
    using that by (cases "w_events resumed_world ! 5") simp_all
qed

lemma resumed_go:
  obtains g where "w_events resumed_world ! 2 = Ev_go ''0x1'' g"
  using resumed_run by (auto simp: is_go_def split: event.splits)

lemma resumed_start: "main_boot run_wiring (restart crashed_world) = (Ok (), resumed_world)"
  using resumed_run by (simp add: resumed_world_def prod_eq_iff)

lemma first_crashed: "first_world crashed_world"
proof -
  have "toLowerCase ''1'' = ''1''" by code_simp
  then show ?thesis
    by (simp add: first_world_def crashed_world_def fresh_world_def lc_keys_def state_inv_def
      states_wf_def states_clean_def)
qed

lemma resumed_reach:
  "orch_reach run_wiring \<lparr>o_up = True, o_world = resumed_world, o_queue = pq_empty\<rparr>"
  using reach_step [OF reach_init [OF first_crashed] Start] resumed_start by fastforce

lemma run_durable: "settled_durable (wr_os run_wiring)"
  by (simp add: settled_durable_def run_wiring_def sample_os_def)

end
