(* ===== verification/Process_Properties.thy ===== *)
theory Process_Properties
  imports Sample_Run
begin

text \<open>
  What holds of the process in every state it can reach, through any number of crashes and
  restarts, whatever the outside answers.
\<close>

section \<open>Write-ahead\<close>

text \<open>C2: Write-ahead logging. In every reachable state of the process, directly before a transaction was
  handed to the RPC node the Arbitrum ledger was written to disk with an entry for the same intent
  that names the transaction's hash and its stage, and for collateral the account that signed.\<close>

theorem process_write_ahead:
  assumes "orch_reach W s" "i < length (w_events (o_world s))" "w_events (o_world s) ! i = Ev_send req h"
  shows "0 < i \<and> announces (Some (w_events (o_world s) ! (i - 1))) req h"
proof -
  have "wal (o_world s)"
    by (rule wal.reach_keeps [OF _ _ assms(1)])
      (simp_all add: wal_def restart_def arb_load_def first_world_def write_ahead_def)
  then have "announces (if i = 0 then None else Some (w_events (o_world s) ! (i - 1))) req h"
    unfolding wal_def write_ahead_def by (rule write_ahead_nth [OF _ assms(2,3)])
  then show ?thesis
    by (cases "i = 0") (auto simp: announces_def)
qed

theorem process_write_ahead_witness:
  "\<exists>req h. w_events resumed_world ! 5 = Ev_send req h \<and> announces (Some (w_events resumed_world ! 4)) req h"
proof -
  obtain req h where T: "w_events resumed_world ! 5 = Ev_send req h"
    by (rule resumed_send)
  with process_write_ahead [OF resumed_reach, of 5 req h] show ?thesis
    by (simp add: resumed_length)
qed

section \<open>One payout\<close>

text \<open>C1: No double payout. When writes of the settled ledger succeed, no intent's payout is told to
  broadcast more than once, in any run of the process through any number of restarts.\<close>

theorem process_pays_once:
  assumes "settled_durable (wr_os W)" "orch_reach W s"
  shows "length (filter (is_go k) (w_events (o_world s))) \<le> 1"
proof -
  have "go_count k (w_events (o_world s)) \<le> allowed (w_settled (o_world s)) k"
    using reach_paid_once [OF assms] by (simp add: paid_once_def)
  then show ?thesis
    using allowed_simps(2) [of "w_settled (o_world s)" k] unfolding go_count_def by linarith
qed

theorem process_pays_once_witness:
  "length (filter (is_go ''0x1'') (w_events resumed_world)) = 1"
proof -
  have "is_go ''0x1'' (w_events resumed_world ! 2)"
    using resumed_run by blast
  then have "w_events resumed_world ! 2 \<in> set (filter (is_go ''0x1'') (w_events resumed_world))"
    by (simp add: resumed_length)
  then have "filter (is_go ''0x1'') (w_events resumed_world) \<noteq> []"
    by (metis empty_iff empty_set)
  moreover have "length (filter (is_go ''0x1'') (w_events resumed_world)) \<le> 1"
    using process_pays_once [OF run_durable resumed_reach] by simp
  ultimately show ?thesis
    by (simp add: le_Suc_eq)
qed

text \<open>C3: Write-ahead on the Solana side. When writes of the settled ledger succeed, directly before a
  payout was told to broadcast the settled ledger on disk was given a settling entry for that intent
  with the very signature.\<close>

theorem process_go_recorded:
  assumes "settled_durable (wr_os W)" "orch_reach W s"
    and "i < length (w_events (o_world s))" "w_events (o_world s) ! i = Ev_go k g"
  shows "0 < i \<and> recorded (Some (w_events (o_world s) ! (i - 1))) k g"
proof -
  have "go_recorded (w_events (o_world s))"
    using reach_paid_once [OF assms(1,2)] by (simp add: paid_once_def)
  then have "recorded (if i = 0 then None else Some (w_events (o_world s) ! (i - 1))) k g"
    unfolding go_recorded_def by (rule go_recorded_nth [OF _ assms(3,4)])
  then show ?thesis
    by (cases "i = 0") (auto simp: recorded_def)
qed

theorem process_go_recorded_witness:
  "\<exists>g. recorded (Some (w_events resumed_world ! 1)) ''0x1'' g"
proof -
  obtain g where "w_events resumed_world ! 2 = Ev_go ''0x1'' g"
    by (rule resumed_go)
  with process_go_recorded [OF run_durable resumed_reach, of 2 "''0x1''" g] show ?thesis
    by (auto simp: resumed_length)
qed

section \<open>What is written and shown\<close>

text \<open>C9: No free text that leaves the process by the alert log or a state record contains a URL (and so
  no RPC key in one), and each state record is filed once, under its own intent's key: in every
  reachable state.\<close>

theorem process_texts_clean:
  assumes "orch_reach W s"
  shows "states_clean (o_world s) \<and> states_wf (o_world s)"
proof -
  have "state_inv (o_world s)"
    by (rule clean.reach_keeps [OF _ _ assms])
      (simp_all add: first_world_def restart_def arb_load_def state_inv_def states_wf_def states_clean_def)
  then show ?thesis by (simp add: state_inv_def)
qed

theorem process_texts_clean_witness:
  "w_states resumed_world \<noteq> [] \<and> states_clean resumed_world"
  using process_texts_clean [OF resumed_reach] resumed_run by auto

text \<open>C10: The ledgers of the process and its files. In every reachable state each ledger, in memory and on
  disk, has at most one entry per intent, whatever the case its id was written in; every entry is found by
  the id the rest of the program looks it up with (\<open>0x\<close> and the key for the Arbitrum ledger); the files
  know no intent that the memory does not; and a restart reads back both files entry for entry.\<close>

theorem process_ledgers_wf:
  assumes "orch_reach W s" "o_world s = w"
  shows "distinct (map fst (w_arb w)) \<and> distinct (map fst (w_settled w)) \<and>
    (\<forall>(k, e) \<in> set (w_arb w). toLowerCase k = k \<and> arb_get w (''0x'' @ k) = Some e) \<and>
    (\<forall>(k, e) \<in> set (w_settled w). toLowerCase k = k \<and> settled_get w k = Some e) \<and>
    (\<forall>i. arb_get w i = None \<longrightarrow> arb_get (restart w) i = None) \<and>
    (\<forall>i. settled_get w i = None \<longrightarrow> settled_get (restart w) i = None) \<and>
    w_arb (restart w) = w_arb_disk w \<and> w_settled (restart w) = w_settled_disk w \<and>
    (\<forall>(k, e) \<in> set (w_arb_disk w). toLowerCase k = k \<and> arb_get (restart w) (''0x'' @ k) = Some e) \<and>
    (\<forall>(k, e) \<in> set (w_settled_disk w). toLowerCase k = k \<and> settled_get (restart w) k = Some e)"
proof -
  have wf: "ledgers_wf w"
    unfolding assms(2) [symmetric]
    by (rule wf.reach_keeps [OF ledgers_wf_restart _ assms(1)])
      (simp_all add: first_world_def ledgers_wf_def arb_wf_def)
  then have keys: "lc_keys (w_arb w)" "lc_keys (w_arb_disk w)" "lc_keys (w_settled w)" "lc_keys (w_settled_disk w)"
    by (simp_all add: ledgers_wf_def arb_wf_def)
  have read: "w_arb (restart w) = w_arb_disk w" "w_settled (restart w) = w_settled_disk w"
    using keys by (simp_all add: restart_def arb_load_def settled_restart del: settled_load.simps)
  show ?thesis
    using wf keys [THEN lc_keys_jwf] keys [THEN lc_keys_get(1)] keys [THEN lc_keys_get(2)] keys(1,2) [THEN lc_keys_get(3)]
    by (auto simp: read arb_get_def settled_get_def ledgers_wf_def arb_wf_def)
qed

theorem process_ledgers_wf_witness:
  "w_arb (restart resumed_world) = w_arb_disk resumed_world \<and> distinct (map fst (w_arb resumed_world))"
  using process_ledgers_wf [OF resumed_reach refl] by simp

end
