(* ===== verification/Safety.thy ===== *)
theory Safety
  imports Orchestrator
begin

text \<open>
  When the settlement sequence acts: no payout before the chain has shown the collateral, no restart
  of a sequence that is under way, and no slashing of a solver whose payout is known to have landed.
\<close>

section \<open>No payout without collateral\<close>

text \<open>What the on-chain check after the collateral accepts.\<close>

definition collateral_shown :: "string \<Rightarrow> on_chain_intent \<Rightarrow> bool" where
  "collateral_shown solver onChain \<longleftrightarrow>
     toLowerCase (oi_solver onChain) = toLowerCase solver \<and> oi_status onChain = INTENT_STATUS_PENDING"

definition never_shown :: "'e deps \<Rightarrow> string \<Rightarrow> bool" where
  "never_shown deps intentId \<longleftrightarrow>
     (\<forall>w onChain. fst (d_readIntent deps intentId w) = Ok onChain \<longrightarrow> \<not> collateral_shown (d_solverAddress deps) onChain)"

lemma never_shown_read:
  "never_shown deps iid \<Longrightarrow>
   wp (d_readIntent deps iid) (\<lambda>r _. \<forall>oc. r = Ok oc \<longrightarrow> \<not> collateral_shown (d_solverAddress deps) oc) w"
  by (rule wpI) (metis never_shown_def fst_conv)

lemma reread_not_shown:
  assumes "never_shown deps iid"
  shows "\<not> collateral_shown (d_solverAddress deps) oc \<Longrightarrow>
    wp (reread_while_stale fuel S cfg deps iid n oc)
      (\<lambda>r _. \<forall>oc'. r = Ok oc' \<longrightarrow> \<not> collateral_shown (d_solverAddress deps) oc') w"
proof (induction fuel arbitrary: n oc w)
  case (Suc fuel n oc w)
  have again: "wp (bnd (d_readIntent deps iid) (\<lambda>onChain'. reread_while_stale fuel S cfg deps iid (n + 1) onChain'))
      (\<lambda>r _. \<forall>oc'. r = Ok oc' \<longrightarrow> \<not> collateral_shown (d_solverAddress deps) oc') w" for w
    by (rule wp_bndI [OF never_shown_read [OF assms]]) (simp_all add: Suc.IH)
  have "wp (sq (sleep S ms) (bnd (d_readIntent deps iid) (\<lambda>onChain'. reread_while_stale fuel S cfg deps iid (n + 1) onChain')))
      (\<lambda>r _. \<forall>oc'. r = Ok oc' \<longrightarrow> \<not> collateral_shown (d_solverAddress deps) oc') w" for ms
    by (rule wp_sqI [where M = "\<lambda>_ _. True"], simp add: wpI, rule again, simp_all)
  then show ?case
    using Suc.prems by (simp add: wp_if wp_ret)
qed (simp add: wp_simps)

lemma read_not_shown:
  assumes "never_shown deps iid" "readIntentAfterPostCollateral fuel S cfg deps iid w = (Ok oc, w')"
  shows "\<not> collateral_shown (d_solverAddress deps) oc"
proof -
  have "wp (readIntentAfterPostCollateral fuel S cfg deps iid)
      (\<lambda>r _. \<forall>oc. r = Ok oc \<longrightarrow> \<not> collateral_shown (d_solverAddress deps) oc) w"
    unfolding readIntentAfterPostCollateral_def
    by (rule wp_bndI [OF never_shown_read [OF assms(1)]]) (simp_all add: reread_not_shown [OF assms(1)])
  from wpD [OF this assms(2)] show ?thesis by simp
qed

lemma bnd_cong_ok: "(\<And>w x w'. m w = (Ok x, w') \<Longrightarrow> k x = k' x) \<Longrightarrow> bnd m k = bnd m k'"
  by (auto simp: bnd_def fun_eq_iff split: prod.split outcome.split)

lemma reading_ignores_payout:
  "reread_while_stale fuel S cfg (deps\<lparr>d_runSolanaPayout := P\<rparr>) iid = reread_while_stale fuel S cfg deps iid"
proof (induction fuel)
  case (Suc fuel)
  show ?case by (intro ext) (simp add: Suc.IH cong: if_cong)
qed (simp add: fun_eq_iff)

lemma resume_ignores_payout:
  assumes "never_shown deps iid"
  shows "resumeFromCollateralPosted fuel S cfg (deps\<lparr>d_runSolanaPayout := P\<rparr>) iid json =
    resumeFromCollateralPosted fuel S cfg deps iid json"
proof -
  have read: "readIntentAfterPostCollateral fuel S cfg (deps\<lparr>d_runSolanaPayout := P\<rparr>) iid =
      readIntentAfterPostCollateral fuel S cfg deps iid"
    by (simp add: readIntentAfterPostCollateral_def reading_ignores_payout)
  show ?thesis
    unfolding resumeFromCollateralPosted_def read
    by (rule bnd_cong_ok) (drule read_not_shown [OF assms], auto simp: collateral_shown_def)
qed

lemma post_ignores_payout:
  assumes "never_shown deps iid"
  shows "post_and_resume fuel S cfg (deps\<lparr>d_runSolanaPayout := P\<rparr>) iid json = post_and_resume fuel S cfg deps iid json"
proof -
  have "record_posting S (deps\<lparr>d_runSolanaPayout := P\<rparr>) iid json = record_posting S deps iid json"
    by (rule ext) (simp add: record_posting_def)
  then show ?thesis
    by (simp add: post_and_resume_def resume_ignores_payout [OF assms] cong: if_cong)
qed

text \<open>C4: No payout without collateral. When no reading of the chain shows the intent pending with this
  solver as the one who posted its collateral, what the payout operation is makes no difference to the
  sequence, started afresh or resumed: it is never called.\<close>

theorem no_payout_without_collateral:
  assumes "never_shown deps iid"
  shows "runArbitrumSettlementSequence fuel S cfg (deps\<lparr>d_runSolanaPayout := P\<rparr>) iid json =
      runArbitrumSettlementSequence fuel S cfg deps iid json \<and>
    resumeFromCollateralPosted fuel S cfg (deps\<lparr>d_runSolanaPayout := P\<rparr>) iid json =
      resumeFromCollateralPosted fuel S cfg deps iid json"
proof -
  have "start_sequence fuel S cfg (deps\<lparr>d_runSolanaPayout := P\<rparr>) iid json = start_sequence fuel S cfg deps iid json"
    by (simp add: start_sequence_def post_ignores_payout [OF assms] cong: if_cong)
  then show ?thesis
    by (simp add: runArbitrumSettlementSequence_def resume_ignores_payout [OF assms] cong: if_cong option.case_cong)
qed

section \<open>No second start\<close>

definition in_progress :: "'e world \<Rightarrow> string \<Rightarrow> bool" where
  "in_progress w intentId \<longleftrightarrow> (\<exists>entry. arb_get w intentId = Some entry \<and> ae_stage entry \<noteq> Collateral_failed)"

text \<open>C6: Nothing is started twice. While an intent's sequence is under way or done, a second start of the
  sequence changes no ledger, book or trace; and a proof for an intent that is settled or mid-settlement, or
  that the settle gate refuses, does not get to the dispatch: it changes no ledger, book or trace
  either.\<close>

theorem nothing_started_twice:
  "(in_progress w iid \<longrightarrow> core (snd (runArbitrumSettlementSequence fuel S cfg deps iid json w)) = core w) \<and>
   (is_settled w (pj_intent_id json) \<or> is_settling w (pj_intent_id json) \<or>
     (\<exists>g w1. evaluateSettleGate (wr_os W) json (wr_manager W) blockHash w = (Ok g, w1) \<and> \<not> sg_ok g) \<longrightarrow>
       core (snd (settle_proved W shown json blockHash w)) = core w)"
proof (intro conjI impI)
  assume "in_progress w iid"
  then have "wp (runArbitrumSettlementSequence fuel S cfg deps iid json) (\<lambda>_ w'. core w' = core w) w"
    unfolding in_progress_def runArbitrumSettlementSequence_def
    by (auto simp: wp_simps intro: display_only_wp)
  then show "core (snd (runArbitrumSettlementSequence fuel S cfg deps iid json w)) = core w"
    by (simp add: wp_def case_prod_beta)
next
  assume *: "is_settled w (pj_intent_id json) \<or> is_settling w (pj_intent_id json) \<or>
     (\<exists>g w1. evaluateSettleGate (wr_os W) json (wr_manager W) blockHash w = (Ok g, w1) \<and> \<not> sg_ok g)"
  obtain g where g: "evaluateSettleGate (wr_os W) json (wr_manager W) blockHash w = (Ok g, w)"
    by (simp add: evaluateSettleGate_def isAlreadySettled_def now_sec_def bnd_def js_get_def js_ret_def Let_def)
  have "wp (settle_proved W shown json blockHash) (\<lambda>_ w'. core w' = core w) w"
    using * unfolding settle_proved_def Let_def wp_bnd [of "evaluateSettleGate _ _ _ _"] wp_def [of "evaluateSettleGate _ _ _ _"] g
    by (auto simp: wp_simps intro: display_only_wp)
  then show "core (snd (settle_proved W shown json blockHash w)) = core w"
    by (simp add: wp_def case_prod_beta)
qed

section \<open>No unpaid slash\<close>

text \<open>The transactions of a trace.\<close>

definition sent :: "(tx_req \<Rightarrow> bool) \<Rightarrow> event list \<Rightarrow> 'e world \<Rightarrow> bool" where
  "sent P base w \<longleftrightarrow> (\<exists>us. w_events w = base @ us \<and> (\<forall>req h. Ev_send req h \<in> set us \<longrightarrow> P req))"

lemma sent_core: "core w = core w' \<Longrightarrow> sent P base w = sent P base w'"
  by (simp add: sent_def core_eq)

lemma sent_snoc:
  "sent P base w \<Longrightarrow> (\<And>req h. v = Ev_send req h \<Longrightarrow> P req) \<Longrightarrow> sent P base (w'\<lparr>w_events := w_events w @ [v]\<rparr>)"
proof -
  assume "sent P base w" and v: "\<And>req h. v = Ev_send req h \<Longrightarrow> P req"
  then obtain us where "w_events w = base @ us" "\<forall>req h. Ev_send req h \<in> set us \<longrightarrow> P req"
    unfolding sent_def by blast
  with v show ?thesis
    unfolding sent_def by (intro exI [of _ "us @ [v]"]) auto
qed

lemma sent_emit: "(\<And>req h. v = Ev_send req h \<Longrightarrow> P req) \<Longrightarrow> preserves (sent P base) (emit v)"
  by (rule preservesI) (simp add: wp_simps sent_snoc)

lemma sent_stages: "preserves (sent P base) (setArbitrumStage S iid st p)"
  by (rule preservesI, rule wp_setArbitrumStage)
    (auto simp: sent_def arb_stored_frame arb_unstored_frame)

lemma sent_marks: "preserves (sent P base) (markSettled S iid)"
  unfolding markSettled_def
  by (rule preservesI; auto simp: wp_simps sent_def settled_put_def intro!: wp_put_settled)

interpretation sent: quiet_invariant S "sent P base" for S :: "'e os" and P base
  by (rule core_only_quiet) (rule sent_core)

lemma sent_send:
  "P req \<Longrightarrow> (\<And>h. preserves (sent P base) (onSigned h)) \<Longrightarrow> preserves (sent P base) (signAndSend S req onSigned)"
  by (rule sent.send_keeps) (auto intro: sent_emit)

text \<open>Confirming what has landed sends no slash; slashing an intent sends nothing about another.\<close>

abbreviation real_deps :: "'e os \<Rightarrow> string \<Rightarrow> string \<Rightarrow> (string \<Rightarrow> ('e world, payout_result) js) \<Rightarrow> string \<Rightarrow> 'e deps" where
  "real_deps S orchestrator manager p a \<equiv> settlement_deps S orchestrator manager p (checkSolanaSignatureLanded S) a"

interpretation confirming: landed_invariant S "sent (\<lambda>req. tr_fn req = ConfirmSettlement) base" "real_deps S orchestrator manager p a"
  for S :: "'e os" and base orchestrator manager p a
  by unfold_locales
    (auto simp: settlement_deps_def sent_stages sent_marks record_confirming_def checkSolanaSignatureLanded_def tx_for_def
      intro!: sent_send sent.steps sent.quiet)

lemma slash_sends:
  "preserves (sent (\<lambda>req. tr_intentId req = iid) base) (slash_now S (real_deps S orchestrator manager p a) iid)"
  unfolding slash_now_def
  by (auto simp: settlement_deps_def record_slashing_def tx_for_def
      intro!: sent.steps sent.quiet sent_send sent_stages)

text \<open>Nothing known now says that the intent was paid: neither the settled ledger nor the Solana client.\<close>

definition unpaid :: "'e os \<Rightarrow> 'e world \<Rightarrow> string \<Rightarrow> bool" where
  "unpaid S w iid \<longleftrightarrow> (case settled_get w iid of None \<Rightarrow> True
     | Some en \<Rightarrow> le_status en \<noteq> L_settled \<and>
         (case le_solanaSig en of None \<Rightarrow> True
          | Some sig \<Rightarrow> sig = [] \<or> fst (checkSolanaSignatureLanded S sig w) = Ok False))"

lemma landed_answers:
  "wp (solana_landed (real_deps S orchestrator manager p a) en)
     (\<lambda>r _. r = Ok False \<longrightarrow> settled_get w iid = Some en \<longrightarrow> unpaid S w iid) w"
  by (rule wpI) (auto simp: solana_landed_def settlement_deps_def unpaid_def js_ret_def split: if_splits option.splits)

lemma not_averted:
  "wp (resumeConfirmIfSolanaLanded fuel S cfg (real_deps S orchestrator manager p a) iid hx)
     (\<lambda>r _. r = Ok False \<longrightarrow> unpaid S w iid) w"
proof (cases "settled_get w iid")
  case None
  then show ?thesis
    by (simp add: resumeConfirmIfSolanaLanded_def getLedgerEntry_def wp_simps unpaid_def)
next
  case (Some en)
  let ?d = "real_deps S orchestrator manager p a"
  have rest: "wp (sq m (bnd n (\<lambda>found. case found of
        None \<Rightarrow> sq q (js_ret True)
      | Some json \<Rightarrow> bnd c (\<lambda>z. sq (k json z) (js_ret True))))) (\<lambda>r _. r = Ok False \<longrightarrow> X) w1"
    for m n q c k X and w1 :: "'a world"
    by (rule wpI) (auto simp: sq_def bnd_def js_ret_def split: prod.splits outcome.splits option.splits)
  have "wp (bnd (solana_landed ?d en) (\<lambda>landed. if \<not> landed then js_ret False
      else sq m (bnd n (\<lambda>found. case found of
        None \<Rightarrow> sq q (js_ret True)
      | Some json \<Rightarrow> bnd c (\<lambda>z. sq (k json z) (js_ret True)))))) (\<lambda>r _. r = Ok False \<longrightarrow> unpaid S w iid) w"
    for m n q c k
    by (rule wp_bndI [OF landed_answers [of S _ _ _ _ en w iid]]) (auto simp: wp_if wp_ret Some intro: rest)
  with Some show ?thesis
    by (simp add: resumeConfirmIfSolanaLanded_def getLedgerEntry_def wp_bnd [of "js_get _"] wp_get)
qed

text \<open>C5: No slash of a paid intent. When the poller, at an entry of the Arbitrum ledger, hands a slashing
  transaction to the RPC node, it is for that entry's intent, the entry's expiry has passed, the settled
  ledger does not call the intent settled, and if the ledger knows a signature the Solana client has just
  answered that it has not landed.\<close>

theorem slash_only_unpaid:
  assumes "poll_one fuel S cfg (real_deps S orchestrator manager p a) (i, entry) w = (r, w')"
    and "w_events w' = w_events w @ vs" and "Ev_send req h \<in> set vs" and "tr_fn req = SlashSolver"
  shows "tr_intentId req = ''0x'' @ i \<and> unpaid S w (''0x'' @ i) \<and>
    (\<exists>expiry. ae_expiry entry = Some expiry \<and> expiry \<le> os_now S (w_env w) div 1000)"
proof -
  define iid where "iid = ''0x'' @ i"
  let ?iid = iid and ?d = "real_deps S orchestrator manager p a"
  define Q where "Q = (\<lambda>(_ :: unit outcome) (w' :: 'a world). \<forall>vs req h. w_events w' = w_events w @ vs \<longrightarrow>
     Ev_send req h \<in> set vs \<longrightarrow> tr_fn req = SlashSolver \<longrightarrow> tr_intentId req = ?iid \<and> unpaid S w ?iid)"
  have quiet: "Q r w1" if "sent (\<lambda>req. tr_fn req = ConfirmSettlement) (w_events w) w1" for r and w1 :: "'a world"
  proof -
    from that obtain us where us: "w_events w1 = w_events w @ us"
      "\<And>req h. Ev_send req h \<in> set us \<Longrightarrow> tr_fn req = ConfirmSettlement"
      unfolding sent_def by blast
    have "tr_fn req \<noteq> SlashSolver" if "w_events w1 = w_events w @ vs" "Ev_send req h \<in> set vs" for vs req h
      using us that by force
    then show ?thesis unfolding Q_def by blast
  qed
  have resumed: "wp (resumeConfirmIfSolanaLanded fuel S cfg ?d ?iid i)
      (\<lambda>r w1. sent (\<lambda>req. tr_fn req = ConfirmSettlement) (w_events w) w1 \<and> (r = Ok False \<longrightarrow> unpaid S w ?iid)) w"
    by (rule wp_conj [OF preservesD [OF confirming.resume_confirm] not_averted]) (simp add: sent_def)
  have slash: "wp (slash_now S ?d ?iid) Q w1"
    if w1: "sent (\<lambda>req. tr_fn req = ConfirmSettlement) (w_events w) w1" and "unpaid S w ?iid" for w1 :: "'a world"
  proof -
    have "sent (\<lambda>req. tr_intentId req = ?iid) (w_events w1) w1" by (simp add: sent_def)
    then have "wp (slash_now S ?d ?iid) (\<lambda>_. sent (\<lambda>req. tr_intentId req = ?iid) (w_events w1)) w1"
      by (rule preservesD [OF slash_sends])
    then show ?thesis
    proof (rule wp_mono)
      fix r and w2 :: "'a world" assume "sent (\<lambda>req. tr_intentId req = ?iid) (w_events w1) w2"
      with w1 obtain us us' where us: "w_events w2 = w_events w @ us @ us'"
        "\<And>req h. Ev_send req h \<in> set us \<Longrightarrow> tr_fn req = ConfirmSettlement"
        "\<And>req h. Ev_send req h \<in> set us' \<Longrightarrow> tr_intentId req = ?iid"
        unfolding sent_def by (metis append.assoc)
      have "tr_intentId req = ?iid"
        if "w_events w2 = w_events w @ vs" "Ev_send req h \<in> set vs" "tr_fn req = SlashSolver" for vs req h
        using us that by force
      with that(2) show "Q r w2" unfolding Q_def by blast
    qed
  qed
  have poll: "wp (bnd (resumeConfirmIfSolanaLanded fuel S cfg ?d ?iid i)
      (\<lambda>averted. if averted then js_ret () else slash_now S ?d ?iid)) Q w"
    by (rule wp_bndI [OF resumed]) (auto simp: wp_if wp_ret quiet slash)
  let ?due = "\<exists>expiry. ae_expiry entry = Some expiry \<and> expiry \<le> os_now S (w_env w) div 1000"
  let ?R = "\<lambda>r w'. w' = w \<or> (?due \<and> Q r w')"
  have clock: "d_nowSec ?d = now_sec S"
    by (simp add: settlement_deps_def)
  have "wp (poll_one fuel S cfg ?d (i, entry)) ?R w"
  proof (cases "ae_expiry entry")
    case (Some expiry)
    show ?thesis
      unfolding poll_one_def prod.case Some option.case clock wp_bnd [of "now_sec _"] wp_now on_ok_simps Let_def iid_def [symmetric]
      by (auto simp: wp_if wp_ret intro: wp_mono [OF poll])
  qed (simp add: poll_one_def wp_ret)
  from wpD [OF this assms(1)] show ?thesis
    using assms(2-4) unfolding Q_def iid_def by auto
qed

section \<open>Samples\<close>

definition unposted_deps :: "script deps" where
  "unposted_deps = (real_deps script_os ''o'' ''m'' (\<lambda>_. js_throw (js ''called'')) ''a'')
     \<lparr>d_readIntent := \<lambda>_. js_ret no_intent\<rparr>"

theorem no_payout_without_collateral_witness:
  "runArbitrumSettlementSequence 3 script_os routing_cfg
      (unposted_deps\<lparr>d_runSolanaPayout := \<lambda>_. js_ret \<lparr>pr_ok = True, pr_sig = None, pr_error = None\<rparr>\<rparr>) ''0x1'' routing_json =
    runArbitrumSettlementSequence 3 script_os routing_cfg unposted_deps ''0x1'' routing_json"
proof -
  have "toLowerCase ZERO_ADDRESS \<noteq> toLowerCase ''a''" by code_simp
  then have "never_shown unposted_deps ''0x1''"
    by (simp add: never_shown_def unposted_deps_def settlement_deps_def collateral_shown_def no_intent_def js_ret_def)
  from no_payout_without_collateral [OF this] show ?thesis by blast
qed

definition idle_wiring :: "script wiring" where
  "idle_wiring = \<lparr>wr_os = script_os, wr_env = [], wr_cfg = routing_cfg,
     wr_accounts = \<lparr>ac_orchestrator = ''o'', ac_solvers = []\<rparr>,
     wr_manager = ''m'', wr_toBase58 = \<lambda>_. Inr ''w'', wr_sha256 = \<lambda>_. [], wr_fuel = 2\<rparr>"

definition idle_entry :: arb_entry where
  "idle_entry = merge_entry None Awaiting_expiry_slash (no_patch\<lparr>ap_expiry := Val 900\<rparr>) 5"

definition idle_world :: "script world" where
  "idle_world = (fresh_world blank_script)\<lparr>w_arb := [(''1'', idle_entry)],
     w_settled := [(toLowerCase (pj_intent_id routing_json), \<lparr>le_status = L_settling, le_solanaSig = Some ''g'', le_updatedAt = 5\<rparr>)]\<rparr>"

theorem nothing_started_twice_witness:
  "core (snd (runArbitrumSettlementSequence 3 script_os routing_cfg unposted_deps ''0x1'' routing_json idle_world)) = core idle_world \<and>
   core (snd (settle_proved idle_wiring ''0x1'' routing_json ''h'' idle_world)) = core idle_world"
proof -
  have "keyOf ''0x1'' = ''1''" by code_simp
  then have "in_progress idle_world ''0x1''"
    by (simp add: in_progress_def idle_world_def idle_entry_def arb_get_def merge_entry_def)
  moreover have "is_settling idle_world (pj_intent_id routing_json)"
    by (simp add: is_settling_def settled_get_def idle_world_def)
  ultimately show ?thesis
    using nothing_started_twice [of idle_world "''0x1''" 3 script_os routing_cfg unposted_deps routing_json idle_wiring "''h''" "''0x1''"]
    by blast
qed

definition slash_world :: "script world" where
  "slash_world = (fresh_world blank_script)\<lparr>w_arb := [(''1'', idle_entry)]\<rparr>"

lemma slash_run:
  "case poll_one 1 script_os routing_cfg (real_deps script_os ''o'' ''m'' (\<lambda>_. js_stop) ''a'') (''1'', idle_entry) slash_world of
     (r, w') \<Rightarrow> (case w_events w' of [v, Ev_send req h, v'] \<Rightarrow> tr_fn req = SlashSolver | _ \<Rightarrow> False)"
  by code_simp

theorem slash_only_unpaid_witness:
  "unpaid script_os slash_world ''0x1'' \<and> (\<exists>expiry. ae_expiry idle_entry = Some expiry \<and> expiry \<le> 1000)"
proof -
  obtain r w' where run: "poll_one 1 script_os routing_cfg (real_deps script_os ''o'' ''m'' (\<lambda>_. js_stop) ''a'') (''1'', idle_entry) slash_world = (r, w')"
    by fastforce
  then obtain v req h v' where "w_events w' = [v, Ev_send req h, v']" "tr_fn req = SlashSolver"
    using slash_run by (auto split: list.splits event.splits)
  then show ?thesis
    using slash_only_unpaid [OF run, of "w_events w'" req h]
    by (simp add: slash_world_def fresh_world_def blank_script_def script_os_def)
qed

section \<open>A lost receipt\<close>

text \<open>Writes complete, transactions can be prepared and signed, the process is not killed while one is sent,
  and no receipt arrives in time.\<close>

definition writes_complete :: "'e os \<Rightarrow> bool" where
  "writes_complete S \<longleftrightarrow> (\<forall>f e. fst (os_write S f e) = Wr_ok)"

definition receipts_lost :: "'e os \<Rightarrow> bool" where
  "receipts_lost S \<longleftrightarrow> (\<forall>req e. fst (os_prepare S req e) = Ok () \<and> (\<exists>t. fst (os_sign S req e) = Ok t)) \<and>
     (\<forall>t e. fst (os_sendRaw S t e) \<noteq> Stop) \<and> (\<forall>h e. \<exists>m. fst (os_waitReceipt S h e) = Throw m)"

lemma stage_stored:
  assumes "writes_complete S" "\<And>w'. arb_stored S iid st p w w' \<Longrightarrow> Q (Ok ()) w'"
  shows "wp (setArbitrumStage S iid st p) Q w"
proof -
  have ok: "os_write S f e = (b, e') \<Longrightarrow> b = Wr_ok" for f e b e'
    using assms(1) unfolding writes_complete_def by (metis fst_conv)
  show ?thesis
    unfolding setArbitrumStage_def arb_persist_def
    by (auto simp: wp_simps Let_def dest!: ok intro!: assms(2) split: prod.split)
      (simp add: arb_stored_def Let_def, rule exI, rule world.equality, simp_all)
qed

lemma display_returns:
  assumes "writes_complete S" "\<And>w'. core w' = core w \<Longrightarrow> Q (Ok ()) w'"
  shows "wp (mirrorDisplay S iid ap) Q w" "wp (alert_and_record S shown iid reason) Q w"
proof -
  have states: "states_writable S"
    using assms(1) by (simp add: writes_complete_def states_writable_def)
  show "wp (mirrorDisplay S iid ap) Q w"
    unfolding mirrorDisplay_def setArbitrumSettlement_def by (rule upsert_returns [OF states]) (rule assms(2))
  have ok: "os_write S f e = (b, e') \<Longrightarrow> b = Wr_ok" for f e b e'
    using assms(1) unfolding writes_complete_def by (metis fst_conv)
  have "wp (alert S x) (\<lambda>r w'. r = Ok () \<and> core w' = core w) w" for x
    unfolding alert_def by (auto simp: wp_simps dest!: ok split: prod.split)
  then show "wp (alert_and_record S shown iid reason) Q w"
    unfolding alert_and_record_def alert_intent_def recordAlertReason_def
    by (rule wp_sqI) (auto intro!: upsert_returns [OF states] assms(2))
qed

text \<open>The record made before the broadcast names the hash; what is sent follows it, and the answer forgets it.\<close>

lemma recorded_posting:
  assumes "writes_complete S" "d_routing deps = None"
  shows "wp (record_posting S deps iid json h) (\<lambda>r w'. r = Ok () \<and> (\<exists>posting. ae_stage posting = Posting_collateral \<and>
    ae_collateralTxHash posting = Some h \<and> w_events w' = w_events w @ [Ev_arb (keyOf iid) posting])) w"
  unfolding record_posting_def assms(2) wp_sq [of "setArbitrumStage _ _ _ _"]
  by (rule stage_stored [OF assms(1)])
    (auto simp: mirrorRouting_def with_routing_def wp_simps core_eq arb_stored_frame merge_entry_def no_patch_def
      intro!: display_returns [OF assms(1)])

lemma lost_send:
  assumes "writes_complete S" "receipts_lost S" "d_routing deps = None"
  shows "wp (signAndSend S req (record_posting S deps iid json)) (\<lambda>r w'. \<exists>out h posting.
     r = Ok out \<and> \<not> to_ok out \<and> to_txHash out = None \<and>
     ae_stage posting = Posting_collateral \<and> ae_collateralTxHash posting = Some h \<and>
     w_events w' = w_events w @ [Ev_arb (keyOf iid) posting, Ev_send req h]) w"
proof -
  obtain e1 where prep: "os_prepare S req (w_env w) = (Ok (), e1)"
    using assms(2) unfolding receipts_lost_def by (metis prod.collapse)
  obtain t e2 where sign: "os_sign S req e1 = (Ok t, e2)"
    using assms(2) unfolding receipts_lost_def by (metis prod.collapse)
  have send: "os_sendRaw S t e = (b, e') \<Longrightarrow> b \<noteq> Stop" for e b e'
    using assms(2) unfolding receipts_lost_def by (metis fst_conv)
  have wait: "os_waitReceipt S h e = (b, e') \<Longrightarrow> \<exists>m. b = Throw m" for h e b e'
    using assms(2) unfolding receipts_lost_def by (metis fst_conv)
  have sending: "wp (sq (emit v) (sq (ext (os_sendRaw S t)) (bnd (ext (os_waitReceipt S h)) k)))
      (\<lambda>r w'. (\<exists>m. r = Throw m) \<and> w_events w' = w_events w1 @ [v]) w1" for v h k and w1 :: "'a world"
    by (auto simp: wp_simps on_ok_def dest!: wait dest: send split: prod.split outcome.split)
  show ?thesis
    unfolding signAndSend_def Let_def
    by (rule wp_catchI [where M = "\<lambda>r w'. (\<exists>m. r = Throw m) \<and> (\<exists>h posting. ae_stage posting = Posting_collateral \<and>
          ae_collateralTxHash posting = Some h \<and> w_events w' = w_events w @ [Ev_arb (keyOf iid) posting, Ev_send req h])"])
      (auto simp: wp_sq [of "ext _"] wp_bnd [of "ext _"] wp_ext wp_ret prep sign
        intro!: wp_sqI [OF recorded_posting [OF assms(1,3)]] wp_mono [OF sending])
qed

text \<open>C8: What is thrown after the broadcast loses the hash. When the receipt of the collateral does not
  arrive, the trace is exactly: the entry that names the transaction written to the ledger, the transaction
  handed to the node, and the entry written over by \<open>Collateral_failed\<close> without a hash. That entry is what
  the memory holds and what a restart finds, so the transaction can no longer be looked up, and the ledger
  does not keep the sequence from starting again for the same intent.\<close>

theorem lost_receipt_forgets_collateral:
  assumes "writes_complete S" and "receipts_lost S" and "js_BigInt (pj_amount json) = Inr amount"
    and "post_and_resume fuel S cfg (real_deps S orchestrator manager p a) iid json w = (r, w')"
  shows "r = Ok () \<and>
    (\<exists>posting h lost. w_events w' = w_events w @ [Ev_arb (keyOf iid) posting,
         Ev_send (tx_for PostCollateral a manager iid None (collateral_for amount)) h, Ev_arb (keyOf iid) lost] \<and>
       ae_stage posting = Posting_collateral \<and> ae_collateralTxHash posting = Some h \<and>
       ae_stage lost = Collateral_failed \<and> ae_collateralTxHash lost = None \<and>
       arb_get w' iid = Some lost \<and> arb_get (restart w') iid = Some lost) \<and>
    runArbitrumSettlementSequence fuel S cfg deps iid json w' = start_sequence fuel S cfg deps iid json w'"
proof -
  let ?d = "real_deps S orchestrator manager p a"
  let ?req = "tx_for PostCollateral a manager iid None (collateral_for amount)"
  let ?R = "\<lambda>r w'. r = Ok () \<and> (\<exists>posting h lost. w_events w' = w_events w @ [Ev_arb (keyOf iid) posting, Ev_send ?req h,
       Ev_arb (keyOf iid) lost] \<and> ae_stage posting = Posting_collateral \<and> ae_collateralTxHash posting = Some h \<and>
       ae_stage lost = Collateral_failed \<and> ae_collateralTxHash lost = None \<and>
       arb_get w' iid = Some lost \<and> arb_get (restart w') iid = Some lost)"
  have routing: "d_routing ?d = None" "d_postCollateral ?d iid v = signAndSend S (tx_for PostCollateral a manager iid None v)" for v
    by (simp_all add: settlement_deps_def)
  have failed: "wp (sq (alert_and_record S shown iid reason) (sq (setArbitrumStage S iid Collateral_failed
      ((with_routing None no_patch)\<lparr>ap_collateralTxHash := fld_of None, ap_expiry := x\<rparr>))
      (sq (mirrorRouting S iid None) (mirrorDisplay S iid ap)))) ?R w1"
    if "w_events w1 = w_events w @ [Ev_arb (keyOf iid) posting, Ev_send ?req h]"
      "ae_stage posting = Posting_collateral" "ae_collateralTxHash posting = Some h" for posting h shown reason x ap w1
    unfolding wp_sq [of "alert_and_record _ _ _ _"] wp_sq [of "setArbitrumStage _ _ _ _"]
    using that
    by (auto simp: mirrorRouting_def wp_simps core_eq arb_stored_frame arb_get_def restart_def arb_load_def merge_entry_def
        intro!: display_returns [OF assms(1)] stage_stored [OF assms(1)])
  have "wp (post_and_resume fuel S cfg ?d iid json) ?R w"
    unfolding post_and_resume_def routing wp_bnd [of "js_lift _"] wp_lift assms(3) sum.case on_ok_simps
    by (rule wp_bndI [OF lost_send [OF assms(1,2) routing(1)]]) (auto simp: failed)
  from wpD [OF this assms(4)] have R: "?R r w'" .
  then show ?thesis
    by (auto simp: runArbitrumSettlementSequence_def bnd_def getArbitrumLedgerEntry_def js_get_def)
qed

definition lossy_os :: "script os" where
  "lossy_os = script_os\<lparr>os_write := \<lambda>_ e. (Wr_ok, e), os_sendRaw := \<lambda>_ e. (Ok (), e),
     os_waitReceipt := \<lambda>_ e. (Throw (js ''timeout''), e)\<rparr>"

theorem lost_receipt_forgets_collateral_witness:
  "\<exists>r w' posting h lost. post_and_resume 2 lossy_os routing_cfg (real_deps lossy_os ''o'' ''m'' (\<lambda>_. js_stop) ''a'')
       ''0x1'' routing_json (fresh_world blank_script) = (r, w') \<and>
     w_events w' = [Ev_arb (keyOf ''0x1'') posting,
       Ev_send (tx_for PostCollateral ''a'' ''m'' ''0x1'' None (collateral_for 8)) h, Ev_arb (keyOf ''0x1'') lost] \<and>
     ae_collateralTxHash posting = Some h \<and> ae_collateralTxHash lost = None"
proof -
  have os: "writes_complete lossy_os" "receipts_lost lossy_os"
    by (simp_all add: writes_complete_def receipts_lost_def lossy_os_def script_os_def)
  have amount: "js_BigInt (pj_amount routing_json) = Inr 8"
    by code_simp
  obtain r w' where run: "post_and_resume 2 lossy_os routing_cfg (real_deps lossy_os ''o'' ''m'' (\<lambda>_. js_stop) ''a'')
      ''0x1'' routing_json (fresh_world blank_script) = (r, w')"
    by fastforce
  from lost_receipt_forgets_collateral [OF os amount run, of unposted_deps] show ?thesis
    unfolding run by (auto simp: fresh_world_def)
qed

end
