(* ===== verification/Refused_Write.thy ===== *)
theory Refused_Write
  imports Payout_Once
begin

text \<open>
  What \<open>process_pays_once\<close> rests on: when the settled ledger's file cannot be written, the failure is
  only an alert, the payout is told to broadcast all the same, and every later process pays again.
\<close>

section \<open>A ledger file that cannot be written\<close>

definition ledger_refused :: "'e os \<Rightarrow> bool" where
  "ledger_refused S \<longleftrightarrow> (\<forall>e. \<exists>m. fst (os_write S Settled_ledger_file e) = Wr_refused m) \<and>
     (\<forall>f e. f \<noteq> Settled_ledger_file \<longrightarrow> fst (os_write S f e) = Wr_ok)"

text \<open>The script, once it is spawned, first prints a signature.\<close>

definition announces_sig :: "'e wiring \<Rightarrow> proof_json \<Rightarrow> string \<Rightarrow> string \<Rightarrow> bool" where
  "announces_sig W json dest h \<longleftrightarrow> (\<forall>e. \<exists>d g.
     fst (os_childEvent (wr_os W) (os_spawnSettle (wr_os W) (settle_env_of json dest h) e)) = Ok (C_stdout d) \<and>
     settling_sig d = Some g)"

lemma refused_write:
  assumes "ledger_refused S"
  obtains m e' where "os_write S Settled_ledger_file e = (Wr_refused m, e')"
  using assms unfolding ledger_refused_def by (metis prod.collapse)

lemma other_write:
  assumes "ledger_refused S" "f \<noteq> Settled_ledger_file"
  obtains e' where "os_write S f e = (Wr_ok, e')"
  using assms unfolding ledger_refused_def by (metis prod.collapse)

text \<open>An update of the ledger reaches the memory only.\<close>

lemma wp_put_refused:
  assumes S: "ledger_refused S"
    and "\<And>w' vs. w_settled_disk w' = w_settled_disk w \<Longrightarrow> w_events w' = w_events w @ vs \<Longrightarrow> go_count k vs = 0 \<Longrightarrow> Q (Ok ()) w'"
  shows "wp (put_settled S i en) Q w"
proof -
  obtain m e where refused: "os_write S Settled_ledger_file (w_env w) = (Wr_refused m, e)"
    by (rule refused_write [OF S])
  obtain e' where log: "os_write S Alert_log e = (Wr_ok, e')"
    by (rule other_write [OF S, of Alert_log e]) simp_all
  show ?thesis
    by (auto simp: put_settled_def persistLedger_def alert_def wp_simps refused log go_count_def is_go_def
        intro!: assms(2) exI)
qed

text \<open>The file stays as it is, and the payouts told to go are the ones so far.\<close>

definition forgetful :: "(string, ledger_entry) jmap \<Rightarrow> string \<Rightarrow> nat \<Rightarrow> 'e world \<Rightarrow> bool" where
  "forgetful d k c w \<longleftrightarrow> w_settled_disk w = d \<and> go_count k (w_events w) = c"

lemma forgetful_core: "core w = core w' \<Longrightarrow> forgetful d k c w = forgetful d k c w'"
  by (simp add: forgetful_def core_eq)

lemma go_count_append: "go_count k (vs @ us) = go_count k vs + go_count k us"
  by (simp add: go_count_def)

lemma forgetful_put: "ledger_refused S \<Longrightarrow> forgetful d k c w \<Longrightarrow> wp (put_settled S i en) (\<lambda>r w'. r = Ok () \<and> forgetful d k c w') w"
  by (erule wp_put_refused [where k = k]) (simp add: forgetful_def go_count_append)

lemma forgetful_marks:
  assumes "ledger_refused S"
  shows "preserves (forgetful d k c) (markSettled S iid)"
    and "forgetful d k c w \<Longrightarrow> wp (markSettling S iid g) (\<lambda>r w'. r = Ok () \<and> forgetful d k c w') w"
proof -
  have put: "wp (put_settled S i en) (\<lambda>_. forgetful d k c) w" if "forgetful d k c w" for i en and w :: "'a world"
    by (rule wp_mono [OF forgetful_put [OF assms that]]) simp
  show "preserves (forgetful d k c) (markSettled S iid)"
    unfolding markSettled_def by (rule preservesI) (simp add: wp_simps put)
  show "forgetful d k c w \<Longrightarrow> wp (markSettling S iid g) (\<lambda>r w'. r = Ok () \<and> forgetful d k c w') w"
    unfolding markSettling_def by (simp add: wp_simps forgetful_put [OF assms])
qed

section \<open>One payout\<close>

lemma refused_states: "ledger_refused S \<Longrightarrow> states_writable S"
  by (simp add: ledger_refused_def states_writable_def)

lemma stdout_goes:
  assumes S: "ledger_refused S" and "st_sig st = None" "settling_sig (st_out st @ d) = Some g"
    and w: "forgetful d0 (toLowerCase iid) c w"
  shows "wp (on_stdout S iid d st) (\<lambda>r w'. \<exists>st'. r = Ok st' \<and> st_sig st' \<noteq> None \<and>
    forgetful d0 (toLowerCase iid) (Suc c) w') w"
proof -
  let ?F = "forgetful d0 (toLowerCase iid)"
  have rest: "wp (sq (setSettling S iid g) (sq (ext_do (os_childStdin S ''GO\<newline>'')) (emit (Ev_go (toLowerCase iid) g))))
      (\<lambda>r w'. r = Ok () \<and> ?F (Suc c) w') w1" if "?F c w1" for w1
  proof -
    have "?F (Suc c) (w2\<lparr>w_env := e, w_events := w_events w2 @ [Ev_go (toLowerCase iid) g]\<rparr>)"
      if "core w2 = core w1" for w2 e
      using \<open>?F c w1\<close> that by (simp add: forgetful_def core_eq go_count_snoc is_go_def)
    then show ?thesis
      unfolding setSettling_def wp_sq [of "upsert _ _ _"]
      by (intro upsert_returns [OF refused_states [OF S]]) (simp add: wp_simps)
  qed
  have "wp (sq (markSettling S iid g) (sq (setSettling S iid g) (sq (ext_do (os_childStdin S ''GO\<newline>''))
      (emit (Ev_go (toLowerCase iid) g))))) (\<lambda>r w'. r = Ok () \<and> ?F (Suc c) w') w"
    by (rule wp_sqI [OF forgetful_marks(2) [OF S w]]) (auto intro: rest)
  then have "wp (js_catch (sq (markSettling S iid g) (sq (setSettling S iid g) (sq (ext_do (os_childStdin S ''GO\<newline>''))
      (emit (Ev_go (toLowerCase iid) g))))) (\<lambda>_. js_ret ())) (\<lambda>r w'. r = Ok () \<and> ?F (Suc c) w') w"
    by (rule wp_catchI) auto
  then show ?thesis
    unfolding on_stdout_def Let_def
    by (auto simp: assms(2,3) wp_ret intro!: wp_sqI)
qed

lemma settler_forgets:
  assumes S: "ledger_refused S"
  shows "st_sig st \<noteq> None \<Longrightarrow> preserves (forgetful d k c) (settler_loop fuel S iid st)"
proof (induction fuel arbitrary: st)
  case (Suc fuel)
  have quiet: "quiet_invariant S (forgetful d k c)"
    by (rule core_only_quiet) (rule forgetful_core)
  have close: "preserves (forgetful d k c) (on_close S iid code st)" for code
    by (rule quiet_invariant.close_keeps [OF quiet]) (rule forgetful_marks(1) [OF S])
  have out: "preserves (forgetful d k c) (bnd (on_stdout S iid x st) (settler_loop fuel S iid))" for x
  proof -
    obtain g where "st_sig st = Some g" using Suc.prems by blast
    then have "bnd (on_stdout S iid x st) (settler_loop fuel S iid) =
        settler_loop fuel S iid (st\<lparr>st_out := st_out st @ x\<rparr>)"
      by (simp add: on_stdout_def bnd_def js_ret_def fun_eq_iff)
    then show ?thesis using Suc.IH [of "st\<lparr>st_out := st_out st @ x\<rparr>"] Suc.prems by simp
  qed
  show ?case
    using Suc.IH Suc.prems
    by (auto intro!: preserves_bnd quiet_invariant.ext [OF quiet] close out split: child_event.split)
qed simp

lemma payout_goes:
  assumes S: "ledger_refused (wr_os W)" and child: "announces_sig W json dest h" and fuel: "0 < wr_fuel W"
    and none: "settled_get w (pj_intent_id json) = None"
    and w: "forgetful d (toLowerCase (pj_intent_id json)) c w"
  shows "wp (runSolanaPayout W json dest h) (\<lambda>_. forgetful d (toLowerCase (pj_intent_id json)) (Suc c)) w"
proof -
  let ?S = "wr_os W" and ?i = "pj_intent_id json"
  let ?st = "\<lparr>st_out = [], st_err = [], st_sig = None\<rparr>" and ?env = "os_spawnSettle (wr_os W) (settle_env_of json dest h) (w_env w)"
  let ?w = "w\<lparr>w_events := w_events w @ [Ev_spawn (toLowerCase ?i) h], w_env := ?env\<rparr>"
  obtain fuel where f: "wr_fuel W = Suc fuel" using fuel by (cases "wr_fuel W") auto
  obtain x g e where ev: "os_childEvent ?S ?env = (Ok (C_stdout x), e)" "settling_sig x = Some g"
    using child unfolding announces_sig_def by (metis prod.collapse)
  have "forgetful d (toLowerCase ?i) c (?w\<lparr>w_env := e\<rparr>)"
    using w by (simp add: forgetful_def go_count_snoc is_go_def)
  then have "wp (on_stdout ?S ?i x ?st) (\<lambda>r w'. \<exists>st'. r = Ok st' \<and> st_sig st' \<noteq> None \<and>
      forgetful d (toLowerCase ?i) (Suc c) w') (?w\<lparr>w_env := e\<rparr>)"
    by (intro stdout_goes [OF S]) (simp_all add: ev)
  then have "wp (bnd (on_stdout ?S ?i x ?st) (settler_loop fuel ?S ?i)) (\<lambda>_. forgetful d (toLowerCase ?i) (Suc c)) (?w\<lparr>w_env := e\<rparr>)"
    by (rule wp_bndI) (auto intro: preservesD [OF settler_forgets [OF S]])
  then have "wp (settler_loop (wr_fuel W) ?S ?i ?st) (\<lambda>_. forgetful d (toLowerCase ?i) (Suc c)) ?w"
    by (simp add: f wp_bnd [of "ext _"] wp_ext ev)
  then show ?thesis
    using none
    by (simp add: runSolanaPayout_def spawn_settler_def Let_def wp_bnd [of "isAlreadySettled _"] wp_bnd [of "js_get _"]
        wp_sq [of "emit _"] wp_sq [of "ext_do _"] wp_simps is_settled_def is_settling_def)
qed

section \<open>The process forgets\<close>

lemma forgets_file:
  assumes "ledger_refused (wr_os W)"
  shows "process_invariant W (\<lambda>w. w_settled_disk w = d)"
proof (rule quiet_invariant.simple_process [where S = "wr_os W"])
  show "quiet_invariant (wr_os W) (\<lambda>w. w_settled_disk w = d)"
    by (rule core_only_quiet) (simp add: core_eq)
  have put: "wp (put_settled (wr_os W) i en) (\<lambda>_ w'. w_settled_disk w' = w_settled_disk w) w" for i en and w :: "'a world"
    by (rule wp_put_refused [OF assms, where k = "[]"]) simp
  show "preserves (\<lambda>w. w_settled_disk w = d) (markSettled (wr_os W) iid)"
    "preserves (\<lambda>w. w_settled_disk w = d) (markSettling (wr_os W) iid g)" for iid g
    unfolding markSettled_def markSettling_def
    by (rule preservesI; use put in \<open>auto simp: wp_simps\<close>)+
  show "preserves (\<lambda>w. w_settled_disk w = d) (setArbitrumStage (wr_os W) iid st p)" for iid st p
    by (rule preservesI, rule wp_setArbitrumStage) (auto simp: arb_stored_frame arb_unstored_frame)
  show "preserves (\<lambda>w. w_settled_disk w = d) (emit v)" for v :: event
    by (rule preservesI) (simp add: wp_simps)
qed simp_all

lemma steps_forget:
  assumes "ledger_refused (wr_os W)" "(orch_step W)\<^sup>*\<^sup>* s s'"
  shows "w_settled_disk (o_world s') = w_settled_disk (o_world s)"
  using assms(2)
proof (induction rule: rtranclp_induct)
  case (step s1 s2)
  have "w_settled_disk (o_world s2) = w_settled_disk (o_world s)"
    by (rule process_invariant.step_keeps [OF forgets_file [OF assms(1)] _ step.hyps(2) step.IH])
      (simp add: restart_def arb_load_def)
  then show ?case .
qed simp

text \<open>The process dies and starts again, and the intent's payout is run once more.\<close>

definition pay_again :: "'e wiring \<Rightarrow> proof_json \<Rightarrow> string \<Rightarrow> string \<Rightarrow> 'e world \<Rightarrow> 'e world" where
  "pay_again W json dest h w = snd (runSolanaPayout W json dest h (restart w))"

text \<open>C7: No write, no memory of a payout. Suppose writes of the settled ledger are refused (and other files can
  be written), and the intent is not in the ledger's file. Then whatever the process has done since,
  in any number of lives, and however often it has already told this payout to broadcast: if it dies,
  starts again and runs the payout, and the script announces its signature, the payout is told to broadcast
  again, and once more at each further death and start.\<close>

theorem refused_write_pays_twice:
  assumes "ledger_refused (wr_os W)" and "announces_sig W json dest h" and "0 < wr_fuel W"
    and "(orch_step W)\<^sup>*\<^sup>* s s'" and "lc_keys (w_settled_disk (o_world s))"
    and "jget (w_settled_disk (o_world s)) (toLowerCase (pj_intent_id json)) = None"
  shows "go_count (toLowerCase (pj_intent_id json)) (w_events ((pay_again W json dest h ^^ n) (o_world s'))) =
    go_count (toLowerCase (pj_intent_id json)) (w_events (o_world s')) + n"
proof -
  let ?k = "toLowerCase (pj_intent_id json)" and ?d = "w_settled_disk (o_world s)"
  have "forgetful ?d ?k (go_count ?k (w_events (o_world s')) + n) ((pay_again W json dest h ^^ n) (o_world s'))"
  proof (induction n)
    case 0
    then show ?case using steps_forget [OF assms(1,4)] by (simp add: forgetful_def)
  next
    case (Suc n)
    let ?w = "(pay_again W json dest h ^^ n) (o_world s')"
    have "settled_get (restart ?w) (pj_intent_id json) = None"
      using Suc assms(5,6)
      by (simp add: restart_def settled_get_def forgetful_def settled_restart del: settled_load.simps)
    moreover have "forgetful ?d ?k (go_count ?k (w_events (o_world s')) + n) (restart ?w)"
      using Suc by (simp add: forgetful_def restart_def arb_load_def)
    ultimately have "wp (runSolanaPayout W json dest h)
        (\<lambda>_. forgetful ?d ?k (Suc (go_count ?k (w_events (o_world s')) + n))) (restart ?w)"
      by (rule payout_goes [OF assms(1-3)])
    moreover have "(pay_again W json dest h ^^ Suc n) (o_world s') = snd (runSolanaPayout W json dest h (restart ?w))"
      by (simp add: pay_again_def [of W json dest h ?w])
    ultimately show ?case
      by (simp only: wp_def case_prod_beta add_Suc_right)
  qed
  then show ?thesis by (simp add: forgetful_def)
qed

text \<open>A process whose script always prints the same signature.\<close>

definition unwritable_wiring :: "script wiring" where
  "unwritable_wiring = \<lparr>wr_os = script_os
       \<lparr>os_write := \<lambda>f e. (if f = Settled_ledger_file then Wr_refused (js ''EACCES'') else Wr_ok, e),
        os_childEvent := \<lambda>e. (Ok (C_stdout ''SETTLING_SIG:g ''), e)\<rparr>,
     wr_env = [], wr_cfg = routing_cfg, wr_accounts = \<lparr>ac_orchestrator = ''o'', ac_solvers = []\<rparr>,
     wr_manager = ''m'', wr_toBase58 = \<lambda>_. Inr ''w'', wr_sha256 = \<lambda>_. [], wr_fuel = 2\<rparr>"

theorem refused_write_pays_twice_witness:
  "go_count (toLowerCase (pj_intent_id routing_json)) (w_events
     ((pay_again unwritable_wiring routing_json ''w'' ''z'' ^^ 2) (fresh_world blank_script))) = 2"
proof -
  let ?s = "\<lparr>o_up = False, o_world = fresh_world blank_script, o_queue = pq_empty\<rparr>"
  have refused: "ledger_refused (wr_os unwritable_wiring)"
    by (simp add: ledger_refused_def unwritable_wiring_def)
  have "settling_sig ''SETTLING_SIG:g '' = Some ''g''"
    by code_simp
  then have child: "announces_sig unwritable_wiring routing_json ''w'' ''z''"
    by (simp add: announces_sig_def unwritable_wiring_def)
  have start: "lc_keys (w_settled_disk (o_world ?s))"
    "jget (w_settled_disk (o_world ?s)) (toLowerCase (pj_intent_id routing_json)) = None" "0 < wr_fuel unwritable_wiring"
    by (simp_all add: fresh_world_def unwritable_wiring_def)
  from refused_write_pays_twice [OF refused child start(3) rtranclp.rtrancl_refl start(1,2), of 2] show ?thesis
    by (simp add: fresh_world_def go_count_def)
qed

end
