(* ===== verification/Rpc_Rotation.thy ===== *)
theory Rpc_Rotation
  imports Js_Value
begin

text \<open>
  \<^verbatim>\<open>rpc_rotation.ts\<close>: the transport that spreads RPC requests over several endpoints. The state is
  the health map that all transports of the process share and the start index of this one. What
  \<^verbatim>\<open>fetch\<close> answers (or that it throws, also by the abort of the timer) is a parameter, as are the
  clock and the timer.
\<close>

section \<open>Configuration\<close>

definition DEFAULT_COOLDOWN_SEC :: rat where "DEFAULT_COOLDOWN_SEC = 1800"
definition DEFAULT_TIMEOUT_MS :: rat where "DEFAULT_TIMEOUT_MS = 10000"
definition DEFAULT_SWEEP_RETRY_COUNT :: nat where "DEFAULT_SWEEP_RETRY_COUNT = 3"
definition DEFAULT_SWEEP_RETRY_DELAY_MS :: int where "DEFAULT_SWEEP_RETRY_DELAY_MS = 150"

text \<open>\<^verbatim>\<open>Number.isFinite(raw) && raw > 0 ? raw : default\<close>; \<^verbatim>\<open>Number(undefined)\<close> is NaN.\<close>

definition positive_or :: "string option \<Rightarrow> rat \<Rightarrow> rat" where
  "positive_or v d = (case v of None \<Rightarrow> d
     | Some s \<Rightarrow> (case js_Number s of Num q \<Rightarrow> if q > 0 then q else d | _ \<Rightarrow> d))"

definition cooldownSecFromEnv :: "env_vars \<Rightarrow> rat" where
  "cooldownSecFromEnv env = positive_or (map_of env ''RPC_COOLDOWN_SEC'') DEFAULT_COOLDOWN_SEC"

definition timeoutMsFromEnv :: "env_vars \<Rightarrow> rat" where
  "timeoutMsFromEnv env = positive_or (map_of env ''RPC_TIMEOUT_MS'') DEFAULT_TIMEOUT_MS"

section \<open>The health of the endpoints\<close>

type_synonym health = "(string, rat) jmap"

text \<open>The time until which an endpoint cools down; reading it makes the entry.\<close>

definition cooled_until :: "health \<Rightarrow> string \<Rightarrow> rat" where
  "cooled_until h url = (case jget h url of None \<Rightarrow> 0 | Some t \<Rightarrow> t)"

definition getHealth :: "string \<Rightarrow> health \<Rightarrow> rat \<times> health" where
  "getHealth url h = (case jget h url of Some t \<Rightarrow> (t, h) | None \<Rightarrow> (0, jput url 0 h))"

record rpc_error =
  re_code :: "int option"
  re_message :: string

definition isCapacityError :: "rpc_error \<Rightarrow> bool" where
  "isCapacityError err = (let msg = toLowerCase (re_message err) in
     has_text ''429'' msg \<or> has_text ''capacity'' msg \<or> has_text ''rate limit'' msg \<or>
     has_text ''too many requests'' msg)"

text \<open>The filter reads, and so creates, the health of every endpoint it looks at.\<close>

fun available_of :: "string list \<Rightarrow> rat \<Rightarrow> nat list \<Rightarrow> health \<Rightarrow> nat list \<times> health" where
  "available_of urls nowMs [] h = ([], h)"
| "available_of urls nowMs (i # ids) h =
     (case getHealth (urls ! i) h of (t, h1) \<Rightarrow>
      case available_of urls nowMs ids h1 of (rest, h2) \<Rightarrow>
        (if t \<le> nowMs then i # rest else rest, h2))"

text \<open>The sort is stable and only reads entries that the filter has made.\<close>

definition round_robin :: "nat \<Rightarrow> nat \<Rightarrow> nat list" where
  "round_robin n startIndex = map (\<lambda>i. (startIndex + i) mod n) [0..<n]"

definition rotationOrder :: "string list \<Rightarrow> nat \<Rightarrow> rat \<Rightarrow> health \<Rightarrow> nat list \<times> health" where
  "rotationOrder urls startIndex nowMs h =
     (let order = round_robin (length urls) startIndex in
      case available_of urls nowMs order h of (available, h') \<Rightarrow>
        if available \<noteq> [] then (available, h')
        else (sort_key (\<lambda>i. cooled_until h' (urls ! i)) order, h'))"

text \<open>
  Marks an endpoint. The line that announces a new window renders its end as a date, which throws
  past the largest date; the result says whether a line was printed.
\<close>

definition MAX_DATE_MS :: rat where "MAX_DATE_MS = 8640000000000000"

definition recordCapacityError :: "string \<Rightarrow> rat \<Rightarrow> rat \<Rightarrow> health \<Rightarrow> (rpc_error + bool) \<times> health" where
  "recordCapacityError url nowMs cooldownSec h =
     (case getHealth url h of (t, h1) \<Rightarrow>
      let until = nowMs + cooldownSec * 1000; h2 = jput url until h1 in
      if t > nowMs then (Inr False, h2)
      else if \<bar>until\<bar> > MAX_DATE_MS then (Inl \<lparr>re_code = None, re_message = ''Invalid time value''\<rparr>, h2)
      else (Inr True, h2))"

section \<open>One request to one endpoint\<close>

text \<open>
  What \<^verbatim>\<open>fetch\<close> gives: an exception, or a status with a body that parses as JSON or not. An error
  object of the body has a code and a message if they are a number and a text.
\<close>

datatype 'j body = Unparsable string | Parsed "(int option \<times> string option) option" 'j

record 'j reply =
  ry_ok :: bool
  ry_status :: int
  ry_body :: "'j body"

definition code_or_undefined :: "int option \<Rightarrow> string" where
  "code_or_undefined c = (case c of None \<Rightarrow> ''undefined'' | Some n \<Rightarrow> bigint_toString n)"

definition text_or_undefined :: "string option \<Rightarrow> string" where
  "text_or_undefined m = (case m of None \<Rightarrow> ''undefined'' | Some t \<Rightarrow> t)"

definition jsonRpcError :: "int option \<Rightarrow> string option \<Rightarrow> string \<Rightarrow> rpc_error" where
  "jsonRpcError code message pre =
     \<lparr>re_code = code, re_message = pre @ ''RPC error '' @ code_or_undefined code @ '': '' @ text_or_undefined message\<rparr>"

definition http_text :: "int \<Rightarrow> string" where
  "http_text status = ''HTTP '' @ bigint_toString status @ '' from RPC endpoint''"

definition rpcPost :: "(string + 'j reply) \<Rightarrow> rpc_error + 'j" where
  "rpcPost answer = (case answer of
       Inl m \<Rightarrow> Inl \<lparr>re_code = None, re_message = m\<rparr>
     | Inr res \<Rightarrow>
         if \<not> ry_ok res then
           (case ry_body res of
              Parsed (Some (Some code, Some message)) _ \<Rightarrow>
                Inl (jsonRpcError (Some code) (Some message) (http_text (ry_status res) @ '': ''))
            | _ \<Rightarrow> Inl \<lparr>re_code = None, re_message = http_text (ry_status res)\<rparr>)
         else
           (case ry_body res of
              Unparsable m \<Rightarrow> Inl \<lparr>re_code = None, re_message = m\<rparr>
            | Parsed (Some (code, message)) _ \<Rightarrow> Inl (jsonRpcError code message [])
            | Parsed None value \<Rightarrow> Inr value))"

section \<open>Sweeps\<close>

record ('e, 'j) net =
  nt_post :: "string \<Rightarrow> 'e \<Rightarrow> (string + 'j reply) \<times> 'e"
  nt_now :: "'e \<Rightarrow> int"
  nt_sleep :: "int \<Rightarrow> 'e \<Rightarrow> 'e"

text \<open>
  The state of one transport in its surroundings; \<open>rp_posts\<close> and \<open>rp_sleeps\<close> are the trace of the
  endpoints tried (with what came of it) and of the pauses.
\<close>

record 'e rpc =
  rp_health :: health
  rp_next :: nat
  rp_posts :: "(nat \<times> bool) list"
  rp_sleeps :: "int list"
  rp_env :: 'e

definition no_error :: rpc_error where
  "no_error = \<lparr>re_code = None, re_message = ''undefined''\<rparr>"

fun try_urls :: "('e, 'j) net \<Rightarrow> string list \<Rightarrow> rat \<Rightarrow> nat list \<Rightarrow> rpc_error \<Rightarrow> 'e rpc \<Rightarrow> (rpc_error + 'j) \<times> 'e rpc" where
  "try_urls N urls cooldownSec [] lastErr s = (Inl lastErr, s)"
| "try_urls N urls cooldownSec (idx # rest) lastErr s =
     (case nt_post N (urls ! idx) (rp_env s) of (answer, e) \<Rightarrow>
      case rpcPost answer of
        Inr result \<Rightarrow> (Inr result, s\<lparr>rp_next := (idx + 1) mod length urls, rp_posts := rp_posts s @ [(idx, True)], rp_env := e\<rparr>)
      | Inl err \<Rightarrow>
          (let s1 = s\<lparr>rp_posts := rp_posts s @ [(idx, False)], rp_env := e\<rparr> in
           if isCapacityError err then
             (case recordCapacityError (urls ! idx) (of_int (nt_now N e)) cooldownSec (rp_health s1) of
                (Inl thrown, h) \<Rightarrow> (Inl thrown, s1\<lparr>rp_health := h\<rparr>)
              | (Inr _, h) \<Rightarrow> try_urls N urls cooldownSec rest err (s1\<lparr>rp_health := h\<rparr>))
           else try_urls N urls cooldownSec rest err s1))"

definition attemptSweep :: "('e, 'j) net \<Rightarrow> string list \<Rightarrow> rat \<Rightarrow> 'e rpc \<Rightarrow> (rpc_error + 'j) \<times> 'e rpc" where
  "attemptSweep N urls cooldownSec s =
     (case rotationOrder urls (rp_next s) (of_int (nt_now N (rp_env s))) (rp_health s) of (order, h) \<Rightarrow>
        try_urls N urls cooldownSec order no_error (s\<lparr>rp_health := h\<rparr>))"

text \<open>The loop from attempt \<open>attempt\<close> on, with \<open>left\<close> attempts after it.\<close>

fun request_from :: "nat \<Rightarrow> ('e, 'j) net \<Rightarrow> string list \<Rightarrow> rat \<Rightarrow> nat \<Rightarrow> 'e rpc \<Rightarrow> (rpc_error + 'j) \<times> 'e rpc" where
  "request_from 0 N urls cooldownSec attempt s = attemptSweep N urls cooldownSec s"
| "request_from (Suc left) N urls cooldownSec attempt s =
     (case attemptSweep N urls cooldownSec s of
        (Inr result, s1) \<Rightarrow> (Inr result, s1)
      | (Inl err, s1) \<Rightarrow>
          (let ms = 2 ^ attempt * DEFAULT_SWEEP_RETRY_DELAY_MS in
           request_from left N urls cooldownSec (attempt + 1)
             (s1\<lparr>rp_sleeps := rp_sleeps s1 @ [ms], rp_env := nt_sleep N ms (rp_env s1)\<rparr>)))"

definition request :: "('e, 'j) net \<Rightarrow> string list \<Rightarrow> rat \<Rightarrow> 'e rpc \<Rightarrow> (rpc_error + 'j) \<times> 'e rpc" where
  "request N urls cooldownSec s = request_from DEFAULT_SWEEP_RETRY_COUNT N urls cooldownSec 0 s"

definition createRotatingHttpTransport ::
  "env_vars \<Rightarrow> string list \<Rightarrow> string \<Rightarrow> string + (('e, 'j) net \<Rightarrow> 'e rpc \<Rightarrow> (rpc_error + 'j) \<times> 'e rpc)" where
  "createRotatingHttpTransport env urls clientLabel =
     (if urls = [] then Inl (''createRotatingHttpTransport('' @ clientLabel @ ''): no URLs configured'')
      else Inr (\<lambda>N. request N urls (cooldownSecFromEnv env)))"

section \<open>The order\<close>

lemma getHealth_same [simp]: "cooled_until (snd (getHealth url h)) u = cooled_until h u"
  by (auto simp: getHealth_def cooled_until_def split: option.split)

lemma getHealth_fst [simp]: "fst (getHealth url h) = cooled_until h url"
  by (simp add: getHealth_def cooled_until_def split: option.split)

lemma available_of_spec:
  "available_of urls nowMs ids h = (av, h') \<Longrightarrow>
   av = filter (\<lambda>i. cooled_until h (urls ! i) \<le> nowMs) ids \<and> (\<forall>u. cooled_until h' u = cooled_until h u)"
proof (induction ids arbitrary: h av h')
  case (Cons i ids)
  obtain t h1 where g: "getHealth (urls ! i) h = (t, h1)" by fastforce
  then have t: "t = cooled_until h (urls ! i)" "\<And>u. cooled_until h1 u = cooled_until h u"
    using getHealth_fst [of "urls ! i" h] getHealth_same [of "urls ! i" h] by simp_all
  obtain rest h2 where r: "available_of urls nowMs ids h1 = (rest, h2)" by fastforce
  show ?case
    using Cons.IH [OF r] Cons.prems by (auto simp: g r t split: if_splits)
qed simp

lemma round_robin_props:
  assumes "0 < n"
  shows "distinct (round_robin n k)" and "set (round_robin n k) = {..<n}" and "hd (round_robin n k) = k mod n"
proof -
  have inj: "inj_on (\<lambda>i. (k + i) mod n) {0..<n}"
  proof (rule inj_onI)
    fix i j assume ij: "i \<in> {0..<n}" "j \<in> {0..<n}" and eq: "(k + i) mod n = (k + j) mod n"
    have "int (k + i) mod int n = int (k + j) mod int n"
      using eq by (metis of_nat_mod)
    then have "int n dvd int (k + i) - int (k + j)"
      by (simp add: mod_eq_dvd_iff)
    then have "int n dvd int i - int j" by simp
    moreover have "\<bar>int i - int j\<bar> < int n" using ij by simp
    ultimately show "i = j"
      using dvd_imp_le_int [of "int i - int j" "int n"] by force
  qed
  then show "distinct (round_robin n k)"
    by (simp add: round_robin_def distinct_map)
  have "(\<lambda>i. (k + i) mod n) ` {0..<n} \<subseteq> {..<n}"
    using assms by auto
  moreover have "card ((\<lambda>i. (k + i) mod n) ` {0..<n}) = card {..<n}"
    using card_image [OF inj] by simp
  ultimately have "(\<lambda>i. (k + i) mod n) ` {0..<n} = {..<n}"
    by (simp add: card_subset_eq)
  then show "set (round_robin n k) = {..<n}"
    by (simp add: round_robin_def)
  show "hd (round_robin n k) = k mod n"
    using assms by (simp add: round_robin_def hd_map)
qed

section \<open>What a request does\<close>

text \<open>The posts of one or more sweeps: all fail, or all but the last one, which moves the start index.\<close>

definition went :: "nat \<Rightarrow> (rpc_error + 'j) \<Rightarrow> (nat \<times> bool) list \<Rightarrow> nat \<Rightarrow> nat \<Rightarrow> bool" where
  "went n r ps old new \<longleftrightarrow> (case r of
       Inl e \<Rightarrow> (\<forall>p \<in> set ps. \<not> snd p) \<and> new = old
     | Inr v \<Rightarrow> ps \<noteq> [] \<and> snd (last ps) \<and> (\<forall>p \<in> set (butlast ps). \<not> snd p) \<and>
         new = (fst (last ps) + 1) mod n)"

lemma try_urls_went:
  "try_urls N urls cd order err s = (r, s') \<Longrightarrow>
   \<exists>ps. rp_posts s' = rp_posts s @ ps \<and> map fst ps = take (length ps) order \<and> rp_sleeps s' = rp_sleeps s \<and>
     went (length urls) r ps (rp_next s) (rp_next s')"
proof (induction order arbitrary: err s)
  case Nil
  then show ?case by (auto simp: went_def intro!: exI [of _ "[]"])
next
  case (Cons idx rest)
  obtain answer e where post: "nt_post N (urls ! idx) (rp_env s) = (answer, e)" by fastforce
  let ?s1 = "s\<lparr>rp_posts := rp_posts s @ [(idx, False)], rp_env := e\<rparr>"
  have failed: "\<exists>ps. rp_posts s' = rp_posts s @ ps \<and> map fst ps = take (length ps) (idx # rest) \<and> rp_sleeps s' = rp_sleeps s \<and>
      went (length urls) r ps (rp_next s) (rp_next s')"
    if later: "try_urls N urls cd rest err' (?s1\<lparr>rp_health := h\<rparr>) = (r, s')" for err' h
  proof -
    obtain ps where ps: "rp_posts s' = rp_posts ?s1 @ ps" "map fst ps = take (length ps) rest" "rp_sleeps s' = rp_sleeps s"
      "went (length urls) r ps (rp_next s) (rp_next s')"
      using Cons.IH [OF later] by auto
    then have "went (length urls) r ((idx, False) # ps) (rp_next s) (rp_next s')"
      by (auto simp: went_def split: sum.splits)
    with ps show ?thesis
      by (intro exI [of _ "(idx, False) # ps"]) simp
  qed
  show ?case
  proof (cases "rpcPost answer")
    case (Inr v)
    then have "r = Inr v" "s' = s\<lparr>rp_next := (idx + 1) mod length urls, rp_posts := rp_posts s @ [(idx, True)], rp_env := e\<rparr>"
      using Cons.prems by (auto simp: post)
    then show ?thesis
      by (intro exI [of _ "[(idx, True)]"]) (simp add: went_def)
  next
    case (Inl er)
    obtain q h where rec: "recordCapacityError (urls ! idx) (of_int (nt_now N e)) cd (rp_health s) = (q, h)"
      by fastforce
    have health: "?s1\<lparr>rp_health := rp_health s\<rparr> = ?s1" by simp
    show ?thesis
    proof (cases "isCapacityError er")
      case False
      then have "try_urls N urls cd rest er (?s1\<lparr>rp_health := rp_health s\<rparr>) = (r, s')"
        using Cons.prems Inl post by (simp add: health)
      then show ?thesis by (rule failed)
    next
      case True
      show ?thesis
      proof (cases q)
        case Inr
        then have "try_urls N urls cd rest er (?s1\<lparr>rp_health := h\<rparr>) = (r, s')"
          using Cons.prems Inl post rec True by simp
        then show ?thesis by (rule failed)
      next
        case (Inl er')
        then have "r = Inl er'" "s' = ?s1\<lparr>rp_health := h\<rparr>"
          using Cons.prems \<open>rpcPost answer = Inl er\<close> post rec True by simp_all
        then show ?thesis
          by (intro exI [of _ "[(idx, False)]"]) (simp add: went_def)
      qed
    qed
  qed
qed

lemma rotationOrder_within:
  assumes "rotationOrder urls k now h = (order, h')"
  shows "distinct order" and "length order \<le> length urls"
proof -
  have rr: "distinct (round_robin (length urls) k)" "length (round_robin (length urls) k) = length urls"
    using round_robin_props(1) [of "length urls" k] by (cases "urls = []") (simp_all add: round_robin_def)
  show "distinct order"
    using assms rr by (auto simp: rotationOrder_def Let_def dest!: available_of_spec split: prod.splits if_splits)
  show "length order \<le> length urls"
    using assms rr by (auto simp: rotationOrder_def Let_def dest!: available_of_spec split: prod.splits if_splits
      intro: order.trans [OF length_filter_le])
qed

text \<open>Posts of which each endpoint gets at most \<open>k\<close>.\<close>

definition at_most_each :: "nat \<Rightarrow> (nat \<times> bool) list \<Rightarrow> bool" where
  "at_most_each k ps \<longleftrightarrow> (\<forall>i. count_list (map fst ps) i \<le> k)"

lemma at_most_each_append: "at_most_each j ps \<Longrightarrow> at_most_each k qs \<Longrightarrow> at_most_each (j + k) (ps @ qs)"
  by (auto simp: at_most_each_def intro: add_mono)

lemma at_most_each_mono: "at_most_each j ps \<Longrightarrow> j \<le> k \<Longrightarrow> at_most_each k ps"
  by (auto simp: at_most_each_def intro: order.trans)

lemma count_list_distinct: "distinct xs \<Longrightarrow> count_list xs x \<le> 1"
  by (induction xs) (auto simp: count_list_0_iff)

lemma at_most_each_distinct: "distinct (map fst ps) \<Longrightarrow> at_most_each 1 ps"
  unfolding at_most_each_def by (blast intro: count_list_distinct)

lemma sweep_went:
  assumes "attemptSweep N urls cd s = (r, s')"
  shows "\<exists>ps. rp_posts s' = rp_posts s @ ps \<and> length ps \<le> length urls \<and> at_most_each 1 ps \<and>
     rp_sleeps s' = rp_sleeps s \<and> went (length urls) r ps (rp_next s) (rp_next s')"
proof -
  obtain order h where order: "rotationOrder urls (rp_next s) (of_int (nt_now N (rp_env s))) (rp_health s) = (order, h)"
    by fastforce
  with assms have "try_urls N urls cd order no_error (s\<lparr>rp_health := h\<rparr>) = (r, s')"
    by (simp add: attemptSweep_def)
  from try_urls_went [OF this] obtain ps where ps: "rp_posts s' = rp_posts s @ ps"
    "map fst ps = take (length ps) order" "rp_sleeps s' = rp_sleeps s" "went (length urls) r ps (rp_next s) (rp_next s')"
    by auto
  have "length ps \<le> length order"
    using arg_cong [OF ps(2), of length] by simp
  moreover have "at_most_each 1 ps"
    using rotationOrder_within(1) [OF order] by (intro at_most_each_distinct) (simp only: ps(2) distinct_take)
  ultimately show ?thesis
    using ps rotationOrder_within(2) [OF order] by (auto intro: order.trans)
qed

lemma request_from_went:
  "request_from left N urls cd k s = (r, s') \<Longrightarrow>
   \<exists>ps j. rp_posts s' = rp_posts s @ ps \<and> length ps \<le> (j + 1) * length urls \<and> at_most_each (j + 1) ps \<and> j \<le> left \<and>
     rp_sleeps s' = rp_sleeps s @ map (\<lambda>i. 2 ^ i * DEFAULT_SWEEP_RETRY_DELAY_MS) [k..<k + j] \<and>
     ((\<exists>e. r = Inl e) \<longrightarrow> j = left) \<and> went (length urls) r ps (rp_next s) (rp_next s')"
proof (induction left arbitrary: k s)
  case 0
  then show ?case using sweep_went [of N urls cd s r s'] by auto
next
  case (Suc left)
  obtain r1 s1 where sweep: "attemptSweep N urls cd s = (r1, s1)" by fastforce
  obtain ps1 where ps1: "rp_posts s1 = rp_posts s @ ps1" "length ps1 \<le> length urls" "rp_sleeps s1 = rp_sleeps s"
    "went (length urls) r1 ps1 (rp_next s) (rp_next s1)" "at_most_each 1 ps1"
    using sweep_went [OF sweep] by blast
  show ?case
  proof (cases r1)
    case (Inr v)
    then have "r = Inr v" "s' = s1"
      using Suc.prems sweep by simp_all
    then show ?thesis
      using ps1 Inr by (intro exI [of _ ps1] exI [of _ 0]) simp
  next
    case (Inl e)
    let ?ms = "2 ^ k * DEFAULT_SWEEP_RETRY_DELAY_MS"
    have "request_from left N urls cd (k + 1) (s1\<lparr>rp_sleeps := rp_sleeps s1 @ [?ms],
        rp_env := nt_sleep N ?ms (rp_env s1)\<rparr>) = (r, s')"
      using Suc.prems sweep Inl by (simp add: Let_def)
    from Suc.IH [OF this] obtain ps j where
      ps: "rp_posts s' = rp_posts s1 @ ps" "length ps \<le> (j + 1) * length urls" "j \<le> left"
      "rp_sleeps s' = (rp_sleeps s1 @ [?ms]) @ map (\<lambda>i. 2 ^ i * DEFAULT_SWEEP_RETRY_DELAY_MS) [k + 1..<k + 1 + j]"
      "(\<exists>e. r = Inl e) \<longrightarrow> j = left" "went (length urls) r ps (rp_next s1) (rp_next s')" "at_most_each (j + 1) ps"
      by auto
    have each: "at_most_each (j + 2) (ps1 @ ps)"
      using at_most_each_append [OF ps1(5) ps(7)] by simp
    have w: "went (length urls) r (ps1 @ ps) (rp_next s) (rp_next s')"
      using ps(6) ps1(4) Inl by (auto simp: went_def butlast_append split: sum.splits)
    have "[k..<k + (j + 1)] = k # [k + 1..<k + 1 + j]"
      by (simp add: upt_conv_Cons)
    then show ?thesis
      using ps ps1 w each by (intro exI [of _ "ps1 @ ps"] exI [of _ "j + 1"]) simp
  qed
qed

section \<open>Properties\<close>

text \<open>C30: The order in which the endpoints are tried: each at most once, at least one, beginning with the
  start index when it is available; exactly the endpoints that do not cool down or, when all of
  them do, all of them, those that recover soonest first.\<close>

theorem rotationOrder_spec:
  assumes "startIndex < length urls" and "rotationOrder urls startIndex now h = (order, h')"
  shows "distinct order \<and> order \<noteq> [] \<and>
    (cooled_until h (urls ! startIndex) > now \<or> hd order = startIndex) \<and>
    (set order = {i. i < length urls \<and> cooled_until h (urls ! i) \<le> now} \<or>
     {i. i < length urls \<and> cooled_until h (urls ! i) \<le> now} = {} \<and> set order = {..<length urls} \<and>
     sorted (map (\<lambda>i. cooled_until h (urls ! i)) order))"
proof -
  let ?rr = "round_robin (length urls) startIndex" and ?ok = "\<lambda>i. cooled_until h (urls ! i) \<le> now"
  have n: "0 < length urls" using assms(1) by linarith
  note rr = round_robin_props [OF n, of startIndex]
  obtain av h1 where av: "available_of urls now ?rr h = (av, h1)" by fastforce
  from available_of_spec [OF av] have spec: "av = filter ?ok ?rr" "\<And>u. cooled_until h1 u = cooled_until h u"
    by simp_all
  have ne: "?rr \<noteq> []" using n by (simp add: round_robin_def)
  show ?thesis
  proof (cases "av = []")
    case True
    then have order: "order = sort_key (\<lambda>i. cooled_until h (urls ! i)) ?rr"
      using assms(2) by (simp add: rotationOrder_def av spec(2))
    have none: "\<not> ?ok i" if "i < length urls" for i
      using True that rr(2) unfolding spec(1) by (auto simp: filter_empty_conv)
    have len: "length order = length ?rr"
      using order by simp
    have "set order = {..<length urls}" "distinct order" "sorted (map (\<lambda>i. cooled_until h (urls ! i)) order)"
      using order rr(1,2) by simp_all
    moreover have "order \<noteq> []"
      using len ne by force
    moreover have "cooled_until h (urls ! startIndex) > now"
      using none [OF assms(1)] by (simp add: not_le)
    moreover have "{i. i < length urls \<and> ?ok i} = {}"
      using none by blast
    ultimately show ?thesis by blast
  next
    case False
    then have order: "order = filter ?ok ?rr"
      using assms(2) spec(1) by (simp add: rotationOrder_def av)
    have "hd order = startIndex" if "?ok startIndex"
      using rr(3) assms(1) ne that unfolding order by (cases ?rr) auto
    moreover have "distinct order" "set order = {i. i < length urls \<and> ?ok i}"
      using order rr(1,2) by auto
    moreover have "order \<noteq> []"
      using False order spec(1) by metis
    ultimately show ?thesis
      using leI by blast
  qed
qed

theorem rotationOrder_witness:
  "\<exists>order h'. rotationOrder [''a'', ''b''] 1 50 [(''b'', 90), (''a'', 60)] = (order, h') \<and>
     sorted (map (\<lambda>i. cooled_until [(''b'', 90), (''a'', 60)] ([''a'', ''b''] ! i)) order) \<and>
     set order = {..<length [''a'', ''b'']}"
proof -
  let ?U = "[''a'', ''b'']" and ?h = "[(''b'', 90), (''a'', 60)] :: health"
  obtain order h' where run: "rotationOrder ?U 1 50 ?h = (order, h')"
    by fastforce
  have start: "1 < length ?U" by simp
  have "\<not> cooled_until ?h (?U ! i) \<le> 50" if "i < length ?U" for i
  proof -
    from that have "i = 0 \<or> i = 1" by auto
    then show ?thesis by (auto simp: cooled_until_def)
  qed
  then have none: "{i. i < length ?U \<and> cooled_until ?h (?U ! i) \<le> 50} = {}"
    by blast
  note spec = rotationOrder_spec [OF start run]
  from spec have "order \<noteq> []" by (elim conjE)
  with spec none have "sorted (map (\<lambda>i. cooled_until ?h (?U ! i)) order)" "set order = {..<length ?U}"
    unfolding none by (metis set_empty)+
  with run show ?thesis by blast
qed

lemma went_outcomes:
  "went n r ps old new \<Longrightarrow> (case r of
     Inl e \<Rightarrow> map snd ps = replicate (length ps) False \<and> new = old
   | Inr v \<Rightarrow> map snd ps = replicate (length ps - 1) False @ [True] \<and> new = (fst (last ps) + 1) mod n)"
proof -
  have all: "map snd qs = replicate (length qs) False" if "\<forall>p \<in> set qs. \<not> snd p" for qs :: "(nat \<times> bool) list"
    using that by (induction qs) auto
  assume "went n r ps old new"
  then show ?thesis
    by (cases ps rule: rev_cases) (auto simp: went_def all replicate_append_same split: sum.splits)
qed

text \<open>C29: A request ends after at most four sweeps, in each of which an endpoint is posted to at most
  once, so at most four times in all, with pauses of 150, 300 and 600 ms between them; it succeeds
  with its last post, whose successor is where the next request starts, and it fails only after all
  four sweeps and only if no post succeeded.\<close>

theorem request_bounded:
  "case request N urls cooldownSec s of (r, s') \<Rightarrow>
     \<exists>ps j. rp_posts s' = rp_posts s @ ps \<and> length ps \<le> 4 * length urls \<and>
       (\<forall>i. count_list (map fst ps) i \<le> j + 1) \<and> j \<le> 3 \<and>
       rp_sleeps s' = rp_sleeps s @ take j [150, 300, 600] \<and>
       (case r of Inl e \<Rightarrow> j = 3 \<and> map snd ps = replicate (length ps) False \<and> rp_next s' = rp_next s
        | Inr v \<Rightarrow> map snd ps = replicate (length ps - 1) False @ [True] \<and>
            rp_next s' = (fst (last ps) + 1) mod length urls)"
proof -
  obtain r s' where run: "request N urls cooldownSec s = (r, s')" by fastforce
  then obtain ps j where *: "rp_posts s' = rp_posts s @ ps" "length ps \<le> (j + 1) * length urls" "j \<le> 3"
    "rp_sleeps s' = rp_sleeps s @ map (\<lambda>i. 2 ^ i * DEFAULT_SWEEP_RETRY_DELAY_MS) [0..<j]"
    "(\<exists>e. r = Inl e) \<longrightarrow> j = 3" "went (length urls) r ps (rp_next s) (rp_next s')" "at_most_each (j + 1) ps"
    unfolding request_def DEFAULT_SWEEP_RETRY_COUNT_def using request_from_went [of 3 N urls cooldownSec 0 s r s'] by auto
  have len: "length ps \<le> 4 * length urls"
    using *(3) by (intro order.trans [OF *(2)] mult_right_mono) simp_all
  moreover have "\<forall>i. count_list (map fst ps) i \<le> j + 1"
    using *(7) by (simp add: at_most_each_def)
  moreover have "map (\<lambda>i. 2 ^ i * DEFAULT_SWEEP_RETRY_DELAY_MS) [0..<j] = take j [150, 300, 600]"
  proof -
    have "j = 0 \<or> j = 1 \<or> j = 2 \<or> j = 3" using *(3) by linarith
    then show ?thesis
      by (auto simp: DEFAULT_SWEEP_RETRY_DELAY_MS_def upt_rec)
  qed
  ultimately show ?thesis
    using * went_outcomes [OF *(6)] unfolding run
    by (auto split: sum.splits intro!: exI [of _ ps] exI [of _ j])
qed

text \<open>An error body keeps its numeric code whatever the HTTP status, and every answer with status 429
  counts as a capacity error, whatever its body.\<close>

theorem rpcPost_errors:
  "(\<exists>e. rpcPost (Inr \<lparr>ry_ok = ok, ry_status = status, ry_body = Parsed (Some (Some code, Some message)) v\<rparr>) = Inl e \<and>
      re_code e = Some code) \<and>
   (\<exists>e. rpcPost (Inr \<lparr>ry_ok = False, ry_status = 429, ry_body = b\<rparr>) = Inl e \<and> isCapacityError e)"
proof -
  have shown: "toLowerCase (http_text 429) = ''http 429 from rpc endpoint''"
    by code_simp
  have cap: "has_text ''429'' (toLowerCase (http_text 429))"
    unfolding shown by simp
  then have "has_text ''429'' (toLowerCase (http_text 429 @ x))" for x
    by (simp add: has_text_before)
  with cap show ?thesis
    by (auto simp: rpcPost_def jsonRpcError_def isCapacityError_def Let_def
        split: body.split option.split prod.split)
qed

end
