(* ===== verification/Rpc_Process.thy ===== *)
theory Rpc_Process
  imports Rpc_Rotation
begin

text \<open>
  The transports of one process, with the requests of all of them in any interleaving. What runs
  between two \<^verbatim>\<open>await\<close>s of \<^verbatim>\<open>createRotatingHttpTransport\<close> is one segment: from the begin of a sweep to
  its first post, from the answer of a post to the next one or to the end of the sweep, from the end of
  a pause to the first post of the next sweep. The health map is shared by all transports, the start
  index by the requests of one; the answers and the clock are arbitrary. The trace records what was
  done, in order.
\<close>

section \<open>Segments\<close>

datatype 'j rq_state = Posting "nat list" | Pausing | Done "rpc_error + 'j"

record 'j rq =
  rq_transport :: nat
  rq_attempt :: nat
  rq_phase :: "'j rq_state"

text \<open>
  A sweep of a request of a transport begins at some time with an order; a request posts to a URL; a
  URL is marked at some time, and the line that says so is printed or not; a pause.
\<close>

datatype rpc_event =
    Sweep nat nat rat "nat list"
  | Post nat string
  | Capacity string rat bool
  | Pause nat int

record 'j rpcs =
  rs_health :: health
  rs_next :: "nat \<Rightarrow> nat"
  rs_requests :: "'j rq list"
  rs_trace :: "rpc_event list"

definition set_phase :: "nat \<Rightarrow> 'j rq_state \<Rightarrow> 'j rpcs \<Rightarrow> 'j rpcs" where
  "set_phase r ph p = p\<lparr>rs_requests := (rs_requests p)[r := (rs_requests p ! r)\<lparr>rq_phase := ph\<rparr>]\<rparr>"

definition note_rpc :: "rpc_event \<Rightarrow> 'j rpcs \<Rightarrow> 'j rpcs" where
  "note_rpc v p = p\<lparr>rs_trace := rs_trace p @ [v]\<rparr>"

text \<open>A sweep that throws is followed by a pause, or by the end of the request.\<close>

definition sweep_threw :: "nat \<Rightarrow> rpc_error \<Rightarrow> 'j rpcs \<Rightarrow> 'j rpcs" where
  "sweep_threw r err p =
     (let attempt = rq_attempt (rs_requests p ! r) in
      if attempt < DEFAULT_SWEEP_RETRY_COUNT then
        note_rpc (Pause r (2 ^ attempt * DEFAULT_SWEEP_RETRY_DELAY_MS)) (set_phase r Pausing p)
      else set_phase r (Done (Inl err)) p)"

text \<open>The next post of the sweep, whose last error so far is \<open>err\<close>.\<close>

definition post_next :: "(nat \<Rightarrow> string list) \<Rightarrow> nat \<Rightarrow> nat list \<Rightarrow> rpc_error \<Rightarrow> 'j rpcs \<Rightarrow> 'j rpcs" where
  "post_next U r order err p = (case order of
       [] \<Rightarrow> sweep_threw r err p
     | idx # _ \<Rightarrow> note_rpc (Post r (U (rq_transport (rs_requests p ! r)) ! idx)) (set_phase r (Posting order) p))"

definition begin_sweep :: "(nat \<Rightarrow> string list) \<Rightarrow> nat \<Rightarrow> rat \<Rightarrow> 'j rpcs \<Rightarrow> 'j rpcs" where
  "begin_sweep U r nowMs p =
     (let t = rq_transport (rs_requests p ! r) in
      case rotationOrder (U t) (rs_next p t) nowMs (rs_health p) of (order, h) \<Rightarrow>
        post_next U r order no_error (note_rpc (Sweep r t nowMs order) (p\<lparr>rs_health := h\<rparr>)))"

definition start_request :: "(nat \<Rightarrow> string list) \<Rightarrow> nat \<Rightarrow> rat \<Rightarrow> 'j rpcs \<Rightarrow> 'j rpcs" where
  "start_request U t nowMs p =
     begin_sweep U (length (rs_requests p)) nowMs (p\<lparr>rs_requests := rs_requests p @
       [\<lparr>rq_transport = t, rq_attempt = 0, rq_phase = Pausing\<rparr>]\<rparr>)"

definition pause_over :: "(nat \<Rightarrow> string list) \<Rightarrow> nat \<Rightarrow> rat \<Rightarrow> 'j rpcs \<Rightarrow> 'j rpcs" where
  "pause_over U r nowMs p =
     begin_sweep U r nowMs (p\<lparr>rs_requests := (rs_requests p)[r :=
       (rs_requests p ! r)\<lparr>rq_attempt := rq_attempt (rs_requests p ! r) + 1\<rparr>]\<rparr>)"

text \<open>The answer to the post of request \<open>r\<close> to its transport's endpoint \<open>idx\<close>; \<open>rest\<close> is left of the order.\<close>

definition post_answered ::
  "(nat \<Rightarrow> string list) \<Rightarrow> rat \<Rightarrow> nat \<Rightarrow> nat \<Rightarrow> nat list \<Rightarrow> (string + 'j reply) \<Rightarrow> rat \<Rightarrow> 'j rpcs \<Rightarrow> 'j rpcs" where
  "post_answered U cooldownSec r idx rest answer nowMs p =
     (let t = rq_transport (rs_requests p ! r) in
      case rpcPost answer of
        Inr result \<Rightarrow> set_phase r (Done (Inr result))
          (p\<lparr>rs_next := (rs_next p)(t := (idx + 1) mod length (U t))\<rparr>)
      | Inl err \<Rightarrow>
          if isCapacityError err then
            (case recordCapacityError (U t ! idx) nowMs cooldownSec (rs_health p) of
               (Inl thrown, h) \<Rightarrow> sweep_threw r thrown (note_rpc (Capacity (U t ! idx) nowMs False) (p\<lparr>rs_health := h\<rparr>))
             | (Inr printed, h) \<Rightarrow> post_next U r rest err (note_rpc (Capacity (U t ! idx) nowMs printed) (p\<lparr>rs_health := h\<rparr>)))
          else post_next U r rest err p)"

section \<open>The machine\<close>

text \<open>
  \<open>U t\<close> are the endpoints of transport \<open>t\<close>; a transport is only made when it has some. The cooldown
  is the process's, from the environment; the clock counts from 1970.
\<close>

inductive rpc_step :: "(nat \<Rightarrow> string list) \<Rightarrow> rat \<Rightarrow> 'j rpcs \<Rightarrow> 'j rpcs \<Rightarrow> bool" for U cooldownSec where
  Request: "U t \<noteq> [] \<Longrightarrow> 0 \<le> nowMs \<Longrightarrow> rpc_step U cooldownSec p (start_request U t nowMs p)"
| Answer: "r < length (rs_requests p) \<Longrightarrow> rq_phase (rs_requests p ! r) = Posting (idx # rest) \<Longrightarrow> 0 \<le> nowMs \<Longrightarrow>
    rpc_step U cooldownSec p (post_answered U cooldownSec r idx rest answer nowMs p)"
| Wake: "r < length (rs_requests p) \<Longrightarrow> rq_phase (rs_requests p ! r) = Pausing \<Longrightarrow> 0 \<le> nowMs \<Longrightarrow>
    rpc_step U cooldownSec p (pause_over U r nowMs p)"

definition rpc_start :: "'j rpcs" where
  "rpc_start = \<lparr>rs_health = [], rs_next = \<lambda>_. 0, rs_requests = [], rs_trace = []\<rparr>"

abbreviation rpc_reach :: "(nat \<Rightarrow> string list) \<Rightarrow> rat \<Rightarrow> 'j rpcs \<Rightarrow> bool" where
  "rpc_reach U cooldownSec \<equiv> (rpc_step U cooldownSec)\<^sup>*\<^sup>* rpc_start"

section \<open>What a sweep may know\<close>

text \<open>When an endpoint last reported a capacity error, by the trace; whether it still cools down.\<close>

definition last_capacity :: "rpc_event list \<Rightarrow> string \<Rightarrow> rat option" where
  "last_capacity tr url = foldl (\<lambda>a v. case v of Capacity url' t b \<Rightarrow> if url' = url then Some t else a | _ \<Rightarrow> a) None tr"

definition cooling :: "rat \<Rightarrow> rpc_event list \<Rightarrow> string \<Rightarrow> rat \<Rightarrow> bool" where
  "cooling cooldownSec tr url nowMs \<longleftrightarrow> (case last_capacity tr url of None \<Rightarrow> False | Some t \<Rightarrow> nowMs < t + cooldownSec * 1000)"

text \<open>The order of a sweep that begins after the trace \<open>tr\<close>.\<close>

definition fair_order :: "(nat \<Rightarrow> string list) \<Rightarrow> rat \<Rightarrow> rpc_event list \<Rightarrow> nat \<Rightarrow> rat \<Rightarrow> nat list \<Rightarrow> bool" where
  "fair_order U cooldownSec tr t nowMs order \<longleftrightarrow> set order \<subseteq> {..<length (U t)} \<and>
     ((\<forall>i \<in> set order. \<not> cooling cooldownSec tr (U t ! i) nowMs) \<or>
      (\<forall>i < length (U t). cooling cooldownSec tr (U t ! i) nowMs))"

text \<open>A post to \<open>url\<close> after the trace belongs to the last sweep of its request, whose order was fair.\<close>

definition justified :: "(nat \<Rightarrow> string list) \<Rightarrow> rat \<Rightarrow> rpc_event list \<Rightarrow> nat \<Rightarrow> nat \<Rightarrow> string \<Rightarrow> bool" where
  "justified U cooldownSec tr r t url \<longleftrightarrow> (\<exists>before nowMs order later. tr = before @ Sweep r t nowMs order # later \<and>
     (\<forall>t' n' o'. Sweep r t' n' o' \<notin> set later) \<and> url \<in> (\<lambda>i. U t ! i) ` set order \<and>
     fair_order U cooldownSec before t nowMs order)"

definition good_event :: "(nat \<Rightarrow> string list) \<Rightarrow> rat \<Rightarrow> rpc_event list \<Rightarrow> rpc_event \<Rightarrow> bool" where
  "good_event U cooldownSec tr v = (case v of
       Post r url \<Rightarrow> \<exists>t. justified U cooldownSec tr r t url
     | Capacity url t printed \<Rightarrow>
         printed \<longleftrightarrow> \<not> cooling cooldownSec tr url t \<and> \<bar>t + cooldownSec * 1000\<bar> \<le> MAX_DATE_MS
     | _ \<Rightarrow> True)"

definition good_trace :: "(nat \<Rightarrow> string list) \<Rightarrow> rat \<Rightarrow> rpc_event list \<Rightarrow> bool" where
  "good_trace U cooldownSec tr \<longleftrightarrow> (\<forall>before v later. tr = before @ v # later \<longrightarrow> good_event U cooldownSec before v)"

lemma good_trace_snoc: "good_trace U cd (tr @ [v]) \<longleftrightarrow> good_trace U cd tr \<and> good_event U cd tr v"
proof -
  have "tr @ [v] = before @ x # later \<longleftrightarrow> (later = [] \<and> before = tr \<and> x = v) \<or>
      (\<exists>ys. later = ys @ [v] \<and> tr = before @ x # ys)" for before x later
    by (cases later rule: rev_cases) auto
  then show ?thesis
    unfolding good_trace_def by auto
qed

lemma last_capacity_snoc [simp]:
  "last_capacity [] url = None"
  "last_capacity (tr @ [v]) url = (case v of Capacity url' t b \<Rightarrow> if url' = url then Some t else last_capacity tr url
     | _ \<Rightarrow> last_capacity tr url)"
  by (simp_all add: last_capacity_def split: rpc_event.split)

lemma justified_snoc:
  assumes "justified U cd tr r t url" "\<And>t' n' o'. v \<noteq> Sweep r t' n' o'"
  shows "justified U cd (tr @ [v]) r t url"
proof -
  obtain before nowMs order later where "tr = before @ Sweep r t nowMs order # later"
    "\<forall>t' n' o'. Sweep r t' n' o' \<notin> set later" "url \<in> (\<lambda>i. U t ! i) ` set order"
    "fair_order U cd before t nowMs order"
    using assms(1) unfolding justified_def by blast
  with assms(2) show ?thesis
    unfolding justified_def by (intro exI [of _ before] exI [of _ nowMs] exI [of _ order] exI [of _ "later @ [v]"]) auto
qed

lemma rotation_fair:
  assumes "urls \<noteq> []" "rotationOrder urls k nowMs h = (order, h')"
  shows "set order \<subseteq> {..<length urls}" and "\<And>u. cooled_until h' u = cooled_until h u"
    and "(\<forall>i \<in> set order. cooled_until h (urls ! i) \<le> nowMs) \<or> (\<forall>i < length urls. nowMs < cooled_until h (urls ! i))"
proof -
  let ?rr = "round_robin (length urls) k"
  have rr: "set ?rr = {..<length urls}"
    using assms(1) by (simp add: round_robin_props)
  obtain av h1 where av: "available_of urls nowMs ?rr h = (av, h1)" by fastforce
  note spec = available_of_spec [OF av]
  have out: "order = (if av \<noteq> [] then av else sort_key (\<lambda>i. cooled_until h1 (urls ! i)) ?rr)" "h' = h1"
    using assms(2) by (auto simp: rotationOrder_def av split: if_splits)
  show "set order \<subseteq> {..<length urls}"
    using rr spec by (auto simp: out)
  show "cooled_until h' u = cooled_until h u" for u
    using spec by (simp add: out)
  show "(\<forall>i \<in> set order. cooled_until h (urls ! i) \<le> nowMs) \<or> (\<forall>i < length urls. nowMs < cooled_until h (urls ! i))"
  proof (cases "av = []")
    case True
    then have "\<forall>i \<in> set ?rr. \<not> cooled_until h (urls ! i) \<le> nowMs"
      using spec by (simp add: filter_empty_conv)
    then show ?thesis unfolding rr by (auto simp: not_le)
  next
    case False
    then show ?thesis using spec by (simp add: out)
  qed
qed

section \<open>The invariant\<close>

definition health_traced :: "rat \<Rightarrow> 'j rpcs \<Rightarrow> bool" where
  "health_traced cooldownSec p \<longleftrightarrow> (\<forall>url. cooled_until (rs_health p) url =
     (case last_capacity (rs_trace p) url of None \<Rightarrow> 0 | Some t \<Rightarrow> t + cooldownSec * 1000))"

definition posting_justified :: "(nat \<Rightarrow> string list) \<Rightarrow> rat \<Rightarrow> 'j rpcs \<Rightarrow> nat \<Rightarrow> nat list \<Rightarrow> bool" where
  "posting_justified U cooldownSec p r order \<longleftrightarrow>
     (\<forall>idx \<in> set order. let t = rq_transport (rs_requests p ! r) in justified U cooldownSec (rs_trace p) r t (U t ! idx))"

definition rpc_inv :: "(nat \<Rightarrow> string list) \<Rightarrow> rat \<Rightarrow> 'j rpcs \<Rightarrow> bool" where
  "rpc_inv U cooldownSec p \<longleftrightarrow> health_traced cooldownSec p \<and> good_trace U cooldownSec (rs_trace p) \<and>
     (\<forall>r < length (rs_requests p). U (rq_transport (rs_requests p ! r)) \<noteq> [] \<and>
        (\<forall>order. rq_phase (rs_requests p ! r) = Posting order \<longrightarrow> posting_justified U cooldownSec p r order))"

lemma cooling_health:
  "health_traced cd p \<Longrightarrow> 0 \<le> nowMs \<Longrightarrow> cooling cd (rs_trace p) url nowMs \<longleftrightarrow> nowMs < cooled_until (rs_health p) url"
  by (auto simp: health_traced_def cooling_def split: option.split)

lemma nth_update_field:
  assumes "\<And>x. f (g x) = f x"
  shows "f (xs[r := g (xs ! r)] ! r') = f (xs ! r')"
proof (cases "r < length xs")
  case True
  then show ?thesis using assms by (simp add: nth_list_update)
next
  case False
  then have "xs[r := g (xs ! r)] = xs" by (intro list_update_beyond) simp
  then show ?thesis by (simp only:)
qed

lemma set_phase_simps [simp]:
  "length (rs_requests (set_phase r ph p)) = length (rs_requests p)"
  "rs_health (set_phase r ph p) = rs_health p" "rs_trace (set_phase r ph p) = rs_trace p"
  "rq_transport (rs_requests (set_phase r ph p) ! r') = rq_transport (rs_requests p ! r')"
  "rq_attempt (rs_requests (set_phase r ph p) ! r') = rq_attempt (rs_requests p ! r')"
  by (simp_all add: set_phase_def nth_update_field [of rq_transport] nth_update_field [of rq_attempt])

lemma set_phase_phase [simp]:
  "r < length (rs_requests p) \<Longrightarrow> rq_phase (rs_requests (set_phase r ph p) ! r') =
     (if r' = r then ph else rq_phase (rs_requests p ! r'))"
  by (simp add: set_phase_def)

lemma note_rpc_simps [simp]:
  "rs_requests (note_rpc v p) = rs_requests p" "rs_health (note_rpc v p) = rs_health p"
  "rs_trace (note_rpc v p) = rs_trace p @ [v]"
  by (simp_all add: note_rpc_def)

text \<open>An event that marks no endpoint, begins no sweep and is good changes nothing that matters.\<close>

lemma inv_note:
  assumes "rpc_inv U cd p" "good_event U cd (rs_trace p) v"
    and "\<And>r t n o'. v \<noteq> Sweep r t n o'" "\<And>url t b. v \<noteq> Capacity url t b"
  shows "rpc_inv U cd (note_rpc v p)"
proof -
  have "last_capacity (rs_trace p @ [v]) url = last_capacity (rs_trace p) url" for url
    using assms(4) by (simp split: rpc_event.split)
  then show ?thesis
    using assms by (auto simp: rpc_inv_def health_traced_def good_trace_snoc posting_justified_def Let_def
        simp del: last_capacity_snoc(2) intro: justified_snoc [OF _ assms(3)])
qed

lemma inv_set_phase:
  assumes "rpc_inv U cd p" "r < length (rs_requests p)"
    and "\<And>order. ph = Posting order \<Longrightarrow> posting_justified U cd p r order"
  shows "rpc_inv U cd (set_phase r ph p)"
  using assms by (auto simp: rpc_inv_def health_traced_def posting_justified_def split: if_splits)

lemma inv_sweep_threw:
  assumes "rpc_inv U cd p" "r < length (rs_requests p)"
  shows "rpc_inv U cd (sweep_threw r err p)"
  unfolding sweep_threw_def Let_def
  by (auto intro!: inv_note inv_set_phase assms simp: good_event_def)

lemma inv_post_next:
  assumes "rpc_inv U cd p" "r < length (rs_requests p)" "posting_justified U cd p r order"
  shows "rpc_inv U cd (post_next U r order err p)"
proof (cases order)
  case Nil
  then show ?thesis using inv_sweep_threw [OF assms(1,2)] by (simp add: post_next_def)
next
  case (Cons idx rest)
  let ?t = "rq_transport (rs_requests p ! r)"
  have "rpc_inv U cd (set_phase r (Posting order) p)"
    by (rule inv_set_phase [OF assms(1,2)]) (use assms(3) in simp)
  moreover have "good_event U cd (rs_trace p) (Post r (U ?t ! idx))"
    using assms(3) Cons by (auto simp: good_event_def posting_justified_def Let_def)
  moreover have "post_next U r order err p = note_rpc (Post r (U ?t ! idx)) (set_phase r (Posting order) p)"
    by (simp add: post_next_def Cons)
  ultimately show ?thesis
    by (simp add: inv_note)
qed

lemma inv_begin_sweep:
  assumes "rpc_inv U cd p" "r < length (rs_requests p)" "0 \<le> nowMs"
    and "\<And>order. rq_phase (rs_requests p ! r) \<noteq> Posting order"
  shows "rpc_inv U cd (begin_sweep U r nowMs p)"
proof -
  let ?t = "rq_transport (rs_requests p ! r)"
  obtain order h where order: "rotationOrder (U ?t) (rs_next p ?t) nowMs (rs_health p) = (order, h)"
    by fastforce
  let ?p = "note_rpc (Sweep r ?t nowMs order) (p\<lparr>rs_health := h\<rparr>)"
  have U: "U ?t \<noteq> []" using assms(1,2) by (simp add: rpc_inv_def)
  note fair = rotation_fair [OF U order]
  have traced: "health_traced cd p" using assms(1) by (simp add: rpc_inv_def)
  have "fair_order U cd (rs_trace p) ?t nowMs order"
    using fair by (auto simp: fair_order_def cooling_health [OF traced assms(3)] not_less)
  then have "justified U cd (rs_trace ?p) r ?t (U ?t ! idx)" if "idx \<in> set order" for idx
    unfolding justified_def using that
    by (intro exI [of _ "rs_trace p"] exI [of _ nowMs] exI [of _ order] exI [of _ "[]"]) auto
  then have new: "posting_justified U cd ?p r order"
    by (simp add: posting_justified_def Let_def)
  have "rpc_inv U cd ?p"
    using assms(1,4) fair(2)
    by (auto simp: rpc_inv_def health_traced_def good_trace_snoc good_event_def posting_justified_def Let_def
        intro!: justified_snoc)
  then show ?thesis
    using inv_post_next [OF _ _ new, of no_error] assms(2) by (simp add: begin_sweep_def Let_def order)
qed

text \<open>Marking an endpoint: the map and the trace agree on it, and the line is printed once per window.\<close>

lemma inv_capacity:
  assumes "rpc_inv U cd p" "0 \<le> nowMs" "recordCapacityError url nowMs cd (rs_health p) = (q, h)"
  shows "rpc_inv U cd (note_rpc (Capacity url nowMs (q = Inr True)) (p\<lparr>rs_health := h\<rparr>))"
proof -
  obtain t h1 where g: "getHealth url (rs_health p) = (t, h1)" by fastforce
  have t: "t = cooled_until (rs_health p) url" "\<And>u. cooled_until h1 u = cooled_until (rs_health p) u"
    using getHealth_fst [of url "rs_health p"] getHealth_same [of url "rs_health p"] g by simp_all
  have h: "h = jput url (nowMs + cd * 1000) h1"
    using assms(3) by (auto simp: recordCapacityError_def g Let_def split: if_splits)
  have traced: "health_traced cd p" using assms(1) by (simp add: rpc_inv_def)
  have "cooled_until h u = (if u = url then nowMs + cd * 1000 else cooled_until (rs_health p) u)" for u
    using t(2) [of u] by (simp add: h cooled_until_def)
  moreover have "q = Inr True \<longleftrightarrow> \<not> cooling cd (rs_trace p) url nowMs \<and> \<bar>nowMs + cd * 1000\<bar> \<le> MAX_DATE_MS"
    using assms(3) by (auto simp: recordCapacityError_def g Let_def t(1) cooling_health [OF traced assms(2)] split: if_splits)
  ultimately show ?thesis
    using assms(1)
    by (auto simp: rpc_inv_def health_traced_def good_trace_snoc good_event_def posting_justified_def Let_def
        intro: justified_snoc)
qed

lemma inv_answered:
  assumes "rpc_inv U cd p" "r < length (rs_requests p)" "rq_phase (rs_requests p ! r) = Posting (idx # rest)" "0 \<le> nowMs"
  shows "rpc_inv U cd (post_answered U cd r idx rest answer nowMs p)"
proof -
  let ?t = "rq_transport (rs_requests p ! r)"
  have next_inv: "rpc_inv U cd (p\<lparr>rs_next := f\<rparr>)" for f
    using assms(1) by (simp add: rpc_inv_def health_traced_def posting_justified_def)
  have now: "posting_justified U cd p r (idx # rest)"
    using assms(1-3) by (simp add: rpc_inv_def)
  then have rest: "posting_justified U cd p r rest"
    by (simp add: posting_justified_def)
  show ?thesis
  proof (cases "rpcPost answer")
    case (Inr v)
    then show ?thesis
      using assms(2) by (auto simp: post_answered_def Let_def intro!: inv_set_phase next_inv)
  next
    case (Inl err)
    obtain q h where q: "recordCapacityError (U ?t ! idx) nowMs cd (rs_health p) = (q, h)" by fastforce
    let ?p = "note_rpc (Capacity (U ?t ! idx) nowMs (q = Inr True)) (p\<lparr>rs_health := h\<rparr>)"
    have inv: "rpc_inv U cd ?p" by (rule inv_capacity [OF assms(1,4) q])
    have "posting_justified U cd ?p r rest"
      using rest by (auto simp: posting_justified_def Let_def intro: justified_snoc)
    then have "rpc_inv U cd (post_next U r rest err ?p)"
      using assms(2) by (intro inv_post_next [OF inv]) simp_all
    moreover have "rpc_inv U cd (sweep_threw r e ?p)" for e
      using assms(2) by (intro inv_sweep_threw [OF inv]) simp
    ultimately show ?thesis
      using Inl inv_post_next [OF assms(1,2) rest, of err]
      by (auto simp: post_answered_def Let_def q split: sum.split)
  qed
qed

lemma inv_step: "rpc_step U cd p p' \<Longrightarrow> rpc_inv U cd p \<Longrightarrow> rpc_inv U cd p'"
proof (induction rule: rpc_step.induct)
  case (Request t nowMs p)
  let ?p = "p\<lparr>rs_requests := rs_requests p @ [\<lparr>rq_transport = t, rq_attempt = 0, rq_phase = Pausing\<rparr>]\<rparr>"
  have "rpc_inv U cd ?p"
    using Request by (auto simp: rpc_inv_def health_traced_def posting_justified_def nth_append less_Suc_eq)
  then show ?case
    unfolding start_request_def by (rule inv_begin_sweep) (use Request in simp_all)
next
  case (Answer r p idx rest nowMs answer)
  then show ?case by (intro inv_answered)
next
  case (Wake r p nowMs)
  let ?p = "p\<lparr>rs_requests := (rs_requests p)[r := (rs_requests p ! r)\<lparr>rq_attempt := rq_attempt (rs_requests p ! r) + 1\<rparr>]\<rparr>"
  have same: "rq_transport (rs_requests ?p ! r') = rq_transport (rs_requests p ! r')"
    "rq_phase (rs_requests ?p ! r') = rq_phase (rs_requests p ! r')" for r'
    using Wake(1) by (simp_all add: nth_list_update)
  have "rpc_inv U cd ?p"
    using Wake(4) same by (simp add: rpc_inv_def health_traced_def posting_justified_def)
  then show ?case
    unfolding pause_over_def by (rule inv_begin_sweep) (use Wake same in simp_all)
qed

lemma inv_reach: "rpc_reach U cd p \<Longrightarrow> rpc_inv U cd p"
proof (induction rule: rtranclp_induct)
  case base
  have "good_trace U cd []" by (simp add: good_trace_def)
  then show ?case by (simp add: rpc_inv_def rpc_start_def health_traced_def cooled_until_def)
qed (rule inv_step)

section \<open>A request on its own\<close>

text \<open>
  The function \<open>request\<close> of the transport, where nothing else runs, is one of the machine's runs:
  request \<open>r\<close> of transport \<open>t\<close> in the machine and the transport's own state agree.
\<close>

definition tracks :: "nat \<Rightarrow> nat \<Rightarrow> nat \<Rightarrow> 'e rpc \<Rightarrow> 'j rpcs \<Rightarrow> bool" where
  "tracks r t attempt s p \<longleftrightarrow> rs_health p = rp_health s \<and> rs_next p t = rp_next s \<and> r < length (rs_requests p) \<and>
     rq_transport (rs_requests p ! r) = t \<and> rq_attempt (rs_requests p ! r) = attempt"

definition sweep_result :: "nat \<Rightarrow> (rpc_error + 'j) \<Rightarrow> 'j rq_state" where
  "sweep_result attempt res = (case res of Inr v \<Rightarrow> Done (Inr v)
     | Inl e \<Rightarrow> if attempt < DEFAULT_SWEEP_RETRY_COUNT then Pausing else Done (Inl e))"

lemma set_phase_next [simp]: "rs_next (set_phase r ph p) = rs_next p" "rs_next (note_rpc v p) = rs_next p"
  by (simp_all add: set_phase_def note_rpc_def)

lemma tracks_threw:
  assumes "tracks r t attempt s p"
  shows "tracks r t attempt s (sweep_threw r e p)"
    and "rq_phase (rs_requests (sweep_threw r e p) ! r) = sweep_result attempt (Inl e)"
  using assms by (auto simp: tracks_def sweep_threw_def sweep_result_def Let_def)

lemma try_urls_run:
  assumes clock: "\<And>e. 0 \<le> nt_now N e"
  shows "try_urls N (U t) cd order err s = (res, s') \<Longrightarrow> tracks r t attempt s p \<Longrightarrow>
    \<exists>p'. (rpc_step U cd)\<^sup>*\<^sup>* (post_next U r order err p) p' \<and> tracks r t attempt s' p' \<and>
      rq_phase (rs_requests p' ! r) = sweep_result attempt res"
proof (induction order arbitrary: err s p)
  case Nil
  then show ?case
    using tracks_threw [of r t attempt s p err] by (auto simp: post_next_def)
next
  case (Cons idx rest)
  let ?u = "U t ! idx" and ?p = "post_next U r (idx # rest) err p"
  obtain answer e where post: "nt_post N ?u (rp_env s) = (answer, e)" by fastforce
  let ?now = "of_int (nt_now N e) :: rat"
  let ?next = "post_answered U cd r idx rest answer ?now ?p"
  have p: "tracks r t attempt s ?p" "rq_phase (rs_requests ?p ! r) = Posting (idx # rest)"
    using Cons.prems(2) by (auto simp: tracks_def post_next_def)
  have step: "rpc_step U cd ?p ?next"
    using p clock [of e] by (intro Answer) (simp_all add: tracks_def)
  have go_on: ?case if "?next = post_next U r rest er q" "tracks r t attempt s1 q"
    "try_urls N (U t) cd rest er s1 = (res, s')" for er q s1
    using Cons.IH [OF that(3,2)] step unfolding that(1) by (meson converse_rtranclp_into_rtranclp)
  have stop: ?case if "tracks r t attempt s' ?next" "rq_phase (rs_requests ?next ! r) = sweep_result attempt res"
    using that step by blast
  show ?case
  proof (cases "rpcPost answer")
    case (Inr v)
    have res: "res = Inr v"
      "s' = s\<lparr>rp_next := (idx + 1) mod length (U t), rp_posts := rp_posts s @ [(idx, True)], rp_env := e\<rparr>"
      using Cons.prems(1) Inr by (auto simp: post)
    have "?next = set_phase r (Done (Inr v)) (?p\<lparr>rs_next := (rs_next ?p)(t := (idx + 1) mod length (U t))\<rparr>)"
      using p(1) Inr by (simp add: post_answered_def tracks_def)
    with p(1) show ?thesis
      unfolding res by (intro stop [unfolded res]) (simp_all add: tracks_def sweep_result_def)
  next
    case (Inl er)
    show ?thesis
    proof (cases "isCapacityError er")
      case False
      then show ?thesis
        using Cons.prems(1) p Inl
        by (intro go_on [of er ?p "s\<lparr>rp_posts := rp_posts s @ [(idx, False)], rp_env := e\<rparr>"])
          (auto simp: post_answered_def tracks_def post Let_def)
    next
      case True
      obtain q h where q: "recordCapacityError ?u ?now cd (rp_health s) = (q, h)" by fastforce
      let ?s = "s\<lparr>rp_posts := rp_posts s @ [(idx, False)], rp_env := e, rp_health := h\<rparr>"
      let ?q = "note_rpc (Capacity ?u ?now (q = Inr True)) (?p\<lparr>rs_health := h\<rparr>)"
      have track: "tracks r t attempt ?s ?q" using p by (simp add: tracks_def)
      show ?thesis
      proof (cases q)
        case (Inl thrown)
        then have "?next = sweep_threw r thrown ?q"
          using p True \<open>rpcPost answer = Inl er\<close> q by (simp add: post_answered_def tracks_def Let_def)
        moreover have "res = Inl thrown" "s' = ?s"
          using Cons.prems(1) \<open>rpcPost answer = Inl er\<close> True q Inl by (simp_all add: post Let_def)
        ultimately show ?thesis
          using tracks_threw [OF track, of thrown] by (intro stop) simp_all
      next
        case (Inr b)
        then have "?next = post_next U r rest er ?q"
          using p True \<open>rpcPost answer = Inl er\<close> q by (simp add: post_answered_def tracks_def Let_def)
        moreover have "try_urls N (U t) cd rest er ?s = (res, s')"
          using Cons.prems(1) \<open>rpcPost answer = Inl er\<close> True q Inr by (simp add: post Let_def)
        ultimately show ?thesis using go_on track by blast
      qed
    qed
  qed
qed

lemma sweep_run:
  assumes clock: "\<And>e. 0 \<le> nt_now N e"
    and "attemptSweep N (U t) cd s = (res, s')" "tracks r t attempt s p"
  shows "\<exists>p'. (rpc_step U cd)\<^sup>*\<^sup>* (begin_sweep U r (of_int (nt_now N (rp_env s))) p) p' \<and> tracks r t attempt s' p' \<and>
      rq_phase (rs_requests p' ! r) = sweep_result attempt res"
proof -
  let ?now = "of_int (nt_now N (rp_env s)) :: rat"
  obtain order h where order: "rotationOrder (U t) (rp_next s) ?now (rp_health s) = (order, h)" by fastforce
  let ?p = "note_rpc (Sweep r t ?now order) (p\<lparr>rs_health := h\<rparr>)"
  have "try_urls N (U t) cd order no_error (s\<lparr>rp_health := h\<rparr>) = (res, s')"
    using assms(2) by (simp add: attemptSweep_def order)
  moreover have "tracks r t attempt (s\<lparr>rp_health := h\<rparr>) ?p"
    using assms(3) by (simp add: tracks_def)
  moreover have "begin_sweep U r ?now p = post_next U r order no_error ?p"
    using assms(3) order by (simp add: begin_sweep_def tracks_def)
  ultimately show ?thesis
    using try_urls_run [OF clock] by metis
qed

lemma request_from_run:
  assumes clock: "\<And>e. 0 \<le> nt_now N e"
  shows "request_from left N (U t) cd attempt s = (res, s') \<Longrightarrow> tracks r t attempt s p \<Longrightarrow>
    attempt + left = DEFAULT_SWEEP_RETRY_COUNT \<Longrightarrow>
    \<exists>p'. (rpc_step U cd)\<^sup>*\<^sup>* (begin_sweep U r (of_int (nt_now N (rp_env s))) p) p' \<and>
      rs_health p' = rp_health s' \<and> rs_next p' t = rp_next s' \<and> r < length (rs_requests p') \<and>
      rq_phase (rs_requests p' ! r) = Done res"
proof (induction left arbitrary: attempt s p)
  case 0
  then have "attemptSweep N (U t) cd s = (res, s')" by simp
  from sweep_run [where U = U and t = t, OF clock this 0(2)] obtain p' where
    p': "(rpc_step U cd)\<^sup>*\<^sup>* (begin_sweep U r (of_int (nt_now N (rp_env s))) p) p'" "tracks r t attempt s' p'"
    "rq_phase (rs_requests p' ! r) = sweep_result attempt res"
    by blast
  have "sweep_result attempt res = Done res"
    using 0(3) by (simp add: sweep_result_def split: sum.split)
  with p' show ?case by (auto simp: tracks_def)
next
  case (Suc left)
  obtain r1 s1 where sweep: "attemptSweep N (U t) cd s = (r1, s1)" by fastforce
  from sweep_run [where U = U and t = t, OF clock this Suc.prems(2)] obtain p1 where
    p1: "(rpc_step U cd)\<^sup>*\<^sup>* (begin_sweep U r (of_int (nt_now N (rp_env s))) p) p1" "tracks r t attempt s1 p1"
    "rq_phase (rs_requests p1 ! r) = sweep_result attempt r1"
    by blast
  show ?case
  proof (cases r1)
    case (Inr v)
    then have "res = Inr v" "s' = s1"
      using Suc.prems(1) sweep by simp_all
    moreover have "sweep_result attempt r1 = Done (Inr v)"
      unfolding Inr by (simp add: sweep_result_def)
    ultimately show ?thesis using p1 by (auto simp: tracks_def)
  next
    case (Inl e)
    let ?ms = "2 ^ attempt * DEFAULT_SWEEP_RETRY_DELAY_MS"
    let ?s = "s1\<lparr>rp_sleeps := rp_sleeps s1 @ [?ms], rp_env := nt_sleep N ?ms (rp_env s1)\<rparr>"
    let ?now = "of_int (nt_now N (rp_env ?s)) :: rat"
    let ?p = "p1\<lparr>rs_requests := (rs_requests p1)[r := (rs_requests p1 ! r)\<lparr>rq_attempt := rq_attempt (rs_requests p1 ! r) + 1\<rparr>]\<rparr>"
    have later: "request_from left N (U t) cd (attempt + 1) ?s = (res, s')"
      using Suc.prems(1) sweep Inl by (simp add: Let_def)
    have track: "tracks r t (attempt + 1) ?s ?p"
      using p1(2) by (simp add: tracks_def)
    from Suc.IH [OF later track] Suc.prems(3) obtain p' where
      p': "(rpc_step U cd)\<^sup>*\<^sup>* (begin_sweep U r ?now ?p) p'" "rs_health p' = rp_health s'" "rs_next p' t = rp_next s'"
      "r < length (rs_requests p')" "rq_phase (rs_requests p' ! r) = Done res"
      by auto
    have "rq_phase (rs_requests p1 ! r) = Pausing"
      using p1(3) Inl Suc.prems(3) by (simp add: sweep_result_def)
    then have "rpc_step U cd p1 (pause_over U r ?now p1)"
      using p1(2) clock [of "rp_env ?s"] by (intro Wake) (simp_all add: tracks_def)
    with p1(1) p' show ?thesis
      unfolding pause_over_def by (intro exI [of _ p']) (auto intro: rtranclp.rtrancl_into_rtrancl rtranclp_trans)
  qed
qed

text \<open>So what holds of every run of the machine holds of \<open>request\<close>.\<close>

theorem request_is_a_run:
  assumes "\<And>e. 0 \<le> nt_now N e" "U t \<noteq> []" "rs_health p = rp_health s" "rs_next p t = rp_next s"
    and "request N (U t) cd s = (res, s')"
  shows "\<exists>p'. (rpc_step U cd)\<^sup>*\<^sup>* p p' \<and> rs_health p' = rp_health s' \<and> rs_next p' t = rp_next s' \<and>
    rq_phase (rs_requests p' ! length (rs_requests p)) = Done res"
proof -
  let ?r = "length (rs_requests p)" and ?now = "of_int (nt_now N (rp_env s)) :: rat"
  let ?p = "p\<lparr>rs_requests := rs_requests p @ [\<lparr>rq_transport = t, rq_attempt = 0, rq_phase = Pausing\<rparr>]\<rparr>"
  have "tracks ?r t 0 s ?p"
    using assms(3,4) by (simp add: tracks_def)
  from request_from_run [where U = U and t = t, OF assms(1) assms(5) [unfolded request_def] this]
  obtain p' where p': "(rpc_step U cd)\<^sup>*\<^sup>* (begin_sweep U ?r ?now ?p) p'" "rs_health p' = rp_health s'"
    "rs_next p' t = rp_next s'" "rq_phase (rs_requests p' ! ?r) = Done res"
    by auto
  have "rpc_step U cd p (begin_sweep U ?r ?now ?p)"
    using Request [of U t ?now cd p] assms(1,2) by (simp add: start_request_def)
  with p' show ?thesis by (blast intro: converse_rtranclp_into_rtranclp)
qed

section \<open>Properties\<close>

text \<open>C31: Cooldowns are respected across all transports and interleavings. Whenever an endpoint is posted
  to, the post belongs to the last sweep its request began, and when that sweep began, at least the
  cooldown had passed since the endpoint's last capacity error (reported by whichever transport), or
  every endpoint of the transport was cooling down. A sweep that is under way is not recalled: only
  there an endpoint may be posted to within its cooldown. The line that announces a window is printed
  exactly when an endpoint is marked outside a window (and its end is a date).\<close>

theorem cooldown_respected:
  assumes "rpc_reach U cooldownSec p" and "rs_trace p = before @ v # later"
  shows "case v of
      Post r url \<Rightarrow> \<exists>earlier t nowMs order since. before = earlier @ Sweep r t nowMs order # since \<and>
        (\<forall>t' n' o'. Sweep r t' n' o' \<notin> set since) \<and> (\<exists>i \<in> set order. i < length (U t) \<and> url = U t ! i) \<and>
        (\<not> cooling cooldownSec earlier url nowMs \<or> (\<forall>i < length (U t). cooling cooldownSec earlier (U t ! i) nowMs))
    | Capacity url t printed \<Rightarrow>
        printed \<longleftrightarrow> \<not> cooling cooldownSec before url t \<and> \<bar>t + cooldownSec * 1000\<bar> \<le> MAX_DATE_MS
    | _ \<Rightarrow> True"
proof -
  have "good_event U cooldownSec before v"
    using inv_reach [OF assms(1)] assms(2) by (simp add: rpc_inv_def good_trace_def)
  then show ?thesis
    unfolding good_event_def justified_def fair_order_def by (cases v) (simp_all, blast)
qed

text \<open>Two transports share two endpoints; the first one's request finds the first endpoint exhausted.\<close>

definition sample_urls :: "nat \<Rightarrow> string list" where
  "sample_urls = (\<lambda>_. [''a'', ''b''])"

definition sample_rpcs :: "string rpcs" where
  "sample_rpcs = start_request sample_urls 1 7
     (post_answered sample_urls 1 0 0 [1] (Inl ''429'') 5 (start_request sample_urls 0 3 rpc_start))"

lemma sample_trace:
  "rs_trace sample_rpcs = [Sweep 0 0 3 [0, 1], Post 0 ''a'', Capacity ''a'' 5 True, Post 0 ''b'',
     Sweep 1 1 7 [1], Post 1 ''b'']"
  by code_simp

lemma sample_reach: "rpc_reach sample_urls 1 sample_rpcs"
proof -
  let ?p = "start_request sample_urls 0 3 rpc_start :: string rpcs"
  have "rpc_step sample_urls 1 rpc_start ?p"
    by (rule Request) (simp_all add: sample_urls_def)
  moreover have "rpc_step sample_urls 1 ?p (post_answered sample_urls 1 0 0 [1] (Inl ''429'') 5 ?p)"
  proof (rule Answer)
    show "0 < length (rs_requests ?p)" "rq_phase (rs_requests ?p ! 0) = Posting (0 # [1])"
      by code_simp+
  qed simp
  moreover have "rpc_step sample_urls 1 (post_answered sample_urls 1 0 0 [1] (Inl ''429'') 5 ?p) sample_rpcs"
    unfolding sample_rpcs_def by (rule Request) (simp_all add: sample_urls_def)
  ultimately show ?thesis
    by (meson rtranclp.rtrancl_into_rtrancl rtranclp.rtrancl_refl)
qed

theorem cooldown_respected_witness:
  "\<exists>earlier t nowMs order since. [Sweep 0 0 3 [0, 1], Post 0 ''a'', Capacity ''a'' 5 True, Post 0 ''b'',
      Sweep 1 1 7 [1]] = earlier @ Sweep 1 t nowMs order # since \<and>
    (\<not> cooling 1 earlier ''b'' nowMs \<or> (\<forall>i < length (sample_urls t). cooling 1 earlier (sample_urls t ! i) nowMs))"
proof -
  have "rs_trace sample_rpcs = [Sweep 0 0 3 [0, 1], Post 0 ''a'', Capacity ''a'' 5 True, Post 0 ''b'',
     Sweep 1 1 7 [1]] @ Post 1 ''b'' # []"
    by (simp add: sample_trace)
  from cooldown_respected [OF sample_reach this] show ?thesis
    unfolding rpc_event.case by blast
qed

end
