(* ===== verification/Tron_Listener.thy ===== *)
theory Tron_Listener
  imports Intent_State Scripted Wallet_Codec
begin

text \<open>
  \<^verbatim>\<open>tron_listener.ts\<close>: a process of its own that polls TronGrid's REST interface and records the
  intents it sees, as skipped. \<open>tn_fetch\<close> is one HTTP request for the events of a kind since a time,
  with an API key or without one; it may throw. The file's copies of \<open>base58CheckEncode\<close> and
  \<open>decodeDestinationWallet\<close> are those of \<^verbatim>\<open>listener.ts\<close>, letter for letter.
\<close>

section \<open>Events and configuration\<close>

datatype watched_event = IntentCreated | CollateralPosted | IntentSettled

definition WATCHED_EVENTS :: "watched_event list" where
  "WATCHED_EVENTS = [IntentCreated, CollateralPosted, IntentSettled]"

record tron_event =
  te_block_number :: int
  te_block_timestamp :: int
  te_transaction_id :: string
  te_event_index :: int
  te_result :: "(string \<times> string) list"

record events_response =
  er_ok :: bool
  er_status :: int
  er_statusText :: string
  er_success :: bool
  er_data :: "tron_event list option"

record 'e tron =
  tn_os :: "'e os"
  tn_fetch :: "watched_event \<Rightarrow> int \<Rightarrow> string option \<Rightarrow> 'e \<Rightarrow> events_response outcome \<times> 'e"
  tn_toBase58 :: "bytes \<Rightarrow> jstext + string"
  tn_sha256 :: "bytes \<Rightarrow> bytes"
  tn_keys :: "string list"

record tron_config =
  tc_baseUrl :: string
  tc_manager :: string
  tc_apiKeys :: "string list"
  tc_pollMs :: jsnum

definition load_tron_config :: "env_vars \<Rightarrow> jstext + tron_config" where
  "load_tron_config env =
     (let var = map_of env; manager = falsy_or (var ''TRON_INTENT_MANAGER_ADDRESS'') [] in
      if manager = [] then
        Inl (js ''[FATAL] TRON_INTENT_MANAGER_ADDRESS must be set in .env (base58 T... address, Nile Testnet)'')
      else Inr \<lparr>tc_baseUrl = nullish (var ''TRON_API_BASE_URL'') ''https://nile.trongrid.io'',
        tc_manager = manager,
        tc_apiKeys = List.map_filter (\<lambda>name. case var name of None \<Rightarrow> None | Some k \<Rightarrow> if k = [] then None else Some k)
          [''TRONGRID_API_KEY_1'', ''TRONGRID_API_KEY_2''],
        tc_pollMs = js_Number (nullish (var ''TRON_POLL_INTERVAL_MS'') ''10000'')\<rparr>)"

section \<open>Fields\<close>

definition hexToTronAddress :: "(bytes \<Rightarrow> bytes) \<Rightarrow> string \<Rightarrow> string" where
  "hexToTronAddress sha256 hex =
     (let h = (if take 2 hex = ''0x'' then drop 2 hex else hex) in
      if length h \<noteq> 42 \<or> take 2 h \<noteq> ''41'' then ''0x'' @ h
      else (case base58CheckEncode sha256 h of Inl _ \<Rightarrow> ''0x'' @ h | Inr t \<Rightarrow> t))"

text \<open>A field by name, else by position, else empty.\<close>

definition getField :: "(string \<times> string) list \<Rightarrow> string \<Rightarrow> nat \<Rightarrow> string" where
  "getField result name index = (case map_of result name of Some v \<Rightarrow> v
     | None \<Rightarrow> (case map_of result (show_nat index) of Some v \<Rightarrow> v | None \<Rightarrow> []))"

definition prefixed :: "string \<Rightarrow> string" where
  "prefixed s = ''0x'' @ (if take 2 s = ''0x'' then drop 2 s else s)"

definition or_zero :: "string \<Rightarrow> string" where
  "or_zero s = (if s = [] then ''0'' else s)"

text \<open>\<^verbatim>\<open>/^(0x)?0{40}$/\<close>.\<close>

definition is_native_token :: "string \<Rightarrow> bool" where
  "is_native_token s \<longleftrightarrow> (if take 2 s = ''0x'' then drop 2 s else s) = replicate 40 (CHR ''0'')"

definition tron_date_ok :: "string \<Rightarrow> bool" where
  "tron_date_ok expiry = (case js_Number expiry of Num q \<Rightarrow> \<bar>q\<bar> \<le> 8640000000000 | _ \<Rightarrow> False)"

section \<open>The handlers\<close>

definition TRON_NILE :: string where
  "TRON_NILE = ''TRON Nile Testnet''"

definition tron_fields :: "'e tron \<Rightarrow> tron_event \<Rightarrow> int \<Rightarrow> string \<Rightarrow> intent_created_fields" where
  "tron_fields T ev amount decodedDestination =
     (let r = te_result ev; tokenAddressHex = getField r ''tokenAddress'' 3 in
      \<lparr>cf_intentId = prefixed (getField r ''intentId'' 0), cf_sourceChain = TRON_NILE,
       cf_sourceTxHash = te_transaction_id ev, cf_blockNumber = Some (te_block_number ev), cf_blockHash = None,
       cf_amountWei = bigint_toString amount,
       cf_tokenAddress = (if is_native_token tokenAddressHex then tokenAddressHex
         else hexToTronAddress (tn_sha256 T) tokenAddressHex),
       cf_destinationChainId = getField r ''destinationChainId'' 5,
       cf_destinationWallet = decodedDestination\<rparr>)"

text \<open>Whatever a handler throws is logged and forgotten.\<close>

definition tron_logIntentCreated :: "'e tron \<Rightarrow> tron_event \<Rightarrow> ('e world, unit) js" where
  "tron_logIntentCreated T ev =
     (let r = te_result ev in
      js_catch
        (bnd (js_lift (js_BigInt (or_zero (getField r ''amount'' 2)))) (\<lambda>amount.
         bnd (js_lift (js_BigInt (or_zero (getField r ''destinationChainId'' 5)))) (\<lambda>destinationChainIdBig.
         if \<not> tron_date_ok (getField r ''expiry'' 6) then js_throw (js ''Invalid time value'')
         else
           bnd (js_lift (decodeDestinationWallet (tn_toBase58 T) (tn_sha256 T)
               (prefixed (getField r ''destinationWallet'' 4)) destinationChainIdBig)) (\<lambda>decoded.
           recordIntentCreated (tn_os T) (tron_fields T ev amount decoded)
             ((proof_kind_only Pk_skipped)\<lparr>ps_chain := Some TRON_NILE\<rparr>)))))
        (\<lambda>_. js_ret ()))"

definition tron_logCollateralPosted :: "tron_event \<Rightarrow> ('e world, unit) js" where
  "tron_logCollateralPosted ev =
     js_catch (bnd (js_lift (js_BigInt (or_zero (getField (te_result ev) ''collateralAmount'' 2)))) (\<lambda>_. js_ret ()))
       (\<lambda>_. js_ret ())"

definition tron_logIntentSettled :: "tron_event \<Rightarrow> ('e world, unit) js" where
  "tron_logIntentSettled ev =
     js_catch (bnd (js_lift (js_BigInt (or_zero (getField (te_result ev) ''amount'' 2)))) (\<lambda>_. js_ret ()))
       (\<lambda>_. js_ret ())"

definition HANDLERS :: "'e tron \<Rightarrow> watched_event \<Rightarrow> tron_event \<Rightarrow> ('e world, unit) js" where
  "HANDLERS T name = (case name of IntentCreated \<Rightarrow> tron_logIntentCreated T
     | CollateralPosted \<Rightarrow> tron_logCollateralPosted | IntentSettled \<Rightarrow> tron_logIntentSettled)"

section \<open>Polling\<close>

definition check_response :: "events_response \<Rightarrow> jstext + tron_event list" where
  "check_response res =
     (if \<not> er_ok res then Inl (js (''HTTP '' @ bigint_toString (er_status res) @ '': '' @ er_statusText res))
      else if \<not> er_success res then Inl (js ''TronGrid response: success=false'')
      else Inr (case er_data res of None \<Rightarrow> [] | Some evs \<Rightarrow> evs))"

fun fetch_with :: "'e tron \<Rightarrow> watched_event \<Rightarrow> int \<Rightarrow> string option list \<Rightarrow> jstext \<Rightarrow> ('e world, tron_event list) js" where
  "fetch_with T name since [] lastErr = js_throw lastErr"
| "fetch_with T name since (key # keys) lastErr =
     js_catch (bnd (ext (tn_fetch T name since key)) (\<lambda>res. js_lift (check_response res)))
       (\<lambda>err. fetch_with T name since keys err)"

definition fetchEvents :: "'e tron \<Rightarrow> watched_event \<Rightarrow> int \<Rightarrow> ('e world, tron_event list) js" where
  "fetchEvents T name since =
     fetch_with T name since (if tn_keys T \<noteq> [] then map Some (tn_keys T) else [None])
       (js ''failed with no reachable endpoint'')"

record event_cursor =
  cu_since :: int
  cu_seen :: "string list"

definition event_key :: "tron_event \<Rightarrow> string" where
  "event_key ev = te_transaction_id ev @ '':'' @ bigint_toString (te_event_index ev)"

fun handle_events :: "'e tron \<Rightarrow> watched_event \<Rightarrow> tron_event list \<Rightarrow> event_cursor \<Rightarrow> ('e world, event_cursor) js" where
  "handle_events T name [] cur = js_ret cur"
| "handle_events T name (ev # evs) cur =
     (if event_key ev \<in> set (cu_seen cur) then handle_events T name evs cur
      else sq (HANDLERS T name ev)
             (handle_events T name evs
               (cur\<lparr>cu_since := max (cu_since cur) (te_block_timestamp ev), cu_seen := cu_seen cur @ [event_key ev]\<rparr>)))"

definition SEEN_LIMIT :: int where "SEEN_LIMIT = 5000"

definition bound_memory :: "event_cursor \<Rightarrow> event_cursor" where
  "bound_memory cur = (if int (length (cu_seen cur)) > SEEN_LIMIT then cur\<lparr>cu_seen := []\<rparr> else cur)"

text \<open>
  A poll sends its request with the cursor of that moment (\<open>since\<close>) and treats the answer with the
  cursor of the moment it arrives; a failed request leaves the cursor alone.
\<close>

definition poll_answer :: "'e tron \<Rightarrow> watched_event \<Rightarrow> int \<Rightarrow> event_cursor \<Rightarrow> ('e world, event_cursor) js" where
  "poll_answer T name since cur =
     js_catch (bnd (fetchEvents T name since) (\<lambda>events.
         bnd (handle_events T name events cur) (\<lambda>cur'. js_ret (bound_memory cur'))))
       (\<lambda>_. js_ret cur)"

section \<open>The process\<close>

text \<open>
  \<^verbatim>\<open>watchChain\<close>: three cursors that start at the time of the start, a timer and its guard \<^verbatim>\<open>inFlight\<close>.
  \<open>tp_pending\<close> are the requests whose answer is outstanding, each with the number of the promise that
  waits for it, its kind and its \<open>since\<close>. \<open>tp_waits\<close> is what \<^verbatim>\<open>Promise.allSettled\<close> was given by the
  last tick that was not turned away: a promise, or a plain value, which counts as settled.
\<close>

datatype awaited = Plain | Promise nat

record 'e tron_process =
  tp_world :: "'e world"
  tp_cursors :: "watched_event \<Rightarrow> event_cursor"
  tp_pending :: "(nat \<times> watched_event \<times> int) list"
  tp_issued :: nat
  tp_inFlight :: bool
  tp_waits :: "awaited list"

text \<open>
  The call sends the request with the cursor of that moment and hangs the handling of the answer on
  its promise; it has no return statement, so its value is \<^verbatim>\<open>undefined\<close>.
\<close>

definition pollEvent :: "watched_event \<Rightarrow> 'e tron_process \<Rightarrow> awaited \<times> 'e tron_process" where
  "pollEvent name p =
     (Plain, p\<lparr>tp_pending := tp_pending p @ [(tp_issued p, name, cu_since (tp_cursors p name))],
        tp_issued := tp_issued p + 1\<rparr>)"

fun map_polls :: "watched_event list \<Rightarrow> 'e tron_process \<Rightarrow> awaited list \<times> 'e tron_process" where
  "map_polls [] p = ([], p)"
| "map_polls (name # names) p =
     (case pollEvent name p of (v, p1) \<Rightarrow> case map_polls names p1 of (vs, p2) \<Rightarrow> (v # vs, p2))"

definition tron_tick :: "'e tron_process \<Rightarrow> 'e tron_process" where
  "tron_tick p =
     (if tp_inFlight p then p
      else (case map_polls WATCHED_EVENTS (p\<lparr>tp_inFlight := True\<rparr>) of (vs, p') \<Rightarrow> p'\<lparr>tp_waits := vs\<rparr>))"

text \<open>\<^verbatim>\<open>allSettled\<close>: no promise it was given is outstanding; then the guard is to be cleared.\<close>

definition value_settled :: "'e tron_process \<Rightarrow> awaited \<Rightarrow> bool" where
  "value_settled p v = (case v of Plain \<Rightarrow> True | Promise i \<Rightarrow> i \<notin> fst ` set (tp_pending p))"

definition clear_due :: "'e tron_process \<Rightarrow> bool" where
  "clear_due p \<longleftrightarrow> tp_inFlight p \<and> list_all (value_settled p) (tp_waits p)"

definition watchChain :: "'e tron \<Rightarrow> 'e world \<Rightarrow> 'e tron_process" where
  "watchChain T w = \<lparr>tp_world = w, tp_cursors = \<lambda>_. \<lparr>cu_since = os_now (tn_os T) (w_env w), cu_seen = []\<rparr>,
     tp_pending = [], tp_issued = 0, tp_inFlight = False, tp_waits = []\<rparr>"

text \<open>The reactions of settled promises run before the next timer or answer.\<close>

inductive tron_step :: "'e tron \<Rightarrow> 'e tron_process \<Rightarrow> 'e tron_process \<Rightarrow> bool" for T where
  Tick: "\<not> clear_due p \<Longrightarrow> tron_step T p (tron_tick p)"
| Clear: "clear_due p \<Longrightarrow> tron_step T p (p\<lparr>tp_inFlight := False\<rparr>)"
| Answer: "\<not> clear_due p \<Longrightarrow> tp_pending p = xs @ (i, n, since) # ys \<Longrightarrow>
    poll_answer T n since (tp_cursors p n) (tp_world p) = (Ok cur, w) \<Longrightarrow>
    tron_step T p (p\<lparr>tp_world := w, tp_cursors := (tp_cursors p)(n := cur), tp_pending := xs @ ys\<rparr>)"

inductive_cases tron_stepE: "tron_step T p p'"

text \<open>The boot: a first request, for the whole history, must succeed; its events are not replayed.\<close>

definition tron_main :: "'e tron \<Rightarrow> ('e world, unit) js" where
  "tron_main T = bnd (fetchEvents T IntentCreated 0) (\<lambda>_. js_ret ())"

section \<open>What a poll does\<close>

text \<open>The reference: the events with a new key, the first of each.\<close>

fun fresh_of :: "string list \<Rightarrow> tron_event list \<Rightarrow> tron_event list" where
  "fresh_of seen [] = []"
| "fresh_of seen (ev # evs) =
     (if event_key ev \<in> set seen then fresh_of seen evs else ev # fresh_of (seen @ [event_key ev]) evs)"

definition advance :: "event_cursor \<Rightarrow> tron_event list \<Rightarrow> event_cursor" where
  "advance cur evs = \<lparr>cu_since = foldl max (cu_since cur) (map te_block_timestamp evs),
     cu_seen = cu_seen cur @ map event_key evs\<rparr>"

lemma bnd_assoc: "bnd (bnd m f) g = bnd m (\<lambda>x. bnd (f x) g)"
  by (rule ext) (simp add: bnd_def split: prod.split outcome.split)

lemma handle_events_fresh:
  "handle_events T name evs cur =
   sq (js_for (fresh_of (cu_seen cur) evs) (HANDLERS T name)) (js_ret (advance cur (fresh_of (cu_seen cur) evs)))"
proof (induction evs arbitrary: cur)
  case Nil
  have "advance cur [] = cur" by (simp add: advance_def)
  then show ?case by (simp add: sq_def bnd_def js_ret_def)
next
  case (Cons ev evs)
  then show ?case
    by (simp add: sq_def bnd_assoc advance_def)
qed

lemma fresh_of_keys: "event_key ` set (fresh_of seen evs) = event_key ` set evs - set seen"
  by (induction evs arbitrary: seen) auto

lemma fresh_of_props:
  "distinct (map event_key (fresh_of seen evs))"
  "event_key ` set (fresh_of seen evs) = event_key ` set evs - set seen"
  "set (fresh_of seen evs) \<subseteq> set evs"
proof -
  show "event_key ` set (fresh_of seen evs) = event_key ` set evs - set seen"
    by (rule fresh_of_keys)
  show "distinct (map event_key (fresh_of seen evs))"
  proof (induction evs arbitrary: seen)
    case (Cons ev evs)
    have "event_key ev \<notin> event_key ` set (fresh_of (seen @ [event_key ev]) evs)"
      unfolding fresh_of_keys by simp
    with Cons.IH show ?case by simp
  qed simp
  show "set (fresh_of seen evs) \<subseteq> set evs"
    by (induction evs arbitrary: seen) (auto split: if_splits)
qed

lemma fresh_of_none: "event_key ` set evs \<subseteq> set seen \<Longrightarrow> fresh_of seen evs = []"
  by (induction evs) auto

lemma foldl_max_ge: "(m :: int) \<le> foldl max m xs"
  by (induction xs arbitrary: m) (auto intro: order.trans [OF max.cobounded1])

lemma foldl_max_in: "x \<in> set xs \<Longrightarrow> (x :: int) \<le> foldl max m xs"
  by (induction xs arbitrary: m) (auto intro: order.trans [OF max.cobounded2] foldl_max_ge)

lemma HANDLERS_total: "\<exists>w'. HANDLERS T name ev w = (Ok (), w') \<or> HANDLERS T name ev w = (Stop, w')"
  by (cases name)
    (auto simp: HANDLERS_def tron_logIntentCreated_def tron_logCollateralPosted_def tron_logIntentSettled_def
      Let_def js_catch_def js_ret_def split: prod.split outcome.split)

text \<open>A tick that the guard lets through.\<close>

lemma tick_polls:
  "tp_inFlight p \<Longrightarrow> tron_tick p = p"
  "\<not> tp_inFlight p \<Longrightarrow> tp_inFlight (tron_tick p)"
  "\<not> tp_inFlight p \<Longrightarrow> tp_waits (tron_tick p) = [Plain, Plain, Plain]"
  "\<not> tp_inFlight p \<Longrightarrow> tp_pending (tron_tick p) = tp_pending p @
     [(tp_issued p, IntentCreated, cu_since (tp_cursors p IntentCreated)),
      (tp_issued p + 1, CollateralPosted, cu_since (tp_cursors p CollateralPosted)),
      (tp_issued p + 2, IntentSettled, cu_since (tp_cursors p IntentSettled))]"
  by (simp_all add: tron_tick_def pollEvent_def WATCHED_EVENTS_def)

lemma tick_state [simp]: "tp_cursors (tron_tick p) = tp_cursors p" "tp_world (tron_tick p) = tp_world p"
  by (simp_all add: tron_tick_def pollEvent_def WATCHED_EVENTS_def)

section \<open>Properties\<close>

text \<open>C32: What a poll's answer does is what its reference says: the handler runs, in order, for the events
  whose key was not seen before, the first of each; every key of the answer is then seen, and the
  watermark is the largest time handled.\<close>

theorem poll_is_fresh_events:
  "handle_events T name evs cur =
     sq (js_for (fresh_of (cu_seen cur) evs) (HANDLERS T name)) (js_ret (advance cur (fresh_of (cu_seen cur) evs))) \<and>
   distinct (map event_key (fresh_of (cu_seen cur) evs)) \<and>
   event_key ` set (fresh_of (cu_seen cur) evs) = event_key ` set evs - set (cu_seen cur)"
  by (simp add: handle_events_fresh fresh_of_props)

text \<open>An answer that arrives twice is handled once: unless the memory of keys was dropped in between, the
  second time no handler runs and the cursor stays.\<close>

theorem poll_twice_handles_once:
  assumes "int (length (cu_seen cur) + length evs) \<le> SEEN_LIMIT"
    and "handle_events T name evs cur w = (Ok cur', w')"
  shows "handle_events T name evs (bound_memory cur') w'' = (Ok cur', w'')"
proof -
  let ?f = "fresh_of (cu_seen cur) evs"
  have cur': "cur' = advance cur ?f"
    using assms(2) by (auto simp: handle_events_fresh sq_def bnd_def js_ret_def split: prod.splits outcome.splits)
  have "length (fresh_of seen evs) \<le> length evs" for seen
    by (induction evs arbitrary: seen) (auto simp: le_SucI)
  then have "length (cu_seen cur') \<le> length (cu_seen cur) + length evs"
    by (simp add: cur' advance_def)
  then have keep: "bound_memory cur' = cur'"
    using assms(1) by (simp add: bound_memory_def)
  have "event_key ` set ?f = event_key ` set evs - set (cu_seen cur)"
    by (rule fresh_of_props(2))
  then have "event_key ` set evs \<subseteq> set (cu_seen cur')"
    by (auto simp: cur' advance_def)
  then have "fresh_of (cu_seen cur') evs = []"
    by (rule fresh_of_none)
  then show ?thesis
    by (simp add: keep handle_events_fresh advance_def sq_def bnd_def js_ret_def)
qed

definition sample_event :: tron_event where
  "sample_event = \<lparr>te_block_number = 1, te_block_timestamp = 9, te_transaction_id = ''t'', te_event_index = 0,
     te_result = [(''amount'', ''5'')]\<rparr>"

lemma settled_handler_silent: "HANDLERS T IntentSettled ev w = (Ok (), w)"
  by (simp add: HANDLERS_def tron_logIntentSettled_def js_catch_def bnd_def js_lift_def js_ret_def js_throw_def
      split: sum.split)

theorem poll_twice_witness:
  "\<exists>cur'. handle_events T IntentSettled [sample_event, sample_event] \<lparr>cu_since = 3, cu_seen = []\<rparr> w = (Ok cur', w) \<and>
     handle_events T IntentSettled [sample_event, sample_event] (bound_memory cur') w = (Ok cur', w)"
proof -
  let ?cur = "\<lparr>cu_since = 3, cu_seen = []\<rparr>"
  have run: "handle_events T IntentSettled [sample_event, sample_event] ?cur w =
      (Ok (advance ?cur [sample_event]), w)"
    by (simp add: handle_events_fresh sq_def bnd_def js_ret_def settled_handler_silent)
  have "int (length (cu_seen ?cur) + length [sample_event, sample_event]) \<le> SEEN_LIMIT"
    by (simp add: SEEN_LIMIT_def)
  from poll_twice_handles_once [OF this run] run show ?thesis by blast
qed

text \<open>C33: In every reachable state of the process a cursor's watermark is not before the start, the keys it
  remembers are distinct, and the records it has written are each under their own intent's key with
  no URL in a free text.\<close>

theorem tron_cursors_ok:
  assumes "(tron_step T)\<^sup>*\<^sup>* (watchChain T w) p" and "state_inv w"
  shows "os_now (tn_os T) (w_env w) \<le> cu_since (tp_cursors p n) \<and> distinct (cu_seen (tp_cursors p n)) \<and>
    state_inv (tp_world p)"
proof -
  have fetched: "preserves state_inv (fetch_with T name since ks e)" for name since ks e
    by (induction ks arbitrary: e) (auto intro!: preserves_catch preserves_bnd intro: preservesI simp: wp_simps split: prod.split)
  have handled: "preserves state_inv (HANDLERS T name ev)" for name ev
    unfolding HANDLERS_def tron_logIntentCreated_def tron_logCollateralPosted_def tron_logIntentSettled_def Let_def
    by (cases name) (auto intro!: preserves_catch preserves_bnd preserves_if)
  have answered: "preserves state_inv (poll_answer T name since cur)" for name since cur
    unfolding poll_answer_def fetchEvents_def handle_events_fresh
    by (intro preserves_catch preserves_bnd preserves_sq preserves_for preserves_ret fetched handled)
  have cursor: "cu_since cur \<le> cu_since cur' \<and> (distinct (cu_seen cur) \<longrightarrow> distinct (cu_seen cur'))"
    if "poll_answer T name since cur w1 = (Ok cur', w2)" for name since cur cur' w1 w2
  proof -
    have "cur' = cur \<or> (\<exists>evs. cur' = bound_memory (advance cur (fresh_of (cu_seen cur) evs)))"
      using that
      by (auto simp: poll_answer_def handle_events_fresh js_catch_def sq_def bnd_def js_ret_def
          split: prod.splits outcome.splits)
    moreover have "distinct (cu_seen cur @ map event_key (fresh_of (cu_seen cur) evs))" if "distinct (cu_seen cur)" for evs
    proof -
      have "event_key ` set (fresh_of (cu_seen cur) evs) \<inter> set (cu_seen cur) = {}"
        unfolding fresh_of_props(2) by blast
      then show ?thesis using that by (auto simp: fresh_of_props)
    qed
    ultimately show ?thesis
      by (auto simp: bound_memory_def advance_def foldl_max_ge)
  qed
  from assms(1) show ?thesis
  proof (induction arbitrary: n rule: rtranclp_induct)
    case base
    then show ?case using assms(2) by (simp add: watchChain_def)
  next
    case (step p p')
    from step.hyps(2) show ?case
    proof (cases rule: tron_step.cases)
      case Tick
      then show ?thesis using step.IH by simp
    next
      case Clear
      then show ?thesis using step.IH by simp
    next
      case (Answer xs i m since ys cur w')
      have "state_inv w'"
        using answered [of m since "tp_cursors p m"] step.IH [of n] Answer
        unfolding preserves_def by (metis snd_conv)
      then show ?thesis
        using cursor [OF Answer(4)] step.IH [of m] step.IH [of n] Answer by auto
    qed
  qed
qed

definition sample_tron :: "script tron" where
  "sample_tron = \<lparr>tn_os = script_os, tn_fetch = \<lambda>_ _ _ e. (Ok \<lparr>er_ok = True, er_status = 200, er_statusText = ''OK'',
     er_success = True, er_data = Some [sample_event]\<rparr>, e), tn_toBase58 = \<lambda>_. Inr ''w'', tn_sha256 = \<lambda>_. [], tn_keys = []\<rparr>"

theorem tron_cursors_witness:
  "\<exists>p. (tron_step sample_tron)\<^sup>*\<^sup>* (watchChain sample_tron (fresh_world blank_script)) p \<and>
     cu_seen (tp_cursors p IntentSettled) = [event_key sample_event] \<and> 1000000 \<le> cu_since (tp_cursors p IntentSettled)"
proof -
  let ?w = "fresh_world blank_script"
  let ?s = "watchChain sample_tron ?w"
  let ?u = "(tron_tick ?s)\<lparr>tp_inFlight := False\<rparr>"
  let ?cur = "advance (tp_cursors ?s IntentSettled) [sample_event]"
  have tick: "tron_step sample_tron ?s (tron_tick ?s)"
    by (rule Tick) (simp add: watchChain_def clear_due_def)
  have clear: "tron_step sample_tron (tron_tick ?s) ?u"
    by (rule Clear) (simp add: watchChain_def tick_polls clear_due_def value_settled_def)
  have pending: "tp_pending ?u = [(0, IntentCreated, 1000000), (1, CollateralPosted, 1000000)] @ (2, IntentSettled, 1000000) # []"
    by (simp add: watchChain_def tick_polls sample_tron_def script_os_def fresh_world_def blank_script_def)
  have cursors: "tp_cursors ?u = tp_cursors ?s" "tp_world ?u = ?w"
    by (simp_all add: watchChain_def)
  have fetch: "tn_fetch sample_tron name since key e = (Ok \<lparr>er_ok = True, er_status = 200, er_statusText = ''OK'',
     er_success = True, er_data = Some [sample_event]\<rparr>, e)" "tn_keys sample_tron = []" for name since key e
    by (simp_all add: sample_tron_def)
  have "poll_answer sample_tron IntentSettled 1000000 (tp_cursors ?u IntentSettled) (tp_world ?u) = (Ok ?cur, ?w)"
    unfolding cursors
    by (simp add: poll_answer_def fetchEvents_def handle_events_fresh fetch js_catch_def sq_def bnd_def js_ret_def
        js_lift_def ext_def check_response_def settled_handler_silent watchChain_def
        bound_memory_def SEEN_LIMIT_def advance_def)
  from Answer [OF _ pending this] have "tron_step sample_tron ?u (?u\<lparr>tp_world := ?w,
      tp_cursors := (tp_cursors ?u)(IntentSettled := ?cur), tp_pending := [(0, IntentCreated, 1000000), (1, CollateralPosted, 1000000)] @ []\<rparr>)"
    by (simp add: clear_due_def)
  with tick clear have "(tron_step sample_tron)\<^sup>*\<^sup>* ?s (?u\<lparr>tp_world := ?w,
      tp_cursors := (tp_cursors ?u)(IntentSettled := ?cur), tp_pending := [(0, IntentCreated, 1000000), (1, CollateralPosted, 1000000)] @ []\<rparr>)"
    by (meson rtranclp.rtrancl_into_rtrancl rtranclp.rtrancl_refl)
  moreover from tron_cursors_ok [OF this, of IntentSettled] have "1000000 \<le> cu_since ?cur"
    by (simp add: sample_tron_def script_os_def fresh_world_def blank_script_def state_inv_def states_wf_def states_clean_def)
  moreover have "cu_seen ?cur = [event_key sample_event]"
    by (simp add: advance_def watchChain_def)
  ultimately show ?thesis
    by (intro exI conjI) (assumption, simp_all)
qed

text \<open>What the guard waits for is settled the moment it begins to wait.\<close>

lemma guard_due:
  assumes "(tron_step T)\<^sup>*\<^sup>* (watchChain T w) p"
  shows "tp_inFlight p \<longrightarrow> clear_due p"
proof -
  have "list_all (\<lambda>v. v = Plain) (tp_waits p)"
    using assms
  proof (induction rule: rtranclp_induct)
    case base
    then show ?case by (simp add: watchChain_def)
  next
    case (step p p')
    have "list_all (\<lambda>v. v = Plain) (tp_waits (tron_tick p))"
      using step.IH by (cases "tp_inFlight p") (simp_all add: tick_polls)
    with step.hyps(2) step.IH show ?case
      by (cases rule: tron_step.cases) auto
  qed
  then show ?thesis
    by (auto simp: clear_due_def value_settled_def list_all_iff)
qed

text \<open>C34: The guard against piling up requests never holds. In every state the process can reach, when the
  timer may fire (no reaction of a settled promise is left to run) \<^verbatim>\<open>inFlight\<close> is clear, however many
  answers are outstanding: the tick sends its three requests, and any number of ticks may go by
  before an answer comes.\<close>

theorem requests_pile_up:
  assumes "(tron_step T)\<^sup>*\<^sup>* (watchChain T w) p" and "\<not> clear_due p"
  shows "\<not> tp_inFlight p \<and> length (tp_pending (tron_tick p)) = length (tp_pending p) + 3 \<and>
    (\<exists>p'. (tron_step T)\<^sup>*\<^sup>* p p' \<and> length (tp_pending p') = length (tp_pending p) + 3 * n)"
proof -
  have idle: "\<not> tp_inFlight p"
    using guard_due [OF assms(1)] assms(2) by blast
  have "\<exists>p'. (tron_step T)\<^sup>*\<^sup>* p p' \<and> \<not> tp_inFlight p' \<and> length (tp_pending p') = length (tp_pending p) + 3 * n"
  proof (induction n)
    case 0
    with idle show ?case by auto
  next
    case (Suc n)
    then obtain q where q: "(tron_step T)\<^sup>*\<^sup>* p q" "\<not> tp_inFlight q" "length (tp_pending q) = length (tp_pending p) + 3 * n"
      by blast
    have "tron_step T q (tron_tick q)"
      by (rule Tick) (simp add: q clear_due_def)
    moreover have "tron_step T (tron_tick q) ((tron_tick q)\<lparr>tp_inFlight := False\<rparr>)"
      by (rule Clear) (simp add: clear_due_def tick_polls q(2) value_settled_def)
    ultimately have "(tron_step T)\<^sup>*\<^sup>* p ((tron_tick q)\<lparr>tp_inFlight := False\<rparr>)"
      using q(1) by (meson rtranclp.rtrancl_into_rtrancl)
    then show ?case
      by (intro exI [of _ "(tron_tick q)\<lparr>tp_inFlight := False\<rparr>"]) (simp add: tick_polls q)
  qed
  with idle show ?thesis
    by (auto simp: tick_polls)
qed

theorem requests_pile_up_witness:
  "\<exists>p'. (tron_step sample_tron)\<^sup>*\<^sup>* (watchChain sample_tron (fresh_world blank_script)) p' \<and> length (tp_pending p') = 30"
proof -
  let ?s = "watchChain sample_tron (fresh_world blank_script)"
  have idle: "\<not> clear_due ?s" and none: "tp_pending ?s = []"
    by (simp_all add: watchChain_def clear_due_def)
  from requests_pile_up [where T = sample_tron and n = 10, OF rtranclp.rtrancl_refl idle] show ?thesis
    by (auto simp: none)
qed

text \<open>A 21-byte address in TronGrid's form is shown in base 58: decoding the text gives the bytes and
  their checksum. Anything else is shown as it came.\<close>

theorem hexToTronAddress_roundtrip:
  assumes "\<And>b. sha256 b \<noteq> []"
  shows "(length bs = 20 \<longrightarrow> base58_decode (hexToTronAddress sha256 (toHex (0x41 # bs))) =
      0x41 # bs @ take 4 (sha256 (sha256 (0x41 # bs)))) \<and>
    (length h \<noteq> 42 \<and> take 2 h \<noteq> ''0x'' \<longrightarrow> hexToTronAddress sha256 h = ''0x'' @ h)"
proof (intro conjI impI)
  assume bs: "length bs = 20"
  have len: "length (toHex xs) = 2 * length xs" for xs
    by (induction xs) (simp_all add: toHex_def)
  have cons: "toHex (b # xs) = [digit_char (unat b div 16), digit_char (unat b mod 16)] @ toHex xs" for b xs
    by (simp add: toHex_def)
  have "[digit_char (unat (0x41 :: 8 word) div 16), digit_char (unat (0x41 :: 8 word) mod 16)] = ''41''"
    by code_simp
  then have "take 2 (toHex (0x41 # bs)) = ''41''"
    by (simp add: cons)
  then have "hexToTronAddress sha256 (toHex (0x41 # bs)) =
      base58_text (0x41 # bs @ take 4 (sha256 (sha256 (0x41 # bs))))"
    using assms bs by (simp add: hexToTronAddress_def Let_def len base58CheckEncode_text)
  then show "base58_decode (hexToTronAddress sha256 (toHex (0x41 # bs))) =
      0x41 # bs @ take 4 (sha256 (sha256 (0x41 # bs)))"
    by simp
qed (simp add: hexToTronAddress_def Let_def)

theorem hexToTronAddress_witness:
  "base58_decode (hexToTronAddress (\<lambda>_. [7]) (toHex (0x41 # replicate 20 0))) = 0x41 # replicate 20 0 @ [7]"
  using hexToTronAddress_roundtrip [of "\<lambda>_. [7]" "replicate 20 0" "[]"] by simp

end
