(* ===== verification/Settle_Intent.thy ===== *)
theory Settle_Intent
  imports World Wallet_Codec
begin

text \<open>
  \<^verbatim>\<open>settle_intent.js\<close>, the script the orchestrator spawns for the Solana payout: it escrows the
  amount, signs the release, prints the signature, waits for \<^verbatim>\<open>GO\<close> on stdin, broadcasts and polls.
  The Solana client is a record of operations; an RPC call that is raced against a timer may give no
  answer in time (\<open>None\<close>).
\<close>

section \<open>Amounts and hashes\<close>

definition weiToLamports :: "string \<Rightarrow> jstext + int" where
  "weiToLamports weiStr = (case js_BigInt weiStr of Inl e \<Rightarrow> Inl e | Inr wei \<Rightarrow> Inr (bigdiv wei 1000000000))"

definition is_hex :: "char \<Rightarrow> bool" where
  "is_hex c \<longleftrightarrow> c \<in> set ''0123456789abcdefABCDEF''"

definition normalizeProofHashHex :: "string option \<Rightarrow> string option" where
  "normalizeProofHashHex input = (case input of None \<Rightarrow> None
     | Some s \<Rightarrow>
         (let stripped = (if take 2 s = ''0x'' \<or> take 2 s = ''0X'' then drop 2 s else s) in
          if length stripped = 64 \<and> list_all is_hex stripped then Some (toLowerCase stripped) else None))"

section \<open>The client\<close>

record release_tx =
  rx_intent :: string
  rx_proofHash :: bytes
  rx_amount :: int
  rx_destination :: string

datatype stdin_event = St_chunk string | St_timeout

record 'e solana =
  so_now :: "'e \<Rightarrow> int"
  so_isPublicKey :: "string \<Rightarrow> bool"
  so_hotWallet :: "'e \<Rightarrow> string outcome \<times> 'e"
  so_nonce :: "'e \<Rightarrow> int outcome \<times> 'e"
  so_pda :: "string \<Rightarrow> int \<Rightarrow> string"
  so_balance :: "string \<Rightarrow> 'e \<Rightarrow> int outcome option \<times> 'e"
  so_submit :: "string \<Rightarrow> int \<Rightarrow> string \<Rightarrow> int \<Rightarrow> 'e \<Rightarrow> string outcome \<times> 'e"
  so_blockhash :: "'e \<Rightarrow> int outcome option \<times> 'e"
  so_sign :: "release_tx \<Rightarrow> 'e \<Rightarrow> string outcome \<times> 'e"
  so_stdin :: "'e \<Rightarrow> stdin_event \<times> 'e"
  so_send :: "string \<Rightarrow> 'e \<Rightarrow> unit outcome option \<times> 'e"
  so_status :: "string \<Rightarrow> 'e \<Rightarrow> sig_value option outcome option \<times> 'e"
  so_height :: "'e \<Rightarrow> int outcome option \<times> 'e"
  so_sleep :: "int \<Rightarrow> 'e \<Rightarrow> 'e"

text \<open>The effects, oldest first.\<close>

datatype script_event = Se_submit string int string | Se_sig string | Se_go | Se_send string

record 'e script_world =
  sw_events :: "script_event list"
  sw_env :: 'e

definition call :: "('e \<Rightarrow> 'a outcome \<times> 'e) \<Rightarrow> ('e script_world, 'a) js" where
  "call f w = (case f (sw_env w) of (r, e) \<Rightarrow> (r, w\<lparr>sw_env := e\<rparr>))"

definition note_event :: "script_event \<Rightarrow> ('e script_world, unit) js" where
  "note_event v = js_mod (\<lambda>w. w\<lparr>sw_events := sw_events w @ [v]\<rparr>)"

definition withTimeout :: "string \<Rightarrow> ('e \<Rightarrow> 'a outcome option \<times> 'e) \<Rightarrow> int \<Rightarrow> ('e script_world, 'a) js" where
  "withTimeout label f timeoutMs =
     call (\<lambda>e. case f e of
         (Some r, e') \<Rightarrow> (r, e')
       | (None, e') \<Rightarrow> (Throw (js (label @ '' timed out after '' @ bigint_toString timeoutMs @ ''ms'')), e'))"

definition RPC_TIMEOUT_MS :: int where "RPC_TIMEOUT_MS = 15000"
definition POLL_INTERVAL_MS :: int where "POLL_INTERVAL_MS = 2000"
definition POLL_TIMEOUT_MS :: int where "POLL_TIMEOUT_MS = 90000"

section \<open>Confirmation\<close>

text \<open>\<open>sv_err\<close> stands for an error of whatever content; its text is not kept.\<close>

definition confirmed_status :: "sig_value \<Rightarrow> bool" where
  "confirmed_status v \<longleftrightarrow> sv_confirmationStatus v = Some ''confirmed'' \<or> sv_confirmationStatus v = Some ''finalized''"

fun poll_loop :: "nat \<Rightarrow> 'e solana \<Rightarrow> string \<Rightarrow> int \<Rightarrow> int \<Rightarrow> ('e script_world, unit) js" where
  "poll_loop 0 C signature lastValidBlockHeight deadline = js_stop"
| "poll_loop (Suc fuel) C signature lastValidBlockHeight deadline =
     bnd (withTimeout (''getSignatureStatus('' @ signature @ '')'') (so_status C signature) RPC_TIMEOUT_MS) (\<lambda>v.
     if (case v of Some x \<Rightarrow> sv_err x | None \<Rightarrow> False) then
       js_throw (js (''transaction '' @ signature @ '' failed on-chain''))
     else if (case v of Some x \<Rightarrow> confirmed_status x | None \<Rightarrow> False) then js_ret ()
     else
       bnd (withTimeout ''getBlockHeight'' (so_height C) RPC_TIMEOUT_MS) (\<lambda>height.
       if height > lastValidBlockHeight then
         js_throw (js (''blockhash expired before '' @ signature @ '' confirmed''))
       else
         bnd (js_get (\<lambda>w. so_now C (sw_env w))) (\<lambda>now.
         if now \<ge> deadline then js_throw (js (''timed out waiting for '' @ signature @ '' to confirm''))
         else
           sq (call (\<lambda>e. (Ok (), so_sleep C POLL_INTERVAL_MS e)))
              (poll_loop fuel C signature lastValidBlockHeight deadline))))"

definition pollForConfirmation :: "nat \<Rightarrow> 'e solana \<Rightarrow> string \<Rightarrow> int \<Rightarrow> ('e script_world, unit) js" where
  "pollForConfirmation fuel C signature lastValidBlockHeight =
     bnd (js_get (\<lambda>w. so_now C (sw_env w) + POLL_TIMEOUT_MS)) (poll_loop fuel C signature lastValidBlockHeight)"

section \<open>The handshake\<close>

text \<open>Each chunk on stdin is looked at alone; the timer runs over all of them.\<close>

fun waitForGo :: "nat \<Rightarrow> 'e solana \<Rightarrow> ('e script_world, unit) js" where
  "waitForGo 0 C = js_stop"
| "waitForGo (Suc fuel) C =
     bnd (call (\<lambda>e. case so_stdin C e of (x, e') \<Rightarrow> (Ok x, e'))) (\<lambda>ev. case ev of
         St_timeout \<Rightarrow> js_throw (js ''timed out after 30000ms waiting for GO from orchestrator'')
       | St_chunk s \<Rightarrow> if has_text ''GO'' s then note_event Se_go else waitForGo fuel C)"

section \<open>The settlement\<close>

definition SOLANA_CHAIN_ID_TEXT :: string where
  "SOLANA_CHAIN_ID_TEXT = ''1399811149''"

definition nonce_ok :: "int \<Rightarrow> bool" where
  "nonce_ok n \<longleftrightarrow> 0 \<le> n \<and> n < 2 ^ 64"

text \<open>What must be known before anything is sent: an exit code, or the plan.\<close>

record settlement_plan =
  pl_destination :: string
  pl_amount :: int
  pl_proofHash :: bytes

definition plan_settlement :: "'e solana \<Rightarrow> env_vars \<Rightarrow> jstext + (int + settlement_plan)" where
  "plan_settlement C env =
     (let destinationChainId = falsy_or (map_of env ''DESTINATION_CHAIN_ID'') SOLANA_CHAIN_ID_TEXT;
          destination = falsy_or (map_of env ''DESTINATION_WALLET'') ''C9CZZFbeJ2Vzj9w8ctcsYKyK4mLQNq2vvsGwPJ7uEHtd'';
          amountWei = falsy_or (map_of env ''PROOF_AMOUNT_WEI'') []
      in if destinationChainId \<noteq> SOLANA_CHAIN_ID_TEXT then Inr (Inl 0)
         else if \<not> so_isPublicKey C destination then Inl (js ''Invalid public key input'')
         else if amountWei = [] then Inr (Inl 1)
         else (case weiToLamports amountWei of Inl e \<Rightarrow> Inl e
           | Inr amount \<Rightarrow>
               (case normalizeProofHashHex (map_of env ''PROOF_HASH_HEX'') of None \<Rightarrow> Inr (Inl 1)
                | Some h \<Rightarrow> Inr (Inr \<lparr>pl_destination = destination, pl_amount = amount, pl_proofHash = fromHex h\<rparr>))))"

definition read_nonce :: "'e solana \<Rightarrow> int \<Rightarrow> ('e script_world, int) js" where
  "read_nonce C back = bnd (call (so_nonce C)) (\<lambda>n.
     if nonce_ok (n - back) then js_ret (n - back) else js_throw (js ''value out of range''))"

text \<open>Step 1: the escrow; Step 2: the signed release of the intent before the current nonce.\<close>

definition escrow :: "'e solana \<Rightarrow> string \<Rightarrow> settlement_plan \<Rightarrow> ('e script_world, unit) js" where
  "escrow C hot plan =
     bnd (read_nonce C 0) (\<lambda>currentNonce.
     bnd (withTimeout ''getBalance(before)'' (so_balance C (pl_destination plan)) RPC_TIMEOUT_MS) (\<lambda>balanceBefore.
     bnd (js_get (\<lambda>w. so_now C (sw_env w) div 1000 + 3600)) (\<lambda>expiry.
     sq (note_event (Se_submit (so_pda C hot currentNonce) (pl_amount plan) (pl_destination plan)))
     (bnd (call (so_submit C (so_pda C hot currentNonce) (pl_amount plan) (pl_destination plan) expiry))
       (\<lambda>submitTx. js_ret ())))))"

definition release_of :: "'e solana \<Rightarrow> string \<Rightarrow> settlement_plan \<Rightarrow> int \<Rightarrow> release_tx" where
  "release_of C hot plan usedNonce =
     \<lparr>rx_intent = so_pda C hot usedNonce, rx_proofHash = pl_proofHash plan, rx_amount = pl_amount plan,
      rx_destination = pl_destination plan\<rparr>"

definition release_escrow :: "nat \<Rightarrow> 'e solana \<Rightarrow> string \<Rightarrow> settlement_plan \<Rightarrow> ('e script_world, unit) js" where
  "release_escrow fuel C hot plan =
     bnd (read_nonce C 1) (\<lambda>usedNonce.
     bnd (withTimeout ''getLatestBlockhash'' (so_blockhash C) RPC_TIMEOUT_MS) (\<lambda>lastValidBlockHeight.
     bnd (call (so_sign C (release_of C hot plan usedNonce))) (\<lambda>settleTx.
     sq (note_event (Se_sig settleTx))
     (sq (waitForGo fuel C)
     (sq (note_event (Se_send settleTx))
     (sq (withTimeout ''sendRawTransaction'' (so_send C settleTx) RPC_TIMEOUT_MS)
         (pollForConfirmation fuel C settleTx lastValidBlockHeight)))))))"

definition runSettlement :: "nat \<Rightarrow> 'e solana \<Rightarrow> env_vars \<Rightarrow> ('e script_world, int) js" where
  "runSettlement fuel C env =
     bnd (js_lift (plan_settlement C env)) (\<lambda>p. case p of
         Inl code \<Rightarrow> js_ret code
       | Inr plan \<Rightarrow>
           bnd (call (so_hotWallet C)) (\<lambda>hot.
           sq (escrow C hot plan)
           (sq (release_escrow fuel C hot plan)
           (bnd (withTimeout ''getBalance(after)'' (so_balance C (pl_destination plan)) RPC_TIMEOUT_MS) (\<lambda>_.
              js_ret 0)))))"

definition runAsScript :: "('e script_world, int) js \<Rightarrow> ('e script_world, int) js" where
  "runAsScript main = js_catch main (\<lambda>_. js_ret 1)"

section \<open>Rules\<close>

lemma wp_call [wp_simps]: "wp (call f) Q w = (case f (sw_env w) of (r, e) \<Rightarrow> Q r (w\<lparr>sw_env := e\<rparr>))"
  by (simp add: wp_def call_def split: prod.splits)

lemma wp_note [wp_simps]: "wp (note_event v) Q w = Q (Ok ()) (w\<lparr>sw_events := sw_events w @ [v]\<rparr>)"
  by (simp add: note_event_def wp_simps)

text \<open>An action that leaves the trace as it is.\<close>

definition silent :: "('e script_world, 'a) js \<Rightarrow> bool" where
  "silent m \<longleftrightarrow> (\<forall>vs. preserves (\<lambda>w. sw_events w = vs) m)"

lemma silentI: "(\<And>w. wp m (\<lambda>_ w'. sw_events w' = sw_events w) w) \<Longrightarrow> silent m"
  by (auto simp: silent_def intro!: preservesI elim: wp_mono)

lemma silent_wp: "silent m \<Longrightarrow> (\<And>r w'. sw_events w' = sw_events w \<Longrightarrow> Q r w') \<Longrightarrow> wp m Q w"
  unfolding silent_def by (blast intro: preserves_wp)

lemma silent_steps [intro]:
  "silent m \<Longrightarrow> (\<And>x. silent (k x)) \<Longrightarrow> silent (bnd m k)"
  "silent m' \<Longrightarrow> silent n \<Longrightarrow> silent (sq m' n)"
  "(b \<Longrightarrow> silent m) \<Longrightarrow> (\<not> b \<Longrightarrow> silent m2) \<Longrightarrow> silent (if b then m else m2)"
  unfolding silent_def by blast+

lemma silent_call [intro, simp]: "silent (call f)"
  by (rule silentI) (simp add: wp_simps split: prod.split)

lemma silent_prim [intro, simp]:
  "silent (js_ret x)" "silent (js_throw e)" "silent js_stop" "silent (js_get g)"
  "silent (withTimeout label op ms)"
  by (auto simp: silent_def withTimeout_def silent_call [unfolded silent_def])

lemma silent_nonce [intro, simp]: "silent (read_nonce C back)"
  unfolding read_nonce_def by (auto intro!: silent_steps)

lemma silent_poll: "silent (poll_loop fuel C sg h d)"
  by (induction fuel) (auto intro!: silent_steps)

lemma silent_pollForConfirmation: "silent (pollForConfirmation fuel C sg h)"
  unfolding pollForConfirmation_def by (auto intro!: silent_steps silent_poll)

lemma wp_waitForGo:
  "wp (waitForGo fuel C) (\<lambda>r w'. (r = Ok () \<longrightarrow> sw_events w' = sw_events w @ [Se_go]) \<and>
     (r \<noteq> Ok () \<longrightarrow> sw_events w' = sw_events w)) w"
proof (induction fuel arbitrary: w)
  case (Suc fuel)
  obtain ev e where ev: "so_stdin C (sw_env w) = (ev, e)" by fastforce
  from Suc.IH [of "w\<lparr>sw_env := e\<rparr>"] show ?case
    by (cases ev) (simp_all add: wp_simps ev)
qed (simp add: wp_simps)

text \<open>A poll that returns has been told that the transaction is confirmed.\<close>

definition told_confirmed :: "'e solana \<Rightarrow> string \<Rightarrow> bool" where
  "told_confirmed C sg \<longleftrightarrow> (\<exists>e e' v. so_status C sg e = (Some (Ok (Some v)), e') \<and> confirmed_status v \<and> \<not> sv_err v)"

lemma wp_poll_loop: "wp (poll_loop fuel C sg h d) (\<lambda>r _. r = Ok () \<longrightarrow> told_confirmed C sg) w"
proof (induction fuel arbitrary: w)
  case (Suc fuel)
  let ?no = "\<lambda>x. case x of Some v \<Rightarrow> sv_err v | None \<Rightarrow> False"
  let ?yes = "\<lambda>x. case x of Some v \<Rightarrow> confirmed_status v | None \<Rightarrow> False"
  define Q where "Q = (\<lambda>r (_ :: 'a script_world). r = Ok () \<longrightarrow> told_confirmed C sg)"
  have Q: "Q (Throw e) w" "Q Stop w" "Q (Ok ()) w = told_confirmed C sg" for e w
    by (simp_all add: Q_def)
  have status: "wp (withTimeout label (so_status C sg) RPC_TIMEOUT_MS)
      (\<lambda>r _. \<forall>x. r = Ok x \<longrightarrow> ?yes x \<longrightarrow> ?no x \<or> told_confirmed C sg) w" for label
  proof -
    obtain a e where "so_status C sg (sw_env w) = (a, e)" by fastforce
    then show ?thesis
      by (auto simp: withTimeout_def wp_simps told_confirmed_def split: option.splits)
  qed
  have height: "wp (withTimeout label (so_height C) RPC_TIMEOUT_MS) (\<lambda>_ _. True) w" for label w
    by (simp add: wpI)
  have rest: "wp (bnd (js_get (\<lambda>w. so_now C (sw_env w))) (\<lambda>now.
      if now \<ge> d then js_throw m
      else sq (call (\<lambda>e. (Ok (), so_sleep C POLL_INTERVAL_MS e))) (poll_loop fuel C sg h d))) Q w" for m w
    using Suc.IH by (simp add: wp_simps Q_def)
  have "wp (poll_loop (Suc fuel) C sg h d) Q w"
    unfolding poll_loop.simps
    by (rule wp_bndI [OF status]) (auto simp: wp_if wp_ret wp_throw Q intro!: wp_bndI [OF height] rest)
  then show ?case by (simp add: Q_def)
qed (simp add: wp_simps)

section \<open>The order of a settlement\<close>

definition signed_release :: "'e solana \<Rightarrow> string \<Rightarrow> settlement_plan \<Rightarrow> string \<Rightarrow> bool" where
  "signed_release C hot plan g \<longleftrightarrow> (\<exists>n e e'. so_sign C (release_of C hot plan n) e = (Ok g, e'))"

definition released :: "'e solana \<Rightarrow> string \<Rightarrow> settlement_plan \<Rightarrow> 'e script_world \<Rightarrow> unit outcome \<Rightarrow> 'e script_world \<Rightarrow> bool" where
  "released C hot plan w r w' \<longleftrightarrow> (sw_events w' = sw_events w \<and> r \<noteq> Ok ()) \<or>
     (\<exists>g k. sw_events w' = sw_events w @ take k [Se_sig g, Se_go, Se_send g] \<and> signed_release C hot plan g \<and>
        (r = Ok () \<longrightarrow> k = 3 \<and> told_confirmed C g))"

lemma silent_released:
  assumes "silent m" "\<And>x w'. sw_events w' = sw_events w \<Longrightarrow> wp (k x) (released C hot plan w) w'"
  shows "wp (bnd m k) (released C hot plan w) w"
  by (rule wp_bndI [where M = "\<lambda>_ w'. sw_events w' = sw_events w"])
    (auto intro: silent_wp [OF assms(1)] assms(2) simp: released_def)

lemma released_part:
  "sw_events w' = sw_events w @ take k [Se_sig g, Se_go, Se_send g] \<Longrightarrow> signed_release C hot plan g \<Longrightarrow>
   (r = Ok () \<Longrightarrow> k = 3 \<and> told_confirmed C g) \<Longrightarrow> released C hot plan w r w'"
  unfolding released_def by blast

lemma broadcast_released:
  assumes ev: "sw_events w1 = sw_events w @ take 3 [Se_sig g, Se_go, Se_send g]" and g: "signed_release C hot plan g"
  shows "wp (sq (withTimeout l (so_send C g) ms) (pollForConfirmation fuel C g h)) (released C hot plan w) w1"
proof -
  have poll: "wp (pollForConfirmation fuel C g h)
      (\<lambda>r w3. sw_events w3 = sw_events w1 \<and> (r = Ok () \<longrightarrow> told_confirmed C g)) w2"
    if "sw_events w2 = sw_events w1" for w2
  proof (rule wp_conj)
    show "wp (pollForConfirmation fuel C g h) (\<lambda>r w3. sw_events w3 = sw_events w1) w2"
      by (rule silent_wp [OF silent_pollForConfirmation]) (simp add: that)
    show "wp (pollForConfirmation fuel C g h) (\<lambda>r w3. r = Ok () \<longrightarrow> told_confirmed C g) w2"
      unfolding pollForConfirmation_def wp_bnd wp_get on_ok_simps by (rule wp_poll_loop)
  qed
  have "wp (sq (withTimeout l (so_send C g) ms) (pollForConfirmation fuel C g h))
      (\<lambda>r w3. sw_events w3 = sw_events w1 \<and> (r = Ok () \<longrightarrow> told_confirmed C g)) w1"
    by (rule wp_sqI [where M = "\<lambda>_ w2. sw_events w2 = sw_events w1"]) (auto intro: silent_wp poll)
  then show ?thesis
    by (rule wp_mono) (rule released_part [OF _ g], use ev in auto)
qed

lemma release_released: "wp (release_escrow fuel C hot plan) (released C hot plan w) w"
proof -
  have handed: "wp (sq (note_event (Se_sig g)) (sq (waitForGo fuel C) (sq (note_event (Se_send g))
      (sq (withTimeout l (so_send C g) ms) (pollForConfirmation fuel C g h))))) (released C hot plan w) w1"
    if ev: "sw_events w1 = sw_events w" and g: "signed_release C hot plan g" for g l ms h w1
    unfolding wp_sq [of "note_event (Se_sig g)"] wp_note on_ok_simps
  proof (rule wp_sqI [OF wp_waitForGo])
    fix w2 :: "'a script_world"
    let ?w1 = "w1\<lparr>sw_events := sw_events w1 @ [Se_sig g]\<rparr>"
    assume "(Ok () = (Ok () :: unit outcome) \<longrightarrow> sw_events w2 = sw_events ?w1 @ [Se_go]) \<and>
        (Ok () \<noteq> (Ok () :: unit outcome) \<longrightarrow> sw_events w2 = sw_events ?w1)"
    then show "wp (sq (note_event (Se_send g)) (sq (withTimeout l (so_send C g) ms) (pollForConfirmation fuel C g h)))
        (released C hot plan w) w2"
      unfolding wp_sq [of "note_event (Se_send g)"] wp_note on_ok_simps
      by (intro broadcast_released g) (simp add: ev)
  qed (rule released_part [OF _ g, where k = 1]; simp add: ev)+
  have sign: "wp (bnd (call (so_sign C (release_of C hot plan n))) (\<lambda>g. sq (note_event (Se_sig g))
      (sq (waitForGo fuel C) (sq (note_event (Se_send g))
        (sq (withTimeout l (so_send C g) ms) (pollForConfirmation fuel C g h)))))) (released C hot plan w) w1"
    if "sw_events w1 = sw_events w" for n l ms h w1
  proof -
    obtain r e where r: "so_sign C (release_of C hot plan n) (sw_env w1) = (r, e)" by fastforce
    then have "signed_release C hot plan g" if "r = Ok g" for g
      using that unfolding signed_release_def by blast
    then show ?thesis
      using that unfolding wp_bnd wp_call r
      by (cases r) (auto simp: released_def intro!: handed)
  qed
  show ?thesis
    unfolding release_escrow_def
    by (rule wp_bndI [where M = "\<lambda>_ w'. sw_events w' = sw_events w"],
        simp add: silent_wp, rule wp_bndI [where M = "\<lambda>_ w'. sw_events w' = sw_events w"])
      (auto intro: silent_wp sign simp: released_def)
qed

lemma escrow_submits:
  "wp (escrow C hot plan) (\<lambda>r w'. (sw_events w' = sw_events w \<and> r \<noteq> Ok ()) \<or>
     (\<exists>n. sw_events w' = sw_events w @ [Se_submit (so_pda C hot n) (pl_amount plan) (pl_destination plan)])) w"
  unfolding escrow_def
  by (rule wp_bndI [where M = "\<lambda>_ w'. sw_events w' = sw_events w"],
      simp add: silent_wp, rule wp_bndI [where M = "\<lambda>_ w'. sw_events w' = sw_events w"])
    (auto intro: silent_wp simp: wp_simps on_ok_def split: prod.split outcome.split)

text \<open>What the trace of a run can be: a part, from the start, of the full sequence.\<close>

definition run_trace :: "'e solana \<Rightarrow> settlement_plan \<Rightarrow> script_event list \<Rightarrow> bool" where
  "run_trace C plan vs \<longleftrightarrow> vs = [] \<or>
     (\<exists>hot n g k. vs = take k [Se_submit (so_pda C hot n) (pl_amount plan) (pl_destination plan), Se_sig g, Se_go, Se_send g]
        \<and> (2 \<le> k \<longrightarrow> signed_release C hot plan g))"

definition full_trace :: "'e solana \<Rightarrow> settlement_plan \<Rightarrow> script_event list \<Rightarrow> bool" where
  "full_trace C plan vs \<longleftrightarrow> (\<exists>hot n g.
     vs = [Se_submit (so_pda C hot n) (pl_amount plan) (pl_destination plan), Se_sig g, Se_go, Se_send g] \<and>
     signed_release C hot plan g \<and> told_confirmed C g)"

text \<open>C11: The order of a payout. Whatever happens to a run of the script, its effects are a beginning of:
  escrow the proof's amount for the destination, print the signature of the release that carries the
  proof's hash and amount, receive \<^verbatim>\<open>GO\<close>, broadcast that same transaction; and when it ends well the
  sequence is complete and the client has reported the transaction as confirmed.\<close>

theorem runSettlement_order:
  assumes "plan_settlement C vars = Inr (Inr plan)" and "runSettlement fuel C vars w = (r, w')"
  shows "\<exists>vs. sw_events w' = sw_events w @ vs \<and> run_trace C plan vs \<and> (r = Ok 0 \<longrightarrow> full_trace C plan vs)"
proof -
  define Q where "Q = (\<lambda>(r :: int outcome) (w' :: 'a script_world).
     \<exists>vs. sw_events w' = sw_events w @ vs \<and> run_trace C plan vs \<and> (r = Ok 0 \<longrightarrow> full_trace C plan vs))"
  have none: "Q r' w1" if "sw_events w1 = sw_events w" "r' \<noteq> Ok 0" for r' and w1 :: "'a script_world"
    unfolding Q_def run_trace_def using that by (intro exI [of _ "[]"]) simp
  have part: "Q r' w1" if "sw_events w1 = sw_events w @ take k
      [Se_submit (so_pda C hot n) (pl_amount plan) (pl_destination plan), Se_sig g, Se_go, Se_send g]"
    "2 \<le> k \<longrightarrow> signed_release C hot plan g" "r' \<noteq> Ok 0" for r' k hot n g and w1 :: "'a script_world"
    unfolding Q_def run_trace_def using that by blast
  let ?last = "bnd (withTimeout ''getBalance(after)'' (so_balance C (pl_destination plan)) RPC_TIMEOUT_MS) (\<lambda>_. js_ret 0)"
  have release: "wp (sq (release_escrow fuel C hot plan) ?last) Q w1"
    if w1: "sw_events w1 = sw_events w @ [Se_submit (so_pda C hot n) (pl_amount plan) (pl_destination plan)]"
    for hot n and w1 :: "'a script_world"
  proof (rule wp_sqI [OF release_released])
    have later: "Q r' w2" if "released C hot plan w1 r w2" "r \<noteq> Ok ()" "r' \<noteq> Ok 0" for r r' and w2 :: "'a script_world"
    proof -
      from that(1,2) consider "sw_events w2 = sw_events w1"
        | g k where "sw_events w2 = sw_events w1 @ take k [Se_sig g, Se_go, Se_send g]" "signed_release C hot plan g"
        unfolding released_def by blast
      then show ?thesis
      proof cases
        case 1
        then show ?thesis using part [of w2 1 hot n] w1 that(3) by simp
      next
        case (2 g k)
        then show ?thesis using part [of w2 "Suc k" hot n g] w1 that(3) by simp
      qed
    qed
    show "Q (Throw e) w2" if "released C hot plan w1 (Throw e) w2" for e and w2 :: "'a script_world"
      by (rule later [OF that]) simp_all
    show "Q Stop w2" if "released C hot plan w1 Stop w2" for w2 :: "'a script_world"
      by (rule later [OF that]) simp_all
    fix w2 :: "'a script_world" assume "released C hot plan w1 (Ok ()) w2"
    then obtain g where g: "sw_events w2 = sw_events w1 @ [Se_sig g, Se_go, Se_send g]" "signed_release C hot plan g"
      "told_confirmed C g"
      unfolding released_def by auto
    have "Q r w3" if "sw_events w3 = sw_events w2" for r and w3 :: "'a script_world"
    proof -
      let ?vs = "[Se_submit (so_pda C hot n) (pl_amount plan) (pl_destination plan), Se_sig g, Se_go, Se_send g]"
      have "run_trace C plan ?vs"
        unfolding run_trace_def using g(2) by (intro disjI2 exI [of _ hot] exI [of _ n] exI [of _ g] exI [of _ 4]) simp
      moreover have "full_trace C plan ?vs"
        unfolding full_trace_def using g(2,3) by blast
      ultimately show ?thesis
        unfolding Q_def using that g(1) w1 by (intro exI [of _ ?vs]) simp
    qed
    then show "wp ?last Q w2"
      by (intro wp_bndI [where M = "\<lambda>_ w3. sw_events w3 = sw_events w2"]) (auto intro: silent_wp simp: wp_ret)
  qed
  have "wp (bnd (call (so_hotWallet C)) (\<lambda>hot. sq (escrow C hot plan) (sq (release_escrow fuel C hot plan) ?last))) Q w"
  proof (rule wp_bndI [where M = "\<lambda>_ w1. sw_events w1 = sw_events w"])
    fix hot and w1 :: "'a script_world" assume w1: "sw_events w1 = sw_events w"
    have one: "Q r' w2" if "sw_events w2 = sw_events w1 @ [Se_submit (so_pda C hot n) (pl_amount plan) (pl_destination plan)]"
      "r' \<noteq> Ok 0" for r' n and w2 :: "'a script_world"
      using part [of w2 1 hot n] that w1 by simp
    show "wp (sq (escrow C hot plan) (sq (release_escrow fuel C hot plan) ?last)) Q w1"
      by (rule wp_sqI [OF escrow_submits]) (use w1 in \<open>auto intro: release one none\<close>)
  qed (auto intro: none silent_wp)
  then show ?thesis
    using assms by (auto simp: runSettlement_def js_lift_def bnd_def js_ret_def wp_def Q_def split: prod.splits outcome.splits)
qed

end
