(* ===== verification/Settle_Properties.thy ===== *)
theory Settle_Properties
  imports Settle_Intent
begin

text \<open>
  What the payout script's conversions keep, when a run does nothing, why a second run escrows again,
  that polling ends, and a complete run on a sample client.
\<close>

section \<open>Amounts and hashes: what the conversions keep\<close>

text \<open>The conversion to lamports rejects what \<^verbatim>\<open>BigInt\<close> rejects, and otherwise truncates towards zero:
  a billion times the result has the sign of the amount and is within a billion below its magnitude.\<close>

theorem weiToLamports_spec:
  "case js_BigInt s of
     Inl e \<Rightarrow> weiToLamports s = Inl e
   | Inr wei \<Rightarrow> \<exists>l. weiToLamports s = Inr l \<and> \<bar>l\<bar> * 10 ^ 9 \<le> \<bar>wei\<bar> \<and> \<bar>wei\<bar> < (\<bar>l\<bar> + 1) * 10 ^ 9 \<and> 0 \<le> l * wei"
proof -
  have "\<bar>bigdiv wei 1000000000\<bar> = \<bar>wei\<bar> div 1000000000" for wei
    by (cases "wei = 0") (simp_all add: bigdiv_def abs_mult abs_sgn_eq)
  moreover have "0 \<le> bigdiv wei 1000000000 * wei" for wei
    by (cases "0 \<le> wei") (simp_all add: bigdiv_def sgn_if mult_nonneg_nonpos pos_imp_zdiv_nonneg_iff)
  moreover have "a div 1000000000 * 10 ^ 9 \<le> a \<and> a < (a div 1000000000 + 1) * 10 ^ 9" for a :: int
    by simp presburger
  ultimately show ?thesis
    by (simp add: weiToLamports_def split: sum.split)
qed

lemma is_hex_code: "is_hex c \<longleftrightarrow> (of_char c :: nat) \<in> {48..57} \<union> {65..70} \<union> {97..102}"
proof -
  have "is_hex c \<longleftrightarrow> (of_char c :: nat) \<in> of_char ` set ''0123456789abcdefABCDEF''"
    unfolding is_hex_def by (subst inj_image_mem_iff) (auto intro: injI)
  also have "of_char ` set ''0123456789abcdefABCDEF'' = set (map (of_char :: char \<Rightarrow> nat) ''0123456789abcdefABCDEF'')"
    by (rule set_map [symmetric])
  also have "map (of_char :: char \<Rightarrow> nat) ''0123456789abcdefABCDEF'' = [48..<58] @ [97..<103] @ [65..<71]"
    by (simp add: upt_rec)
  finally show ?thesis
    by (simp only: set_append set_upt Un_iff atLeastLessThan_iff atLeastAtMost_iff) arith
qed

lemma is_hex_cases:
  assumes "is_hex c"
  obtains d where "d < 16" "digit_val 16 (lower_char c) = Some d" "digit_char d = lower_char c"
proof
  define n where "n = (of_char c :: nat)"
  have n: "n \<in> {48..57} \<union> {65..70} \<union> {97..102}"
    using assms unfolding is_hex_code n_def .
  have c: "c = char_of n"
    by (simp add: n_def)
  define d where "d = (if n < 58 then n - 48 else if n < 71 then n - 55 else n - 87)"
  show "d < 16" using n by (auto simp: d_def)
  show *: "digit_char d = lower_char c"
    using n unfolding lower_char_def n_def [symmetric] c by (auto simp: d_def digit_char_def)
  show "digit_val 16 (lower_char c) = Some d"
    unfolding * [symmetric] using \<open>d < 16\<close> by simp
qed

lemma lower_is_hex: "d < 16 \<Longrightarrow> lower_char c = digit_char d \<Longrightarrow> is_hex c"
proof -
  assume d: "d < 16" and c: "lower_char c = digit_char d"
  define n where "n = (of_char c :: nat)"
  have n: "n < 256" using of_char_mod_256 [of c, where ?'a = nat] mod_less_divisor [of 256 n] by (simp add: n_def)
  have "(of_char (lower_char c) :: nat) = (if 65 \<le> n \<and> n \<le> 90 \<or> 192 \<le> n \<and> n \<le> 222 \<and> n \<noteq> 215 then n + 32 else n)"
    by (simp add: lower_char_def n_def [symmetric] Let_def)
  then have l: "(if 65 \<le> n \<and> n \<le> 90 \<or> 192 \<le> n \<and> n \<le> 222 \<and> n \<noteq> 215 then n + 32 else n) = (of_char (digit_char d) :: nat)"
    unfolding c by (rule sym)
  have "(of_char (digit_char d) :: nat) = (if d < 10 then 48 + d else 87 + d)"
    using d by (simp add: digit_char_def)
  from l [unfolded this] have "(if 65 \<le> n \<and> n \<le> 90 \<or> 192 \<le> n \<and> n \<le> 222 \<and> n \<noteq> 215 then n + 32 else n) =
      (if d < 10 then 48 + d else 87 + d)"
    .
  with d show "is_hex c"
    unfolding is_hex_code n_def [symmetric] by (auto split: if_splits)
qed

lemma toHex_hex: "list_all is_hex (toHex bs)"
proof -
  have "is_hex (digit_char d)" if "d < 16" for d
    using that unfolding is_hex_code by (auto simp: digit_char_def)
  moreover have "unat (b :: 8 word) div 16 < 16" "unat b mod 16 < 16" for b
    using unat_byte [of b] by simp_all
  ultimately show ?thesis
    by (auto simp: toHex_def list_all_iff)
qed

lemma toHex_length [simp]: "length (toHex bs) = 2 * length bs"
  by (induction bs) (simp_all add: toHex_def)

lemma hex_bytes:
  "list_all is_hex t \<Longrightarrow> length t = 2 * n \<Longrightarrow> \<exists>bs. length bs = n \<and> toLowerCase t = toHex bs"
proof (induction n arbitrary: t)
  case (Suc n)
  obtain a b u where t: "t = a # b # u" and u: "length u = 2 * n"
    using Suc.prems(2) by (cases t rule: fromHex.cases) auto
  obtain bs where bs: "length bs = n" "toLowerCase u = toHex bs"
    using Suc.IH [OF _ u] Suc.prems(1) t by auto
  obtain x y where xy: "x < 16" "digit_char x = lower_char a" "y < 16" "digit_char y = lower_char b"
    using Suc.prems(1) t by (auto elim!: is_hex_cases)
  define v where "v = 16 * x + y"
  have "v < 256" using xy by (simp add: v_def)
  then have "unat (word_of_nat v :: 8 word) = v"
    by (simp add: unsigned_of_nat take_bit_nat_eq_self)
  moreover have "v div 16 = x" "v mod 16 = y" using xy by (simp_all add: v_def)
  ultimately have "toLowerCase t = toHex (word_of_nat v # bs)"
    using xy bs by (simp add: t toHex_def toLowerCase_def)
  with bs show ?case by (metis length_Cons)
qed (simp add: toHex_def toLowerCase_def)

lemma lower_hex: "toLowerCase t = toHex bs \<Longrightarrow> list_all is_hex t"
proof -
  assume t: "toLowerCase t = toHex bs"
  have "is_hex c" if "c \<in> set t" for c
  proof -
    have "lower_char c \<in> set (toHex bs)"
      using that unfolding t [symmetric] toLowerCase_def by simp
    then have "is_hex (lower_char c)"
      using toHex_hex [of bs] by (auto simp: list_all_iff)
    then obtain d where "d < 16" "digit_char d = lower_char c"
      by (auto elim: is_hex_cases)
    then show ?thesis by (auto intro: lower_is_hex)
  qed
  then show ?thesis by (simp add: list_all_iff)
qed

text \<open>C38: The proof hash that is accepted: exactly the hexadecimal texts of 32 bytes, in either case and
  with or without a prefix, and the answer is the text the orchestrator computes from those bytes.\<close>

theorem normalizeProofHashHex_spec:
  "normalizeProofHashHex (Some s) = Some h \<longleftrightarrow>
     (\<exists>bs p t. s = p @ t \<and> p \<in> {[], ''0x'', ''0X''} \<and> length bs = 32 \<and> toLowerCase t = toHex bs \<and> h = toHex bs)"
proof -
  define ok where "ok t = (length t = 64 \<and> list_all is_hex t)" for t
  have ok: "ok t \<longleftrightarrow> (\<exists>bs. length bs = 32 \<and> toLowerCase t = toHex bs)" for t
  proof
    show "ok t" if "\<exists>bs. length bs = 32 \<and> toLowerCase t = toHex bs"
    proof -
      from that obtain bs where bs: "length bs = 32" "toLowerCase t = toHex bs" by blast
      have "length (toLowerCase t) = 64" unfolding bs(2) by (simp add: bs(1))
      with lower_hex [OF bs(2)] show ?thesis by (simp add: ok_def)
    qed
  qed (use hex_bytes [of t 32] in \<open>simp add: ok_def\<close>)
  have no: "\<not> ok (CHR ''0'' # CHR ''x'' # t)" "\<not> ok (CHR ''0'' # CHR ''X'' # t)" for t
    by (simp_all add: ok_def is_hex_def)
  have "normalizeProofHashHex (Some s) = Some h \<longleftrightarrow> (\<exists>p t. s = p @ t \<and> p \<in> {[], ''0x'', ''0X''} \<and> ok t \<and> h = toLowerCase t)"
  proof (cases "take 2 s = ''0x'' \<or> take 2 s = ''0X''")
    case True
    then obtain p where p: "p = ''0x'' \<or> p = ''0X''" "s = p @ drop 2 s"
      by (metis append_take_drop_id)
    then have "\<not> ok s" using no by (metis append.simps)
    with True p show ?thesis
      unfolding normalizeProofHashHex_def ok_def [symmetric] Let_def by auto
  next
    case False
    then show ?thesis
      unfolding normalizeProofHashHex_def ok_def [symmetric] Let_def by auto
  qed
  also have "\<dots> \<longleftrightarrow> (\<exists>bs p t. s = p @ t \<and> p \<in> {[], ''0x'', ''0X''} \<and> length bs = 32 \<and> toLowerCase t = toHex bs \<and>
      h = toHex bs)"
    unfolding ok by (rule iffI; elim exE conjE; metis)
  finally show ?thesis .
qed

section \<open>When the script does nothing, and when it does it again\<close>

text \<open>C40: Success without a payout. For a destination on another chain the script ends with exit code 0,
  the code of a payout that was made, and has had no effect.\<close>

theorem other_chain_exits_0:
  assumes "map_of vars ''DESTINATION_CHAIN_ID'' = Some c" "c \<noteq> []" "c \<noteq> SOLANA_CHAIN_ID_TEXT"
  shows "runAsScript (runSettlement fuel C vars) w = (Ok 0, w)"
  using assms by (simp add: runAsScript_def runSettlement_def plan_settlement_def js_lift_def js_catch_def bnd_def
      js_ret_def)

definition extends :: "script_event list \<Rightarrow> 'e script_world \<Rightarrow> bool" where
  "extends vs w \<longleftrightarrow> (\<exists>us. sw_events w = vs @ us)"

lemma extends_silent: "silent m \<Longrightarrow> preserves (extends vs) m"
  by (rule preservesI) (auto simp: extends_def elim!: silent_wp)

lemma extends_note [intro, simp]: "preserves (extends vs) (note_event v)"
  by (rule preservesI) (auto simp: wp_simps extends_def)

lemma extends_waitForGo: "preserves (extends vs) (waitForGo fuel C)"
proof (rule preservesI)
  fix w :: "'a script_world" assume "extends vs w"
  then show "wp (waitForGo fuel C) (\<lambda>_. extends vs) w"
    by (intro wp_mono [OF wp_waitForGo]) (auto simp: extends_def)
qed

lemma extends_release: "preserves (extends vs) (release_escrow fuel C hot plan)"
  unfolding release_escrow_def
  by (intro preserves_bnd preserves_sq extends_note extends_waitForGo extends_silent silent_prim silent_call
      silent_nonce silent_pollForConfirmation)

lemma escrow_event:
  assumes "so_nonce C (sw_env w) = (Ok n, e2)" "nonce_ok n"
    "so_balance C (pl_destination plan) e2 = (Some (Ok b), e3)"
  shows "wp (escrow C hot plan)
    (\<lambda>_ w'. sw_events w' = sw_events w @ [Se_submit (so_pda C hot n) (pl_amount plan) (pl_destination plan)]) w"
  using assms unfolding escrow_def read_nonce_def withTimeout_def
  by (auto simp: wp_simps on_ok_def split: prod.split outcome.split)

text \<open>C39: Every run escrows again. Whatever the trace of earlier runs holds, a run whose settings are
  complete and that can read the wallet, the program's nonce and the balance submits an intent with the
  full amount, at the address of the nonce it has read.\<close>

theorem every_run_escrows:
  assumes "plan_settlement C vars = Inr (Inr plan)" "so_hotWallet C (sw_env w) = (Ok hot, e1)"
    "so_nonce C e1 = (Ok n, e2)" "nonce_ok n" "so_balance C (pl_destination plan) e2 = (Some (Ok b), e3)"
    "runAsScript (runSettlement fuel C vars) w = (r, w')"
  shows "\<exists>vs. sw_events w' = sw_events w @ Se_submit (so_pda C hot n) (pl_amount plan) (pl_destination plan) # vs"
proof -
  let ?vs = "sw_events w @ [Se_submit (so_pda C hot n) (pl_amount plan) (pl_destination plan)]"
  let ?tail = "bnd (withTimeout ''getBalance(after)'' (so_balance C (pl_destination plan)) RPC_TIMEOUT_MS) (\<lambda>_. js_ret 0)"
  have tail: "preserves (extends ?vs) (sq (release_escrow fuel C hot plan) ?tail)"
    by (intro preserves_bnd preserves_sq preserves_ret extends_release extends_silent silent_prim)
  have "wp (sq (escrow C hot plan) (sq (release_escrow fuel C hot plan) ?tail)) (\<lambda>_. extends ?vs) (w\<lparr>sw_env := e1\<rparr>)"
    by (rule wp_sqI [OF escrow_event]) (use assms in \<open>auto simp: extends_def intro: preservesD [OF tail]\<close>)
  then have "wp (runSettlement fuel C vars) (\<lambda>_. extends ?vs) w"
    using assms by (simp add: runSettlement_def wp_simps)
  then have "wp (runAsScript (runSettlement fuel C vars)) (\<lambda>_. extends ?vs) w"
    unfolding runAsScript_def by (rule wp_catchI) (simp_all add: wp_simps)
  from wpD [OF this assms(6)] show ?thesis by (auto simp: extends_def)
qed

section \<open>Polling comes to an end\<close>

text \<open>What is relied on: no call turns the clock back or is cut off, and a sleep lasts.\<close>

definition clock_runs :: "'e solana \<Rightarrow> string \<Rightarrow> bool" where
  "clock_runs C sg \<longleftrightarrow>
     (\<forall>e. fst (so_status C sg e) \<noteq> Some Stop \<and> so_now C e \<le> so_now C (snd (so_status C sg e))) \<and>
     (\<forall>e. fst (so_height C e) \<noteq> Some Stop \<and> so_now C e \<le> so_now C (snd (so_height C e))) \<and>
     (\<forall>e. so_now C e + POLL_INTERVAL_MS \<le> so_now C (so_sleep C POLL_INTERVAL_MS e))"

lemma withTimeout_clock:
  assumes "\<forall>e. fst (f e) \<noteq> Some Stop \<and> now e \<le> (now (snd (f e)) :: int)"
  shows "wp (withTimeout label f ms) (\<lambda>r w'. r \<noteq> Stop \<and> now (sw_env w) \<le> now (sw_env w')) w"
proof -
  obtain r e where "f (sw_env w) = (r, e)" by fastforce
  with assms show ?thesis
    by (auto simp: withTimeout_def wp_call split: option.split dest: spec [of _ "sw_env w"])
qed

lemma poll_step:
  assumes clock: "clock_runs C sg"
    and again: "\<And>w'. so_now C (sw_env w) \<le> so_now C (sw_env w') \<Longrightarrow> so_now C (sw_env w') < d \<Longrightarrow>
      wp (poll_loop n C sg h d) (\<lambda>r _. r \<noteq> Stop) (w'\<lparr>sw_env := so_sleep C POLL_INTERVAL_MS (sw_env w')\<rparr>)"
  shows "wp (poll_loop (Suc n) C sg h d) (\<lambda>r _. r \<noteq> Stop) w"
proof -
  define Q where "Q = (\<lambda>(r :: unit outcome) (_ :: 'a script_world). r \<noteq> Stop)"
  have Q: "Q (Throw e) w'" "Q (Ok x) w'" "\<not> Q Stop w'" for e x w' by (simp_all add: Q_def)
  have height: "wp (withTimeout l (so_height C) ms)
      (\<lambda>r w2. r \<noteq> Stop \<and> so_now C (sw_env w1) \<le> so_now C (sw_env w2)) w1" for l ms w1
    by (rule withTimeout_clock) (use clock in \<open>simp add: clock_runs_def\<close>)
  have rest: "wp (bnd (js_get (\<lambda>w. so_now C (sw_env w))) (\<lambda>now.
      if now \<ge> d then js_throw m
      else sq (call (\<lambda>e. (Ok (), so_sleep C POLL_INTERVAL_MS e))) (poll_loop n C sg h d))) Q w2"
    if "so_now C (sw_env w) \<le> so_now C (sw_env w2)" for m w2
    using again [OF that] by (simp add: wp_simps Q_def)
  have "wp (poll_loop (Suc n) C sg h d) Q w"
    unfolding poll_loop.simps
    by (rule wp_bndI [OF withTimeout_clock [where now = "so_now C"]])
      (use clock in \<open>auto simp: clock_runs_def wp_if wp_ret wp_throw Q intro!: wp_bndI [OF height] rest\<close>)
  then show ?thesis by (simp add: Q_def)
qed

lemma poll_loop_ends:
  assumes clock: "clock_runs C sg" and "d - so_now C (sw_env w) \<le> int n * POLL_INTERVAL_MS"
  shows "wp (poll_loop (Suc n) C sg h d) (\<lambda>r _. r \<noteq> Stop) w"
  using assms(2)
proof (induction n arbitrary: w)
  case 0
  then show ?case by (intro poll_step [OF clock]) simp
next
  case (Suc n)
  show ?case
  proof (rule poll_step [OF clock], rule Suc.IH)
    fix w' :: "'a script_world"
    assume "so_now C (sw_env w) \<le> so_now C (sw_env w')"
    moreover have "so_now C (sw_env w') + POLL_INTERVAL_MS \<le> so_now C (so_sleep C POLL_INTERVAL_MS (sw_env w'))"
      using clock by (simp add: clock_runs_def)
    ultimately show "d - so_now C (sw_env (w'\<lparr>sw_env := so_sleep C POLL_INTERVAL_MS (sw_env w')\<rparr>)) \<le> int n * POLL_INTERVAL_MS"
      using Suc.prems by (simp add: algebra_simps)
  qed
qed

text \<open>C37: Polling always comes to an end. If the clock never goes back and every pause lasts its two
  seconds, 46 rounds are enough: the deadline of 90 seconds has then passed.\<close>

theorem pollForConfirmation_ends:
  assumes "clock_runs C sg" and "46 \<le> fuel"
  shows "fst (pollForConfirmation fuel C sg h w) \<noteq> Stop"
proof -
  obtain n where n: "fuel = Suc n" "45 \<le> n" using assms(2) by (cases fuel) auto
  then have "POLL_TIMEOUT_MS \<le> int n * POLL_INTERVAL_MS"
    by (simp add: POLL_TIMEOUT_MS_def POLL_INTERVAL_MS_def)
  then have "wp (pollForConfirmation fuel C sg h) (\<lambda>r _. r \<noteq> Stop) w"
    unfolding pollForConfirmation_def wp_bnd wp_get on_ok_simps n(1)
    by (intro poll_loop_ends [OF assms(1)]) simp
  then show ?thesis by (simp add: wp_def split: prod.splits)
qed

section \<open>A run\<close>

text \<open>A client that answers at once; the world is the clock and the number of polls so far.\<close>

definition sample_client :: "(int \<times> nat) solana" where
  "sample_client = \<lparr>so_now = fst, so_isPublicKey = (\<lambda>s. s \<noteq> []), so_hotWallet = (\<lambda>e. (Ok ''hot'', e)),
     so_nonce = (\<lambda>e. (Ok (if snd e = 0 then 7 else 8), e)), so_pda = (\<lambda>a n. if n = 7 then ''pda7'' else ''pda8''),
     so_balance = (\<lambda>a e. (Some (Ok 5), e)), so_submit = (\<lambda>a n d x e. (Ok ''tx'', (fst e, 1))),
     so_blockhash = (\<lambda>e. (Some (Ok 10), e)), so_sign = (\<lambda>x e. (Ok (rx_intent x), e)),
     so_stdin = (\<lambda>e. (St_chunk ''GO'', e)), so_send = (\<lambda>s e. (Some (Ok ()), e)),
     so_status = (\<lambda>s e. (Some (Ok (if snd e < 2 then None else Some \<lparr>sv_err = False, sv_confirmationStatus = Some ''confirmed''\<rparr>)), e)),
     so_height = (\<lambda>e. (Some (Ok 9), e)), so_sleep = (\<lambda>ms e. (fst e + ms, Suc (snd e)))\<rparr>"

definition sample_plan :: settlement_plan where
  "sample_plan = \<lparr>pl_destination = ''dest'', pl_amount = 2, pl_proofHash = replicate 32 171\<rparr>"

definition sample_vars :: env_vars where
  "sample_vars = [(''DESTINATION_WALLET'', pl_destination sample_plan), (''PROOF_AMOUNT_WEI'', bigint_toString 2999999999),
     (''PROOF_HASH_HEX'', toHex (pl_proofHash sample_plan))]"

definition sample_start :: "(int \<times> nat) script_world" where
  "sample_start = \<lparr>sw_events = [], sw_env = (0, 0)\<rparr>"

lemma lower_toHex [simp]: "toLowerCase (toHex bs) = toHex bs"
proof -
  have "lower_char (digit_char d) = digit_char d" if "d < 16" for d
    using that by (auto simp: lower_char_def digit_char_def)
  moreover have "unat (b :: 8 word) div 16 < 16" "unat b mod 16 < 16" for b
    using unat_byte [of b] by simp_all
  ultimately show ?thesis
    by (simp add: toHex_def toLowerCase_def map_concat comp_def)
qed

lemma normalize_toHex: "length bs = 32 \<Longrightarrow> normalizeProofHashHex (Some (toHex bs)) = Some (toHex bs)"
proof -
  assume "length bs = 32"
  have "take 2 (toHex bs) \<noteq> [CHR ''0'', c]" if "\<not> is_hex c" for c
  proof
    assume *: "take 2 (toHex bs) = [CHR ''0'', c]"
    have "c \<in> set (take 2 (toHex bs))" unfolding * by simp
    then have "c \<in> set (toHex bs)" by (rule in_set_takeD)
    with toHex_hex [of bs] that show False by (auto simp: list_all_iff)
  qed
  moreover have "\<not> is_hex (CHR ''x'')" "\<not> is_hex (CHR ''X'')" by (simp_all add: is_hex_def)
  ultimately show ?thesis
    using toHex_hex [of bs] \<open>length bs = 32\<close> by (simp add: normalizeProofHashHex_def)
qed

lemma vars_plan: "so_isPublicKey C ''dest'' \<Longrightarrow> plan_settlement C sample_vars = Inr (Inr sample_plan)"
proof -
  assume "so_isPublicKey C ''dest''"
  moreover have "weiToLamports (bigint_toString 2999999999) = Inr 2"
    by (simp add: weiToLamports_def bigdiv_def)
  moreover have "bigint_toString 2999999999 \<noteq> []"
    by (simp add: bigint_toString_def)
  ultimately show ?thesis
    by (simp add: plan_settlement_def sample_vars_def sample_plan_def normalize_toHex)
qed

lemma sample_vars_plan: "plan_settlement sample_client sample_vars = Inr (Inr sample_plan)"
  by (rule vars_plan) (simp add: sample_client_def)

lemmas run_defs = runSettlement_def escrow_def release_escrow_def release_of_def read_nonce_def nonce_ok_def withTimeout_def call_def
  note_event_def pollForConfirmation_def bnd_def sq_def js_ret_def js_throw_def js_get_def js_mod_def js_lift_def
  js_catch_def

lemma sample_run: "runSettlement 3 sample_client sample_vars sample_start =
    (Ok 0, \<lparr>sw_events = [Se_submit ''pda7'' 2 ''dest'', Se_sig ''pda7'', Se_go, Se_send ''pda7''], sw_env = (2000, 2)\<rparr>)"
  unfolding runSettlement_def sample_vars_plan
  by (simp add: run_defs sample_plan_def sample_client_def sample_start_def eval_nat_numeral POLL_TIMEOUT_MS_def POLL_INTERVAL_MS_def confirmed_status_def)

theorem runSettlement_order_witness:
  "full_trace sample_client sample_plan [Se_submit ''pda7'' 2 ''dest'', Se_sig ''pda7'', Se_go, Se_send ''pda7'']"
  using runSettlement_order [OF sample_vars_plan sample_run] by (simp add: sample_start_def)

theorem other_chain_exits_0_witness:
  "runAsScript (runSettlement 3 sample_client ((''DESTINATION_CHAIN_ID'', ''3448148188'') # sample_vars)) sample_start =
    (Ok 0, sample_start)"
  by (rule other_chain_exits_0 [where c = "''3448148188''"]) (simp_all add: SOLANA_CHAIN_ID_TEXT_def)

text \<open>The block hash does not arrive: the script fails after its escrow, and the next run escrows again.\<close>

definition slow_client :: "(int \<times> nat) solana" where
  "slow_client = sample_client\<lparr>so_blockhash := \<lambda>e. (None, e)\<rparr>"

lemma slow_vars_plan: "plan_settlement slow_client sample_vars = Inr (Inr sample_plan)"
  by (rule vars_plan) (simp add: slow_client_def sample_client_def)

lemma slow_run: "runAsScript (runSettlement 3 slow_client sample_vars) sample_start =
    (Ok 1, \<lparr>sw_events = [Se_submit ''pda7'' 2 ''dest''], sw_env = (0, 1)\<rparr>)"
  unfolding runAsScript_def runSettlement_def slow_vars_plan
  by (simp add: run_defs sample_plan_def slow_client_def sample_client_def sample_start_def)

theorem every_run_escrows_witness:
  "\<exists>vs. sw_events (snd (runAsScript (runSettlement 3 slow_client sample_vars)
      (snd (runAsScript (runSettlement 3 slow_client sample_vars) sample_start)))) =
    [Se_submit ''pda7'' 2 ''dest'', Se_submit ''pda8'' 2 ''dest''] @ vs"
proof -
  let ?w = "\<lparr>sw_events = [Se_submit ''pda7'' 2 ''dest''], sw_env = (0, 1)\<rparr>"
  obtain r w' where run: "runAsScript (runSettlement 3 slow_client sample_vars) ?w = (r, w')" by fastforce
  have "so_hotWallet slow_client (sw_env ?w) = (Ok ''hot'', (0, 1))" "so_nonce slow_client (0, 1) = (Ok 8, (0, 1))"
    "nonce_ok 8" "so_balance slow_client (pl_destination sample_plan) (0, 1) = (Some (Ok 5), (0, 1))"
    by (simp_all add: slow_client_def sample_client_def nonce_ok_def)
  from every_run_escrows [OF slow_vars_plan this run]
  show ?thesis
    unfolding slow_run snd_conv run by (simp add: slow_client_def sample_client_def sample_plan_def)
qed

theorem pollForConfirmation_ends_witness:
  "fst (pollForConfirmation 46 (sample_client\<lparr>so_status := \<lambda>s e. (Some (Ok None), e)\<rparr>) ''sig'' 10 sample_start) \<noteq> Stop"
  by (rule pollForConfirmation_ends) (simp_all add: clock_runs_def sample_client_def)

end
