(* ===== verification/Spec2Isabelle.thy ===== *)
theory Spec2Isabelle
  imports Redact Arb_Ledger Settled_Ledger Prover_Pipeline Arb_Config Arb_Settlement Write_Ahead
    Solver_Stats Selection Dispatch Wallet_Codec Listener Process_Properties Safety Refused_Write Rpc_Process Tron_Listener
    Settle_Properties
begin

text \<open>
  The settlement orchestrator of the ma-at bridge (\<^verbatim>\<open>src/orchestrator\<close>): three Node programs written in
  TypeScript and JavaScript, modelled as executable functions, with the theorems that make them safe to
  run with money.

  \<^bold>\<open>The system.\<close> A user opens an intent on Arbitrum; the listener (\<^verbatim>\<open>listener.ts\<close>) sees the log, records it,
  and queues a proving job. The job runs the prover (\<^verbatim>\<open>prover_pipeline.ts\<close>), checks the proof's JSON at the settle
  gate, selects a solver (\<^verbatim>\<open>solver_routing.ts\<close>, with track records from \<^verbatim>\<open>solver_stats.ts\<close>), and runs the
  settlement sequence (\<^verbatim>\<open>arbitrum_settlement.ts\<close>): post the solver's collateral, check it on chain, pay on Solana
  by a child process (\<^verbatim>\<open>settle_intent.js\<close>), confirm on Arbitrum, or after the expiry slash the collateral. Two
  ledger files say how far each intent is: \<^verbatim>\<open>arbitrum_ledger.ts\<close> for the Arbitrum side, the settled ledger of
  \<^verbatim>\<open>prover_pipeline.ts\<close> for the payout; \<^verbatim>\<open>intent_state.ts\<close> keeps display records. At start-up and periodically
  the ledgers are reconciled with the chains. \<^verbatim>\<open>tron_listener.ts\<close> is a second process that only records
  TRON intents. All RPC goes through \<^verbatim>\<open>rpc_rotation.ts\<close>; all texts that are shown through \<^verbatim>\<open>redact.ts\<close>.

  \<^bold>\<open>How code becomes definitions.\<close>
  \<^item> An asynchronous function is a function \<open>'w \<Rightarrow> 'a outcome \<times> 'w\<close> (type \<open>js\<close>, \<open>Maat_Prelude\<close>): it returns
    (\<open>Ok\<close>), throws (\<open>Throw\<close>), or never comes back (\<open>Stop\<close>: the process was killed there, or waits for ever); \<open>bnd\<close>,
    \<open>sq\<close>, \<open>js_catch\<close>, \<open>js_finally\<close> are await, sequence, catch and finally. \<open>wp\<close> is its weakest precondition and
    \<open>preserves\<close> the invariants it keeps, however it ends.
  \<^item> \<open>world\<close> (\<open>World\<close>) is the state of one process: the two ledgers in memory and on disk, display records,
    alerts, the reservation book, the cache of statistics, the trace of effects (\<open>event\<close>), and the outside
    \<open>'e\<close>, on which the operations of \<open>os\<close> act (clock, disk, RPC, child processes, files). These operations and the
    hash functions, \<^verbatim>\<open>PublicKey\<close>, Solana's client (\<open>solana\<close>), TronGrid (\<open>tn_fetch\<close>) and the HTTP post (\<open>net\<close>) are
    parameters: every property holds for all of them, or names what it relies on.
  \<^item> \<open>bigint\<close> is \<open>int\<close>; a JavaScript number is \<open>jsnum\<close>, NaN, an infinity or an exact rational. Texts that
    contain non-Latin-1 characters (dashes in messages) are \<open>jstext\<close>, others \<open>string\<close>. Bytes are 8-bit words.
  \<^item> A \<^verbatim>\<open>Map\<close> or plain object is \<open>jmap\<close>, a list of pairs in insertion order. Files are overwritten in
    place, so a write is done, refused, or cut off after the truncation (\<open>write_result\<close>).
  \<^item> Retry loops take a fuel argument and end in \<open>Stop\<close> without it, like a killed process; safety properties
    hold for every fuel. \<open>wr_fuel\<close> is the fuel of the listener's loops. Termination is stated where the code
    bounds the loop: the prover's runs are three at most (\<open>proveIntent_spec\<close>, no fuel), a request has four
    sweeps (\<open>request_bounded\<close>, no fuel), and the payout script's polling needs fuel 46, one more than
    the 45 pauses of two seconds that reach its 90-second deadline (\<open>pollForConfirmation_ends\<close>).

  \<^bold>\<open>Which theory models what.\<close>
  \<^item> \<open>Redact\<close>: \<^verbatim>\<open>redact.ts\<close>. \<open>Js_Value\<close>: numbers, \<^verbatim>\<open>BigInt\<close>, \<^verbatim>\<open>Number\<close>, \<^verbatim>\<open>includes\<close>. \<open>Ledger_Types\<close>: the records.
  \<^item> \<open>Arb_Ledger\<close>: \<^verbatim>\<open>arbitrum_ledger.ts\<close>. \<open>Settled_Ledger\<close>, \<open>Prover_Pipeline\<close>: \<^verbatim>\<open>prover_pipeline.ts\<close>. \<open>Intent_State\<close>:
    \<^verbatim>\<open>intent_state.ts\<close>.
  \<^item> \<open>Arb_Config\<close> (configuration, keys, gate), \<open>Arb_Settlement\<close> (sequence, confirmation, slashing,
    reconciliation): \<^verbatim>\<open>arbitrum_settlement.ts\<close>.
  \<^item> \<open>Solver_Stats\<close>: \<^verbatim>\<open>solver_stats.ts\<close>. \<open>Reservation_Book\<close>, \<open>Solver_Routing\<close>, \<open>Dispatch\<close>: \<^verbatim>\<open>solver_routing.ts\<close>.
  \<^item> \<open>Wallet_Codec\<close>, \<open>Listener\<close>: \<^verbatim>\<open>listener.ts\<close>. \<open>Orchestrator\<close>: the process as a step relation (\<open>orch_step\<close>): a
    start from the files, a log, the end of the running proving job, the three timers; a crash is any
    handler that ends in \<open>Stop\<close>, or a start at any time. A handler is one step.
  \<^item> \<open>Rpc_Rotation\<close>: \<^verbatim>\<open>rpc_rotation.ts\<close>, a request on its own; \<open>Rpc_Process\<close>: all transports of a process, with the
    requests of all of them in any interleaving (\<open>rpc_step\<close>), of which a request on its own is one run
    (\<open>request_is_a_run\<close>). \<open>Tron_Listener\<close>: \<^verbatim>\<open>tron_listener.ts\<close>, with its own step relation, in which
    the answers of overlapping requests arrive in any order, and the timer's guard \<open>inFlight\<close> is set by a tick
    and cleared when what the tick waits for has settled. \<open>Settle_Intent\<close>: \<^verbatim>\<open>settle_intent.js\<close>.

  \<^bold>\<open>What is shown.\<close>
  \<^item> The whole process, in every reachable state, through crashes and restarts (\<open>Process_Properties\<close>):
    every transaction was announced on disk before it was sent; no payout is told to broadcast twice and
    each was recorded first, as long as the settled ledger can be written; when it cannot, every death and
    start lets the same payout go once more (\<open>Refused_Write\<close>); no URL leaves in an alert or a record; each
    ledger has one entry per intent, found by its id, and a restart reads both files back. The chain
    of locales \<open>quiet_invariant\<close>, \<open>confirm_invariant\<close>, \<open>landed_invariant\<close>, \<open>deps_invariant\<close> (\<open>Arb_Invariants\<close>) and
    \<open>process_invariant\<close> (\<open>Handlers\<close>) states what an invariant must tolerate, shows once that every handler
    keeps it, and is interpreted for each invariant (\<open>Write_Ahead\<close>, \<open>Orchestrator\<close>, \<open>Payout_Once\<close>, \<open>Safety\<close>).
  \<^item> The sequence (\<open>Safety\<close>): no payout unless the chain shows the collateral; nothing is started twice; no slash
    before the expiry or of an intent known to be paid; whenever a receipt does not arrive, the ledger forgets
    the collateral that was sent.
  \<^item> Selection: the interface \<open>selection_reads\<close> (\<open>Selection\<close>) is interpreted on the real reads; a selection is
    sound and promises no capital twice. The reservation book refines a partial map; the statistics read
    exactly the intents that are not cached, save what they learn, and count a tally (\<open>chain_reader\<close>, interpreted on the
    contract's reads); tiers move by one step at most; caps are within bounds.
  \<^item> Configuration: the keys that are loaded, distinct accounts, the bounds of the retry deadline, and the value that
    slips through the check, with whatever text does not parse as a number.
  \<^item> Ledgers: what a stage change leaves, property by property, after success, refusal and truncation; reconciling promotes only
    what has landed. The prover queue is first in, first out.
  \<^item> Encodings: base 58 with checksum and the proof hash's hexadecimal lose nothing.
  \<^item> The transport: order, bounds, and in every interleaving the cooldowns. The TRON poll: equivalence with a
    reference, its invariant, and the guard that never holds. The payout script: the order of its effects, when polling
    ends, when it escrows again, when it succeeds without a payout.
  The witnesses run the definitions on a scripted outside (\<open>Scripted\<close>, \<open>Sample_Run\<close>) or on a sample client.

  \<^bold>\<open>Not modelled.\<close>
  \<^item> Rounding of floating-point numbers (rationals are exact; the amounts are bigints), the text of fractional
    numbers in messages, characters outside Latin-1 in input texts.
  \<^item> Interleaving inside a handler: handlers of the listener run one after another, though in Node
    they may alternate at each await; the periodic resumes run in order instead of side by side. So the mutex of
    \<^verbatim>\<open>solver_routing.ts\<close> (\<^verbatim>\<open>runExclusive\<close>) is not modelled: a selection is part of one step. (The transports and the TRON
    listener are modelled with their interleavings.)
  \<^item> Console output, \<^verbatim>\<open>redactError\<close>, the handlers that only print (\<^verbatim>\<open>logCollateralPosted\<close>, \<^verbatim>\<open>logIntentSettled\<close> of the
    listener), the optional Robinhood watcher, ABI encoding, viem and Anchor, TLS, and the exact text of
    library errors.
  \<^item> \<^verbatim>\<open>deploy_tron.js\<close>, \<^verbatim>\<open>initialize_program.js\<close>, \<^verbatim>\<open>setup_circuit_breaker.js\<close> (run once by hand, only library calls), the
    Solidity and Rust programs, tests and build files.
\<close>

end
